(* ===== verification/Go_Prelude.thy ===== *)
theory Go_Prelude
  imports Main "HOL-Library.Word" "HOL-Library.Char_ord" "HOL-Library.List_Lexorder"
    "HOL-Library.Multiset" "HOL-Library.Sublist"
begin

text \<open>
  The shared vocabulary of the development: the parts of Go and of its standard library
  that the modelled packages use, and the generic lemmas the component theories share.

  A Go \<open>string\<close> (and a \<open>[]byte\<close>) is a sequence of bytes, here a HOL \<open>string\<close> (a list of
  8-bit \<open>char\<close>s), so \<open>len\<close> is \<open>length\<close> and \<open>strings.Compare\<close> is the lexicographic
  order of \<open>HOL-Library.List_Lexorder\<close> over the byte order of \<open>HOL-Library.Char_ord\<close>.
  A fallible function returns a value of the sum type \<open>'e + 'a\<close>, \<open>Inl\<close> being the error.
\<close>

named_theorems go_defs \<open>definitions of the Go string helpers\<close>

section \<open>Strings\<close>

type_synonym go_string = string

abbreviation chr_tab :: char where "chr_tab \<equiv> CHR 0x09"
abbreviation chr_nl :: char where "chr_nl \<equiv> CHR 0x0A"
abbreviation chr_cr :: char where "chr_cr \<equiv> CHR 0x0D"
abbreviation chr_nul :: char where "chr_nul \<equiv> CHR 0x00"
abbreviation chr_dquote :: char where "chr_dquote \<equiv> CHR 0x22"
abbreviation chr_squote :: char where "chr_squote \<equiv> CHR 0x27"
abbreviation chr_backslash :: char where "chr_backslash \<equiv> CHR 0x5C"

text \<open>\<open>strings.TrimLeft\<close>, \<open>TrimRight\<close> for an ASCII cutset, \<open>HasPrefix\<close>, \<open>HasSuffix\<close>.\<close>

definition TrimLeft :: "go_string \<Rightarrow> char set \<Rightarrow> go_string" where
  "TrimLeft s cs = dropWhile (\<lambda>c. c \<in> cs) s"

definition TrimRight :: "go_string \<Rightarrow> char set \<Rightarrow> go_string" where
  "TrimRight s cs = rev (dropWhile (\<lambda>c. c \<in> cs) (rev s))"

definition HasPrefix :: "go_string \<Rightarrow> go_string \<Rightarrow> bool" where
  "HasPrefix s p \<longleftrightarrow> take (length p) s = p"

definition HasSuffix :: "go_string \<Rightarrow> go_string \<Rightarrow> bool" where
  "HasSuffix s p \<longleftrightarrow> HasPrefix (rev s) (rev p)"

text \<open>\<open>strings.Cut\<close> at a one-byte separator: the text before and after its first occurrence.\<close>

fun Cut :: "go_string \<Rightarrow> char \<Rightarrow> (go_string \<times> go_string) option" where
  "Cut [] sep = None"
| "Cut (c # cs) sep =
     (if c = sep then Some ([], cs)
      else (case Cut cs sep of None \<Rightarrow> None | Some (a, b) \<Rightarrow> Some (c # a, b)))"

text \<open>\<open>strings.Split\<close> at a one-byte separator; the result is never empty.\<close>

fun Split :: "go_string \<Rightarrow> char \<Rightarrow> go_string list" where
  "Split [] sep = [[]]"
| "Split (c # cs) sep =
     (if c = sep then [] # Split cs sep
      else (case Split cs sep of [] \<Rightarrow> [[c]] | x # xs \<Rightarrow> (c # x) # xs))"

text \<open>\<open>strconv.Itoa\<close> on the numbers that are not negative.\<close>

fun Itoa :: "nat \<Rightarrow> go_string" where
  "Itoa n = (if n < 10 then [char_of (48 + n)] else Itoa (n div 10) @ [char_of (48 + n mod 10)])"

declare Itoa.simps [simp del]

definition decimal_value :: "go_string \<Rightarrow> nat" where
  "decimal_value = foldl (\<lambda>v c. 10 * v + (of_char c - 48)) 0"

lemma decimal_value_Itoa [simp]: "decimal_value (Itoa n) = n"
proof (induction n rule: Itoa.induct)
  case (1 n)
  have "of_char (char_of (48 + k) :: char) - 48 = k" if "k < 10" for k :: nat
    using that by (simp add: of_char_of)
  then show ?case
    using 1 by (subst Itoa.simps) (auto simp: decimal_value_def)
qed

lemma Itoa_inj: "Itoa m = Itoa n \<Longrightarrow> m = n"
  by (metis decimal_value_Itoa)

lemma Itoa_digits: "c \<in> set (Itoa n) \<Longrightarrow> of_char c \<in> {48..<58 :: nat}"
proof (induction n rule: Itoa.induct)
  case (1 n)
  then show ?case by (subst (asm) (2) Itoa.simps) (auto simp: of_char_of split: if_splits)
qed

lemma Itoa_no_colon: "CHR '':'' \<notin> set (Itoa n)"
  using Itoa_digits [of "CHR '':''" n] by (auto simp: of_char_def)

text \<open>\<open>strings.Join\<close>.\<close>

fun Join :: "go_string list \<Rightarrow> go_string \<Rightarrow> go_string" where
  "Join [] sep = []"
| "Join [x] sep = x"
| "Join (x # y # xs) sep = x @ sep @ Join (y # xs) sep"

lemma TrimLeft_Nil [simp]: "TrimLeft [] cs = []"
  by (simp add: TrimLeft_def)

lemma TrimRight_Nil [simp]: "TrimRight [] cs = []"
  by (simp add: TrimRight_def)

lemma TrimLeft_Cons: "TrimLeft (c # s) cs = (if c \<in> cs then TrimLeft s cs else c # s)"
  by (simp add: TrimLeft_def)

lemma TrimLeft_id: "s = [] \<or> hd s \<notin> cs \<Longrightarrow> TrimLeft s cs = s"
  by (cases s) (auto simp: TrimLeft_def)

lemma TrimRight_id: "s = [] \<or> last s \<notin> cs \<Longrightarrow> TrimRight s cs = s"
  by (cases s rule: rev_cases) (auto simp: TrimRight_def)

lemma TrimRight_snoc: "TrimRight (s @ [c]) cs = (if c \<in> cs then TrimRight s cs else s @ [c])"
  by (simp add: TrimRight_def)

lemma TrimRight_all: "set s \<inter> cs = {} \<Longrightarrow> TrimRight s cs = s"
  by (rule TrimRight_id) (metis disjoint_iff last_in_set)

lemma set_TrimLeft: "set (TrimLeft s cs) \<subseteq> set s"
  by (auto simp: TrimLeft_def dest: set_dropWhileD)

lemma set_TrimRight: "set (TrimRight s cs) \<subseteq> set s"
  by (auto simp: TrimRight_def dest: set_dropWhileD)

lemma HasPrefix_prefix: "HasPrefix s p \<longleftrightarrow> prefix p s"
  by (metis HasPrefix_def append_eq_conv_conj prefixI prefix_def)

lemma HasPrefix_append [simp]: "HasPrefix (p @ s) p"
  by (simp add: HasPrefix_def)

lemma Cut_hit [simp]: "sep \<notin> set a \<Longrightarrow> Cut (a @ sep # b) sep = Some (a, b)"
  by (induction a) auto

lemma Cut_None: "Cut s sep = None \<longleftrightarrow> sep \<notin> set s"
  by (induction s) (auto split: option.splits)

lemma Cut_SomeD: "Cut s sep = Some (a, b) \<Longrightarrow> s = a @ sep # b \<and> sep \<notin> set a"
  by (induction s arbitrary: a) (auto split: if_splits option.splits)

lemma Split_not_Nil [simp]: "Split s sep \<noteq> []"
  by (cases s) (auto split: list.splits)

lemma Split_no_sep: "sep \<notin> set s \<Longrightarrow> Split s sep = [s]"
  by (induction s) auto

lemma Split_line: "sep \<notin> set a \<Longrightarrow> Split (a @ sep # b) sep = a # Split b sep"
  by (induction a) auto

section \<open>Runes: UTF-8 and Unicode white space\<close>

text \<open>
  \<open>rune_len s\<close> is the length of the UTF-8 sequence \<open>s\<close> starts with, \<open>None\<close> when \<open>s\<close>
  starts with no valid one (the table of \<open>unicode/utf8\<close>: no overlong form, no surrogate,
  nothing above U+10FFFF).
\<close>

definition cont_byte :: "nat \<Rightarrow> nat \<Rightarrow> char \<Rightarrow> bool" where
  "cont_byte lo hi c \<longleftrightarrow> lo \<le> of_char c \<and> (of_char c :: nat) \<le> hi"

definition rune_len :: "go_string \<Rightarrow> nat option" where
  "rune_len s = (case s of [] \<Rightarrow> None | c # cs \<Rightarrow>
     (let n = (of_char c :: nat);
          two = (\<lambda>lo hi. case cs of a # _ \<Rightarrow> cont_byte lo hi a | _ \<Rightarrow> False);
          three = (\<lambda>lo hi. case cs of a # b # _ \<Rightarrow> cont_byte lo hi a \<and> cont_byte 128 191 b
                           | _ \<Rightarrow> False);
          four = (\<lambda>lo hi. case cs of a # b # d # _ \<Rightarrow>
                    cont_byte lo hi a \<and> cont_byte 128 191 b \<and> cont_byte 128 191 d
                  | _ \<Rightarrow> False)
      in if n < 128 then Some 1
         else if 194 \<le> n \<and> n \<le> 223 then (if two 128 191 then Some 2 else None)
         else if n = 224 then (if three 160 191 then Some 3 else None)
         else if n = 237 then (if three 128 159 then Some 3 else None)
         else if 225 \<le> n \<and> n \<le> 239 then (if three 128 191 then Some 3 else None)
         else if n = 240 then (if four 144 191 then Some 4 else None)
         else if 241 \<le> n \<and> n \<le> 243 then (if four 128 191 then Some 4 else None)
         else if n = 244 then (if four 128 143 then Some 4 else None)
         else None))"

text \<open>\<open>utf8.ValidString\<close> and \<open>utf8.RuneCountInString\<close> (an invalid byte counts as one rune).\<close>

fun ValidString :: "go_string \<Rightarrow> bool" where
  "ValidString [] = True"
| "ValidString (c # cs) =
     (case rune_len (c # cs) of None \<Rightarrow> False | Some k \<Rightarrow> ValidString (drop (k - 1) cs))"

fun RuneCount :: "go_string \<Rightarrow> nat" where
  "RuneCount [] = 0"
| "RuneCount (c # cs) =
     (case rune_len (c # cs) of None \<Rightarrow> Suc (RuneCount cs)
      | Some k \<Rightarrow> Suc (RuneCount (drop (k - 1) cs)))"

text \<open>
  \<open>unicode.IsSpace\<close> as the UTF-8 encodings of its runes: the ASCII ones, U+0085, U+00A0,
  U+1680, U+2000 to U+200A, U+2028, U+2029, U+202F, U+205F and U+3000. Since UTF-8 is
  self-synchronising, the first (last) rune of a string is a space exactly when the string
  starts (ends) with one of these encodings.
\<close>

definition space_runes :: "go_string list" where
  "space_runes =
     [[CHR 0x09], [CHR 0x0A], [CHR 0x0B], [CHR 0x0C], [CHR 0x0D], [CHR 0x20],
      [CHR 0xC2, CHR 0x85], [CHR 0xC2, CHR 0xA0],
      [CHR 0xE1, CHR 0x9A, CHR 0x80]] @
     map (\<lambda>n. [CHR 0xE2, CHR 0x80, char_of n]) ([128..<139] @ [168 :: nat, 169, 175]) @
     [[CHR 0xE2, CHR 0x81, CHR 0x9F], [CHR 0xE3, CHR 0x80, CHR 0x80]]"

text \<open>
  \<open>strings.TrimSpace\<close>: strip leading, then trailing space runes. The recursion strips one
  rune per call; the last argument bounds the number of calls, and the length of the
  string is always enough because every rune has at least one byte.
\<close>

fun strip_runes :: "nat \<Rightarrow> go_string list \<Rightarrow> go_string \<Rightarrow> go_string" where
  "strip_runes 0 rs s = s"
| "strip_runes (Suc n) rs s =
     (case find (\<lambda>r. HasPrefix s r) rs of None \<Rightarrow> s
      | Some r \<Rightarrow> strip_runes n rs (drop (length r) s))"

definition TrimSpaceLeft :: "go_string \<Rightarrow> go_string" where
  "TrimSpaceLeft s = strip_runes (length s) space_runes s"

definition TrimSpaceRight :: "go_string \<Rightarrow> go_string" where
  "TrimSpaceRight s = rev (strip_runes (length s) (map rev space_runes) (rev s))"

definition TrimSpace :: "go_string \<Rightarrow> go_string" where
  "TrimSpace s = TrimSpaceRight (TrimSpaceLeft s)"


lemma HasPrefix_append_mono: "HasPrefix s p \<Longrightarrow> HasPrefix (s @ t) p"
  by (simp add: HasPrefix_prefix prefix_prefix)

lemma find_rune_None: "find (\<lambda>r. HasPrefix s r) rs = None \<longleftrightarrow> (\<forall>r \<in> set rs. \<not> HasPrefix s r)"
  by (auto simp: find_None_iff)

lemma strip_runes_length: "length (strip_runes n rs s) \<le> length s"
proof (induction n arbitrary: s)
  case (Suc n)
  show ?case
  proof (cases "find (\<lambda>r. HasPrefix s r) rs")
    case (Some r)
    then show ?thesis
      using Suc [of "drop (length r) s"] by simp
  qed simp
qed simp

lemma strip_runes_suffix: "\<exists>a. s = a @ strip_runes n rs s"
proof (induction n arbitrary: s)
  case (Suc n)
  show ?case
  proof (cases "find (\<lambda>r. HasPrefix s r) rs")
    case (Some r)
    obtain a where "drop (length r) s = a @ strip_runes n rs (drop (length r) s)"
      using Suc by blast
    then have "take (length r) s @ drop (length r) s = (take (length r) s @ a) @ strip_runes (Suc n) rs s"
      using Some by (metis append_assoc option.simps(5) strip_runes.simps(2))
    then show ?thesis by (metis append_take_drop_id)
  qed simp
qed simp

text \<open>With as much fuel as the string has bytes, stripping stops only where nothing is left to strip.\<close>

lemma strip_runes_done:
  assumes "[] \<notin> set rs" and "length s \<le> n"
  shows "\<forall>r \<in> set rs. \<not> HasPrefix (strip_runes n rs s) r"
  using assms(2)
proof (induction n arbitrary: s)
  case 0
  then show ?case
    using assms(1) by (auto simp: HasPrefix_def)
next
  case (Suc n)
  show ?case
  proof (cases "find (\<lambda>r. HasPrefix s r) rs")
    case None
    then have "strip_runes (Suc n) rs s = s" by simp
    then show ?thesis using None by (simp only: find_rune_None)
  next
    case (Some r)
    then have "r \<in> set rs" "HasPrefix s r"
      by (auto simp: find_Some_iff)
    with assms(1) have "0 < length r" "length r \<le> length s"
      by (cases r; force simp: HasPrefix_def dest: arg_cong [where f = length])+
    then have "length (drop (length r) s) \<le> n"
      using Suc.prems unfolding length_drop by arith
    then show ?thesis
      using Suc.IH Some by simp
  qed
qed

lemma strip_runes_id: "\<forall>r \<in> set rs. \<not> HasPrefix s r \<Longrightarrow> strip_runes n rs s = s"
  by (cases n) (auto simp: find_rune_None [symmetric])

lemma space_runes_not_Nil: "[] \<notin> set space_runes"
  by (auto simp: space_runes_def)

definition starts_with_space :: "go_string \<Rightarrow> bool" where
  "starts_with_space s \<longleftrightarrow> (\<exists>r \<in> set space_runes. HasPrefix s r)"

definition ends_with_space :: "go_string \<Rightarrow> bool" where
  "ends_with_space s \<longleftrightarrow> (\<exists>r \<in> set space_runes. HasPrefix (rev s) (rev r))"

lemma TrimSpaceLeft_done: "\<not> starts_with_space (TrimSpaceLeft s)"
  using strip_runes_done [OF space_runes_not_Nil, of s "length s"]
  by (simp add: TrimSpaceLeft_def starts_with_space_def)

lemma TrimSpaceRight_done: "\<not> ends_with_space (TrimSpaceRight s)"
  using strip_runes_done [of "map rev space_runes" "rev s" "length s"] space_runes_not_Nil
  by (auto simp: TrimSpaceRight_def ends_with_space_def)

lemma TrimSpaceLeft_id: "\<not> starts_with_space s \<Longrightarrow> TrimSpaceLeft s = s"
  by (simp add: TrimSpaceLeft_def starts_with_space_def strip_runes_id)

lemma TrimSpaceRight_id: "\<not> ends_with_space s \<Longrightarrow> TrimSpaceRight s = s"
  by (simp add: TrimSpaceRight_def ends_with_space_def strip_runes_id)

lemma TrimSpaceRight_prefix: "\<exists>b. s = TrimSpaceRight s @ b"
proof -
  obtain a where "rev s = a @ strip_runes (length s) (map rev space_runes) (rev s)"
    using strip_runes_suffix by blast
  then have "s = TrimSpaceRight s @ rev a"
    by (metis TrimSpaceRight_def rev_append rev_rev_ident)
  then show ?thesis ..
qed

lemma TrimSpace_starts: "\<not> starts_with_space (TrimSpace s)"
proof
  assume "starts_with_space (TrimSpace s)"
  then obtain r where "r \<in> set space_runes" and r: "HasPrefix (TrimSpace s) r"
    by (auto simp: starts_with_space_def)
  moreover obtain b where "TrimSpaceLeft s = TrimSpace s @ b"
    using TrimSpaceRight_prefix [of "TrimSpaceLeft s"] by (auto simp: TrimSpace_def)
  ultimately have "starts_with_space (TrimSpaceLeft s)"
    by (metis HasPrefix_append_mono starts_with_space_def)
  then show False
    using TrimSpaceLeft_done by blast
qed

lemma TrimSpace_ends: "\<not> ends_with_space (TrimSpace s)"
  by (simp add: TrimSpace_def TrimSpaceRight_done)

lemma TrimSpace_id: "\<not> starts_with_space s \<Longrightarrow> \<not> ends_with_space s \<Longrightarrow> TrimSpace s = s"
  by (simp add: TrimSpace_def TrimSpaceLeft_id TrimSpaceRight_id)

lemma TrimSpace_fixpoint: "TrimSpace s = s \<longleftrightarrow> \<not> starts_with_space s \<and> \<not> ends_with_space s"
  by (metis TrimSpace_ends TrimSpace_id TrimSpace_starts)

lemma TrimSpace_idem [simp]: "TrimSpace (TrimSpace s) = TrimSpace s"
  by (simp add: TrimSpace_fixpoint TrimSpace_starts TrimSpace_ends)

abbreviation ascii_blank :: "char set" where
  "ascii_blank \<equiv> {CHR '' '', chr_tab}"

lemma starts_with_blank: "s \<noteq> [] \<Longrightarrow> hd s \<in> ascii_blank \<Longrightarrow> starts_with_space s"
  by (cases s) (auto simp: starts_with_space_def space_runes_def HasPrefix_def)

lemma ends_with_blank:
  assumes "s \<noteq> []" and "last s \<in> ascii_blank"
  shows "ends_with_space s"
proof -
  from assms obtain t c where "s = t @ [c]" "c \<in> ascii_blank"
    by (metis append_butlast_last_id)
  then show ?thesis
    by (auto simp: ends_with_space_def space_runes_def HasPrefix_def)
qed

section \<open>Sorting\<close>

text \<open>
  \<open>slices.SortFunc\<close> on a key is \<open>sort_key\<close> (equal keys keep their order; where a result
  could depend on that the keys are assumed distinct), \<open>slices.Compact\<close> is \<open>remdups_adj\<close>.
\<close>

lemma sort_key_unique:
  assumes "distinct (map f xs)" and "mset xs = mset ys"
  shows "sort_key f xs = sort_key f ys"
proof -
  have d: "distinct (map f ys)"
    using assms by (metis mset_eq_imp_distinct_iff mset_map)
  have "map f (sort_key f xs) = map f (sort_key f ys)"
  proof (rule sorted_distinct_set_unique)
    show "distinct (map f (sort_key f xs))" "distinct (map f (sort_key f ys))"
      using assms(1) d by (metis mset_eq_imp_distinct_iff mset_map mset_sort)+
  qed (use assms(2) in \<open>auto dest: mset_eq_setD\<close>)
  moreover have "inj_on f (set (sort_key f xs) \<union> set (sort_key f ys))"
    using assms by (auto simp: distinct_map dest: mset_eq_setD)
  ultimately show ?thesis by (rule map_inj_on)
qed

lemma sort_key_eq_iff:
  "distinct (map f xs) \<Longrightarrow> sort_key f xs = sort_key f ys \<longleftrightarrow> mset xs = mset ys"
  by (metis mset_sort sort_key_unique)

lemma distinct_remdups_adj_sorted: "sorted xs \<Longrightarrow> distinct (remdups_adj xs)"
proof (induction xs rule: remdups_adj.induct)
  case (3 x y xs)
  then show ?case by (force simp: sorted_wrt_append)
qed simp_all

lemma Compact_sort: "remdups_adj (sort xs) = sorted_list_of_set (set xs)"
  by (rule sorted_distinct_set_unique)
    (simp_all add: distinct_remdups_adj_sorted sorted_remdups_adj)

lemma Compact_sort_eq_iff: "remdups_adj (sort xs) = remdups_adj (sort ys) \<longleftrightarrow> set xs = set ys"
  by (metis Compact_sort List.finite_set set_sorted_list_of_set)

end
