(* ===== verification/Schema_Names.thy ===== *)
theory Schema_Names
  imports Go_Prelude
begin

text \<open>
  \<open>internal/schema/schema.go\<close> and \<open>presence.go\<close>: the canonical key grammar, the bounds and
  text checks of names and descriptions, and the presence rules of a key
  (\<open>required_in\<close>, \<open>forbidden_in\<close>) with their statically decidable conflicts.
\<close>

section \<open>Names and descriptions\<close>

datatype name_error =
  EmptyName | NameTooLong | NameGrammar | NameSpace | NotUTF8 | HasNUL | TextTooLong

definition MaxKeyNameBytes :: nat where "MaxKeyNameBytes = 128"
definition MaxDescriptionBytes :: nat where "MaxDescriptionBytes = 4096"

text \<open>The regular expression \<open>[A-Z_][A-Z0-9_]*\<close> over the whole name.\<close>

definition is_upper :: "char \<Rightarrow> bool" where
  "is_upper c \<longleftrightarrow> 65 \<le> (of_char c :: nat) \<and> (of_char c :: nat) \<le> 90"

definition is_lower :: "char \<Rightarrow> bool" where
  "is_lower c \<longleftrightarrow> 97 \<le> (of_char c :: nat) \<and> (of_char c :: nat) \<le> 122"

definition is_digit :: "char \<Rightarrow> bool" where
  "is_digit c \<longleftrightarrow> 48 \<le> (of_char c :: nat) \<and> (of_char c :: nat) \<le> 57"

definition keyNameRe :: "go_string \<Rightarrow> bool" where
  "keyNameRe s = (case s of [] \<Rightarrow> False
     | c # cs \<Rightarrow> (is_upper c \<or> c = CHR ''_'') \<and>
                 list_all (\<lambda>d. is_upper d \<or> is_digit d \<or> d = CHR ''_'') cs)"

definition CheckKeyName :: "go_string \<Rightarrow> name_error option" where
  "CheckKeyName name =
     (if name = [] then Some EmptyName
      else if length name > MaxKeyNameBytes then Some NameTooLong
      else if \<not> keyNameRe name then Some NameGrammar
      else None)"

definition CheckGroupName :: "go_string \<Rightarrow> name_error option" where
  "CheckGroupName name =
     (if name = [] then Some EmptyName
      else if length name > MaxKeyNameBytes then Some NameTooLong
      else if TrimSpace name \<noteq> name then Some NameSpace
      else if \<not> ValidString name then Some NotUTF8
      else if chr_nul \<in> set name then Some HasNUL
      else None)"

definition CheckDescription :: "go_string \<Rightarrow> name_error option" where
  "CheckDescription s =
     (if length s > MaxDescriptionBytes then Some TextTooLong
      else if \<not> ValidString s then Some NotUTF8
      else if chr_nul \<in> set s then Some HasNUL
      else None)"

lemma keyNameRe_chars:
  "keyNameRe s \<Longrightarrow> c \<in> set s \<Longrightarrow> is_upper c \<or> is_digit c \<or> c = CHR ''_''"
  by (cases s) (auto simp: keyNameRe_def list_all_iff)

lemma keyNameRe_not_Nil [simp]: "\<not> keyNameRe []"
  by (simp add: keyNameRe_def)

lemma keyNameRe_hd: "keyNameRe s \<Longrightarrow> is_upper (hd s) \<or> hd s = CHR ''_''"
  by (cases s) (auto simp: keyNameRe_def)

text \<open>Every byte the quoting and assignment grammars treat specially is outside a key name.\<close>

lemma keyNameRe_excludes:
  "keyNameRe s \<Longrightarrow> c \<in> set s \<Longrightarrow>
     c \<notin> {CHR ''='', CHR '' '', chr_tab, chr_nl, chr_cr, chr_nul, CHR ''#'', chr_dquote, chr_squote}"
  by (drule (1) keyNameRe_chars) (auto simp: is_upper_def is_digit_def)

lemma CheckKeyName_None: "CheckKeyName s = None \<longleftrightarrow> length s \<le> MaxKeyNameBytes \<and> keyNameRe s"
  by (auto simp: CheckKeyName_def)

section \<open>Presence rules\<close>

datatype PresenceMode = PresenceNone | PresenceAll | PresenceExplicit | OtherMode go_string

record Presence =
  Mode :: PresenceMode
  Environments :: "go_string list"

record PresenceRules =
  Required :: Presence
  Forbidden :: Presence

datatype presence_error =
  ModeCarriesIDs | ExplicitNamesNone | EmptyEnvironmentID | RepeatedEnvironment go_string
| UnknownMode go_string | RequiredAndForbidden | GroupConflict

definition DefaultPresenceRules :: PresenceRules where
  "DefaultPresenceRules =
     \<lparr>Required = \<lparr>Mode = PresenceNone, Environments = []\<rparr>,
      Forbidden = \<lparr>Mode = PresenceNone, Environments = []\<rparr>\<rparr>"

definition Covers :: "Presence \<Rightarrow> go_string \<Rightarrow> bool" where
  "Covers p envID =
     (case Mode p of PresenceAll \<Rightarrow> True
      | PresenceExplicit \<Rightarrow> envID \<in> set (Environments p)
      | _ \<Rightarrow> False)"

text \<open>The loop of \<open>checkPresenceShape\<close> over the explicit ids, with its \<open>seen\<close> set.\<close>

fun checkIDs :: "go_string set \<Rightarrow> go_string list \<Rightarrow> presence_error option" where
  "checkIDs seen [] = None"
| "checkIDs seen (i # is) =
     (if i = [] then Some EmptyEnvironmentID
      else if i \<in> seen then Some (RepeatedEnvironment i)
      else checkIDs (insert i seen) is)"

definition checkPresenceShape :: "Presence \<Rightarrow> presence_error option" where
  "checkPresenceShape p =
     (case Mode p of
        PresenceNone \<Rightarrow> (if Environments p \<noteq> [] then Some ModeCarriesIDs else None)
      | PresenceAll \<Rightarrow> (if Environments p \<noteq> [] then Some ModeCarriesIDs else None)
      | PresenceExplicit \<Rightarrow>
          (if Environments p = [] then Some ExplicitNamesNone else checkIDs {} (Environments p))
      | OtherMode m \<Rightarrow> Some (UnknownMode m))"

text \<open>\<open>overlap\<close>: can the two rules bind the same environment (its first result)?\<close>

definition overlap :: "Presence \<Rightarrow> Presence \<Rightarrow> bool" where
  "overlap r f =
     (if Mode r = PresenceNone \<or> Mode f = PresenceNone then False
      else if Mode r = PresenceAll \<or> Mode f = PresenceAll then True
      else filter (\<lambda>i. i \<in> set (Environments r)) (Environments f) \<noteq> [])"

definition CheckPresence :: "Presence \<Rightarrow> Presence \<Rightarrow> presence_error option" where
  "CheckPresence r f =
     (case checkPresenceShape r of Some e \<Rightarrow> Some e
      | None \<Rightarrow> (case checkPresenceShape f of Some e \<Rightarrow> Some e
        | None \<Rightarrow> (if overlap r f then Some RequiredAndForbidden else None)))"

definition CheckGroupPresence :: "PresenceRules \<Rightarrow> PresenceRules \<Rightarrow> presence_error option" where
  "CheckGroupPresence a b =
     (if overlap (Required a) (Forbidden b) \<or> overlap (Required b) (Forbidden a)
      then Some GroupConflict else None)"

text \<open>A rule is well formed when \<open>checkPresenceShape\<close> accepts it.\<close>

definition wf_presence :: "Presence \<Rightarrow> bool" where
  "wf_presence p \<longleftrightarrow> checkPresenceShape p = None"

lemma checkIDs_None: "checkIDs seen is = None \<longleftrightarrow> distinct is \<and> set is \<inter> seen = {} \<and> [] \<notin> set is"
  by (induction "is" arbitrary: seen) auto

lemma wf_presence_iff:
  "wf_presence p \<longleftrightarrow>
     (case Mode p of PresenceNone \<Rightarrow> Environments p = [] | PresenceAll \<Rightarrow> Environments p = []
      | PresenceExplicit \<Rightarrow> Environments p \<noteq> [] \<and> distinct (Environments p) \<and> [] \<notin> set (Environments p)
      | OtherMode m \<Rightarrow> False)"
  by (auto simp: wf_presence_def checkPresenceShape_def checkIDs_None split: PresenceMode.splits)

text \<open>
  On well-formed rules, the static overlap test answers exactly whether some environment,
  existing now or created later, is covered by both.
\<close>

lemma overlap_iff_covers:
  assumes "wf_presence r" and "wf_presence f"
  shows "overlap r f \<longleftrightarrow> (\<exists>e. Covers r e \<and> Covers f e)"
  using assms
  by (auto simp: wf_presence_iff overlap_def Covers_def filter_empty_conv neq_Nil_conv
      split: PresenceMode.splits)

lemma CheckPresence_None:
  "CheckPresence r f = None \<longleftrightarrow>
     wf_presence r \<and> wf_presence f \<and> (\<forall>e. \<not> (Covers r e \<and> Covers f e))"
  using overlap_iff_covers [of r f]
  by (auto simp: CheckPresence_def wf_presence_def split: option.splits)

lemma CheckGroupPresence_None:
  assumes "wf_presence (Required a)" "wf_presence (Forbidden a)"
    and "wf_presence (Required b)" "wf_presence (Forbidden b)"
  shows "CheckGroupPresence a b = None \<longleftrightarrow>
     (\<forall>e. \<not> (Covers (Required a) e \<and> Covers (Forbidden b) e) \<and>
          \<not> (Covers (Required b) e \<and> Covers (Forbidden a) e))"
  using overlap_iff_covers [OF assms(1,4)] overlap_iff_covers [OF assms(3,2)]
  by (auto simp: CheckGroupPresence_def)

end
