(* ===== verification/Dotenv.thy ===== *)
theory Dotenv
  imports Schema_Names
begin

text \<open>
  \<open>internal/dotenv/dotenv.go\<close>: the parser of \<open>.env\<close> documents and the encoder for
  documents that the parser must read back byte for byte. The round trip is proved for
  every list of entries with distinct keys that the encoder accepts.
\<close>

record Entry =
  Key :: go_string
  Value :: go_string

datatype value_error =
  UnterminatedSingle | UnterminatedDouble | DanglingBackslash | UnknownEscape char
| TrailingContent

text \<open>Every error names the line, counted from 1.\<close>

datatype parse_error =
  NotAssignment nat go_string | BadKeyName nat name_error
| DuplicateKey nat go_string | BadValue nat go_string value_error

definition cutExportPrefix :: "go_string \<Rightarrow> go_string option" where
  "cutExportPrefix s =
     (if \<not> HasPrefix s ''export'' then None
      else (let rest = drop (length ''export'') s in
        if rest = [] \<or> (hd rest \<noteq> CHR '' '' \<and> hd rest \<noteq> chr_tab) then None
        else Some (TrimLeft rest ascii_blank)))"

definition onlyTrailingBlank :: "go_string \<Rightarrow> value_error option" where
  "onlyTrailingBlank s = (if TrimLeft s ascii_blank \<noteq> [] then Some TrailingContent else None)"

definition parseSingleQuoted :: "go_string \<Rightarrow> value_error + go_string" where
  "parseSingleQuoted v =
     (case Cut (tl v) chr_squote of
        None \<Rightarrow> Inl UnterminatedSingle
      | Some (content, rest) \<Rightarrow>
          (case onlyTrailingBlank rest of Some e \<Rightarrow> Inl e | None \<Rightarrow> Inr content))"

text \<open>The inner \<open>switch v[i]\<close> of \<open>parseDoubleQuoted\<close>: what an escaped byte stands for.\<close>

definition unescape :: "char \<Rightarrow> char option" where
  "unescape c =
     (if c = CHR ''n'' then Some chr_nl
      else if c = CHR ''r'' then Some chr_cr
      else if c = CHR ''t'' then Some chr_tab
      else if c = chr_backslash then Some chr_backslash
      else if c = chr_dquote then Some chr_dquote
      else if c = chr_squote then Some chr_squote
      else None)"

text \<open>The loop of \<open>parseDoubleQuoted\<close>: the rest of the value and the bytes in the builder.\<close>

fun doubleQuotedLoop :: "go_string \<Rightarrow> go_string \<Rightarrow> value_error + go_string" where
  "doubleQuotedLoop [] b = Inl UnterminatedDouble"
| "doubleQuotedLoop (c # cs) b =
     (if c = chr_dquote then
        (case onlyTrailingBlank cs of Some e \<Rightarrow> Inl e | None \<Rightarrow> Inr b)
      else if c = chr_backslash then
        (case cs of [] \<Rightarrow> Inl DanglingBackslash
         | d # ds \<Rightarrow> (case unescape d of None \<Rightarrow> Inl (UnknownEscape d)
                      | Some x \<Rightarrow> doubleQuotedLoop ds (b @ [x])))
      else doubleQuotedLoop cs (b @ [c]))"

definition parseDoubleQuoted :: "go_string \<Rightarrow> value_error + go_string" where
  "parseDoubleQuoted v = doubleQuotedLoop (tl v) []"

definition parseValue :: "go_string \<Rightarrow> value_error + go_string" where
  "parseValue v =
     (if v = [] then Inr []
      else if hd v = chr_dquote then parseDoubleQuoted v
      else if hd v = chr_squote then parseSingleQuoted v
      else Inr (TrimRight v ascii_blank))"

text \<open>
  The body of the loop in \<open>Parse\<close> for line number \<open>n\<close> (from 0): \<open>Inr None\<close> when the line
  is skipped, \<open>Inr (Some e)\<close> when it gives an entry.
\<close>

definition parseLine :: "go_string set \<Rightarrow> nat \<Rightarrow> go_string \<Rightarrow> parse_error + Entry option" where
  "parseLine seen n raw =
     (let line = TrimRight raw {chr_cr};
          trimmed = TrimLeft line ascii_blank in
      if trimmed = [] \<or> HasPrefix trimmed ''#'' then Inr None
      else
        (let trimmed = (case cutExportPrefix trimmed of Some rest \<Rightarrow> rest | None \<Rightarrow> trimmed) in
         case Cut trimmed (CHR ''='') of
           None \<Rightarrow> Inl (NotAssignment (n + 1) line)
         | Some (lhs, rhs) \<Rightarrow>
             (let key = TrimRight lhs ascii_blank in
              case CheckKeyName key of Some e \<Rightarrow> Inl (BadKeyName (n + 1) e)
              | None \<Rightarrow>
                (if key \<in> seen then Inl (DuplicateKey (n + 1) key)
                 else (case parseValue (TrimLeft rhs ascii_blank) of
                         Inl e \<Rightarrow> Inl (BadValue (n + 1) key e)
                       | Inr v \<Rightarrow> Inr (Some \<lparr>Key = key, Value = v\<rparr>))))))"

fun parseLines ::
  "go_string set \<Rightarrow> nat \<Rightarrow> Entry list \<Rightarrow> go_string list \<Rightarrow> parse_error + Entry list" where
  "parseLines seen n entries [] = Inr entries"
| "parseLines seen n entries (raw # raws) =
     (case parseLine seen n raw of
        Inl e \<Rightarrow> Inl e
      | Inr None \<Rightarrow> parseLines seen (n + 1) entries raws
      | Inr (Some e) \<Rightarrow> parseLines (insert (Key e) seen) (n + 1) (entries @ [e]) raws)"

definition Parse :: "go_string \<Rightarrow> parse_error + Entry list" where
  "Parse data = parseLines {} 0 [] (Split data chr_nl)"

section \<open>Encoding\<close>

datatype encode_refusal = InvalidName | NULByte

record Refusal =
  refusal_Key :: go_string
  Reason :: encode_refusal

definition needsQuoting :: "go_string \<Rightarrow> bool" where
  "needsQuoting v =
     (if v = [] then False
      else if v \<noteq> TrimSpace v then True
      else if hd v = chr_dquote \<or> hd v = chr_squote then True
      else list_ex (\<lambda>c. c \<in> {CHR ''#'', chr_backslash, chr_dquote, chr_nl, chr_cr, chr_tab} \<or>
                       (of_char c :: nat) < 0x20 \<or> (of_char c :: nat) = 0x7f) v)"

text \<open>The \<open>switch\<close> of \<open>Encode\<close> over one byte of a quoted value.\<close>

definition escapeByte :: "char \<Rightarrow> go_string" where
  "escapeByte c =
     (if c = chr_backslash then [chr_backslash, chr_backslash]
      else if c = chr_dquote then [chr_backslash, chr_dquote]
      else if c = chr_nl then [chr_backslash, CHR ''n'']
      else if c = chr_cr then [chr_backslash, CHR ''r'']
      else if c = chr_tab then [chr_backslash, CHR ''t'']
      else [c])"

fun encodeRefusals :: "Entry list \<Rightarrow> Refusal list" where
  "encodeRefusals [] = []"
| "encodeRefusals (e # es) =
     (if CheckKeyName (Key e) \<noteq> None
      then \<lparr>refusal_Key = Key e, Reason = InvalidName\<rparr> # encodeRefusals es
      else if chr_nul \<in> set (Value e)
      then \<lparr>refusal_Key = Key e, Reason = NULByte\<rparr> # encodeRefusals es
      else encodeRefusals es)"

definition encodeValue :: "go_string \<Rightarrow> go_string" where
  "encodeValue v =
     (if needsQuoting v then chr_dquote # concat (map escapeByte v) @ [chr_dquote] else v)"

definition encodeEntry :: "Entry \<Rightarrow> go_string" where
  "encodeEntry e = Key e @ ''='' @ encodeValue (Value e) @ [chr_nl]"

definition Encode :: "Entry list \<Rightarrow> Refusal list + go_string" where
  "Encode entries =
     (if encodeRefusals entries \<noteq> [] then Inl (encodeRefusals entries)
      else Inr (concat (map encodeEntry entries)))"

section \<open>The round trip\<close>

lemma encodeRefusals_Nil:
  "encodeRefusals es = [] \<longleftrightarrow>
     (\<forall>e \<in> set es. CheckKeyName (Key e) = None \<and> chr_nul \<notin> set (Value e))"
  by (induction es) auto

lemma onlyTrailingBlank_Nil [simp]: "onlyTrailingBlank [] = None"
  by (simp add: onlyTrailingBlank_def)

text \<open>One escaped byte is read back as that byte.\<close>

lemma doubleQuoted_escapeByte:
  "doubleQuotedLoop (escapeByte c @ rest) b = doubleQuotedLoop rest (b @ [c])"
  by (simp add: escapeByte_def unescape_def)

lemma doubleQuoted_escaped:
  "doubleQuotedLoop (concat (map escapeByte v) @ rest) b = doubleQuotedLoop rest (b @ v)"
proof (induction v arbitrary: b)
  case (Cons c v)
  have "doubleQuotedLoop (concat (map escapeByte (c # v)) @ rest) b =
        doubleQuotedLoop (escapeByte c @ concat (map escapeByte v) @ rest) b" by simp
  then show ?case
    by (simp only: doubleQuoted_escapeByte Cons.IH append_assoc append_Cons append_Nil)
qed simp

lemma needsQuoting_bare:
  assumes "\<not> needsQuoting v" and "v \<noteq> []"
  shows "hd v \<notin> ascii_blank \<union> {chr_dquote, chr_squote}" and "last v \<notin> ascii_blank"
    and "chr_nl \<notin> set v" and "chr_cr \<notin> set v"
proof -
  have "v = TrimSpace v"
    using assms by (simp add: needsQuoting_def split: if_splits)
  then have "\<not> starts_with_space v" "\<not> ends_with_space v"
    by (metis TrimSpace_fixpoint)+
  then show "hd v \<notin> ascii_blank \<union> {chr_dquote, chr_squote}" "last v \<notin> ascii_blank"
    using assms starts_with_blank [of v] ends_with_blank [of v]
    by (auto simp: needsQuoting_def split: if_splits)
  show "chr_nl \<notin> set v" "chr_cr \<notin> set v"
    using assms by (auto simp: needsQuoting_def list_ex_iff split: if_splits)
qed

lemma escapeByte_clean: "chr_nl \<notin> set (escapeByte c)" "chr_cr \<notin> set (escapeByte c)"
  by (auto simp: escapeByte_def)

lemma encodeValue_clean: "chr_nl \<notin> set (encodeValue v)" "chr_cr \<notin> set (encodeValue v)"
  using escapeByte_clean needsQuoting_bare(3,4) [of v]
  by (cases "v = []"; auto simp: encodeValue_def)+

lemma encodeValue_hd:
  "encodeValue v \<noteq> [] \<Longrightarrow> hd (encodeValue v) \<notin> ascii_blank"
  using needsQuoting_bare(1) [of v] by (auto simp: encodeValue_def)

lemma parseValue_encodeValue: "parseValue (encodeValue v) = Inr v"
proof (cases "needsQuoting v")
  case True
  have "doubleQuotedLoop (concat (map escapeByte v) @ [chr_dquote]) [] = Inr v"
    by (simp add: doubleQuoted_escaped)
  with True show ?thesis
    by (simp add: encodeValue_def parseValue_def parseDoubleQuoted_def)
next
  case False
  then show ?thesis
    using needsQuoting_bare(1,2) [of v]
    by (auto simp: encodeValue_def parseValue_def TrimRight_id)
qed

lemma key_start:
  assumes "keyNameRe k"
  shows "hd (k @ r) \<notin> ascii_blank" "\<not> HasPrefix (k @ r) ''#''" "cutExportPrefix (k @ r) = None"
  using keyNameRe_hd [OF assms] assms
  by (cases k; force simp: HasPrefix_def cutExportPrefix_def is_upper_def)+

lemma parseLine_encodeEntry:
  assumes k: "CheckKeyName k = None" and new: "k \<notin> seen"
  shows "parseLine seen n (k @ CHR ''='' # encodeValue v) = Inr (Some \<lparr>Key = k, Value = v\<rparr>)"
proof -
  let ?l = "k @ CHR ''='' # encodeValue v"
  from k have re: "keyNameRe k" by (simp add: CheckKeyName_None)
  then have ne: "k \<noteq> []" by auto
  have excl: "CHR ''='' \<notin> set k" "chr_cr \<notin> set k" "set k \<inter> ascii_blank = {}"
    using keyNameRe_excludes [OF re] by auto
  have "TrimRight ?l {chr_cr} = ?l"
    using excl(2) encodeValue_clean(2) [of v] by (intro TrimRight_all) auto
  moreover have "TrimLeft ?l ascii_blank = ?l"
    using key_start(1) [OF re] by (simp add: TrimLeft_id)
  moreover have "TrimRight k ascii_blank = k"
    using excl(3) by (rule TrimRight_all)
  moreover have "TrimLeft (encodeValue v) ascii_blank = encodeValue v"
    using encodeValue_hd by (blast intro: TrimLeft_id)
  ultimately show ?thesis
    using ne excl(1) key_start(2,3) [OF re] k new parseValue_encodeValue [of v]
    by (simp add: parseLine_def Let_def)
qed

lemma encodeEntry_line:
  "CheckKeyName (Key e) = None \<Longrightarrow>
     Split (encodeEntry e @ rest) chr_nl =
       (Key e @ CHR ''='' # encodeValue (Value e)) # Split rest chr_nl"
proof -
  assume "CheckKeyName (Key e) = None"
  then have "chr_nl \<notin> set (Key e @ CHR ''='' # encodeValue (Value e))"
    using keyNameRe_excludes [of "Key e" chr_nl] encodeValue_clean(1)
    by (auto simp: CheckKeyName_None)
  from Split_line [OF this, of rest] show ?thesis
    by (simp add: encodeEntry_def)
qed

lemma parseLines_encoded:
  assumes "\<forall>e \<in> set es. CheckKeyName (Key e) = None"
    and "distinct (map Key es)" and "set (map Key es) \<inter> seen = {}"
  shows "parseLines seen n acc (Split (concat (map encodeEntry es)) chr_nl) = Inr (acc @ es)"
  using assms
proof (induction es arbitrary: seen n acc)
  case Nil
  then show ?case by (simp add: parseLine_def)
next
  case (Cons e es)
  have "parseLine seen n (Key e @ CHR ''='' # encodeValue (Value e)) = Inr (Some e)"
    using Cons.prems parseLine_encodeEntry [of "Key e" seen n "Value e"] by simp
  moreover have "parseLines (insert (Key e) seen) (n + 1) (acc @ [e])
      (Split (concat (map encodeEntry es)) chr_nl) = Inr ((acc @ [e]) @ es)"
    using Cons.prems by (intro Cons.IH) auto
  ultimately show ?case
    using Cons.prems encodeEntry_line [of e "concat (map encodeEntry es)"] by simp
qed

text \<open>Duplicate keys are the one thing the encoder accepts and the parser does not.\<close>

lemma parseLine_key:
  "parseLine seen n raw = Inr (Some e) \<Longrightarrow> Key e \<notin> seen \<and> CheckKeyName (Key e) = None"
  by (auto simp: parseLine_def Let_def split: if_splits option.splits sum.splits prod.splits)

lemma parseLines_distinct:
  assumes "parseLines seen n acc raws = Inr es"
    and "distinct (map Key acc)" and "set (map Key acc) = seen"
    and "\<forall>e \<in> set acc. CheckKeyName (Key e) = None"
  shows "distinct (map Key es) \<and> (\<forall>e \<in> set es. CheckKeyName (Key e) = None)"
  using assms
proof (induction raws arbitrary: seen n acc)
  case (Cons raw raws)
  show ?case
  proof (cases "parseLine seen n raw")
    case (Inr o')
    then show ?thesis
    proof (cases o')
      case None
      with Inr Cons show ?thesis by simp
    next
      case (Some e)
      then have "Key e \<notin> seen" "CheckKeyName (Key e) = None"
        using Inr parseLine_key by blast+
      with Inr Some Cons.prems show ?thesis
        by (intro Cons.IH [of "insert (Key e) seen" "n + 1" "acc @ [e]"]) auto
    qed
  qed (use Cons.prems in simp)
qed simp

text \<open>C32: an accepted list of entries with distinct keys is read back exactly as it was written.\<close>

theorem Parse_Encode:
  assumes "Encode es = Inr doc" and "distinct (map Key es)"
  shows "Parse doc = Inr es"
proof -
  have "\<forall>e \<in> set es. CheckKeyName (Key e) = None" and "doc = concat (map encodeEntry es)"
    using assms(1) encodeRefusals_Nil [of es] by (auto simp: Encode_def split: if_splits)
  then show ?thesis
    using assms(2) parseLines_encoded [of es "{}" 0 "[]"] by (simp add: Parse_def)
qed

theorem Parse_Encode_witness:
  "\<exists>doc. Encode [\<lparr>Key = ''A'', Value = [chr_nl, CHR ''x'', CHR ''#'']\<rparr>, \<lparr>Key = ''B_2'', Value = ''''\<rparr>] = Inr doc \<and>
     Parse doc = Inr [\<lparr>Key = ''A'', Value = [chr_nl, CHR ''x'', CHR ''#'']\<rparr>, \<lparr>Key = ''B_2'', Value = ''''\<rparr>]"
proof -
  let ?es = "[\<lparr>Key = ''A'', Value = [chr_nl, CHR ''x'', CHR ''#'']\<rparr>, \<lparr>Key = ''B_2'', Value = ''''\<rparr>]"
  have "encodeRefusals ?es = []"
    by (simp add: CheckKeyName_def MaxKeyNameBytes_def keyNameRe_def is_upper_def is_digit_def)
  then have "Encode ?es = Inr (concat (map encodeEntry ?es))"
    by (simp add: Encode_def)
  with Parse_Encode [of ?es] show ?thesis by auto
qed

text \<open>Whatever document parses, its entries have canonical, pairwise distinct names.\<close>

theorem Parse_keys:
  assumes "Parse doc = Inr es"
  shows "distinct (map Key es) \<and> (\<forall>e \<in> set es. CheckKeyName (Key e) = None)"
  using parseLines_distinct [of "{}" 0 "[]"] assms by (simp add: Parse_def)

theorem Parse_keys_witness:
  "Parse ''A=1'' = Inr [\<lparr>Key = ''A'', Value = ''1''\<rparr>] \<and> distinct (map Key [\<lparr>Key = ''A'', Value = ''1''\<rparr>])"
proof -
  have "Parse ''A=1'' = Inr [\<lparr>Key = ''A'', Value = ''1''\<rparr>]" by code_simp
  with Parse_keys [of "''A=1''"] show ?thesis by blast
qed

end
