(* ===== verification/Wire.thy ===== *)
theory Wire
  imports Go_Prelude
begin

text \<open>
  The length-prefixed encodings that the delivery tokens, the rollout stamps and the
  ciphertext envelopes are built from: \<open>encoding/binary\<close>'s varints, \<open>appendField\<close> of
  \<open>internal/delivery\<close> and \<open>be32\<close>, \<open>appendLP\<close>, \<open>readLP\<close> of \<open>internal/crypto\<close>. The
  locale \<open>prefix_code\<close> is the contract they share: an encoded item followed by anything
  can be split in one way only. Every field encoder is an interpretation of it.
\<close>

section \<open>Prefix codes\<close>

locale prefix_code =
  fixes enc :: "'a \<Rightarrow> go_string" and ok :: "'a \<Rightarrow> bool"
  assumes prefix_free: "\<lbrakk>ok a; ok b; enc a @ r = enc b @ s\<rbrakk> \<Longrightarrow> a = b \<and> r = s"
begin

lemma enc_inject: "ok a \<Longrightarrow> ok b \<Longrightarrow> enc a = enc b \<longleftrightarrow> a = b"
  using prefix_free [of a b "[]" "[]"] by auto

lemma enc_append: "ok a \<Longrightarrow> ok b \<Longrightarrow> enc a @ r = enc b @ s \<longleftrightarrow> a = b \<and> r = s"
  using prefix_free by blast

lemma enc_list_append:
  assumes "list_all ok xs" and "list_all ok ys" and "length xs = length ys"
    and "concat (map enc xs) @ r = concat (map enc ys) @ s"
  shows "xs = ys \<and> r = s"
  using assms
proof (induction xs arbitrary: ys)
  case (Cons x xs)
  then obtain y ys' where ys: "ys = y # ys'" by (cases ys) auto
  with Cons.prems have "x = y \<and> concat (map enc xs) @ r = concat (map enc ys') @ s"
    by (intro prefix_free) auto
  with Cons.prems ys Cons.IH [of ys'] show ?case by simp
qed simp

text \<open>When no item encodes to nothing, the whole string tells how many items there are.\<close>

lemma enc_list_inject:
  assumes ne: "\<forall>a. enc a \<noteq> []" and "list_all ok xs" and "list_all ok ys"
    and "concat (map enc xs) = concat (map enc ys)"
  shows "xs = ys"
  using assms(2-)
proof (induction xs arbitrary: ys)
  case Nil
  then show ?case using ne by (cases ys) simp_all
next
  case (Cons x xs)
  obtain y ys' where ys: "ys = y # ys'" using Cons.prems(3) ne by (cases ys) simp_all
  with Cons.prems have "x = y \<and> concat (map enc xs) = concat (map enc ys')"
    by (intro prefix_free) simp_all
  with Cons.IH [of ys'] Cons.prems(1,2) ys show ?case by simp
qed

end

text \<open>Two codes one after the other are a code of pairs.\<close>

locale prefix_code_pair = left: prefix_code enc1 ok1 + right: prefix_code enc2 ok2
  for enc1 :: "'a \<Rightarrow> go_string" and ok1 and enc2 :: "'b \<Rightarrow> go_string" and ok2
begin

lemma pair_prefix_free:
  assumes "ok1 a" "ok2 b" "ok1 a'" "ok2 b'" "enc1 a @ enc2 b @ r = enc1 a' @ enc2 b' @ s"
  shows "a = a' \<and> b = b' \<and> r = s"
  using left.prefix_free [OF assms(1,3,5)] right.prefix_free [OF assms(2,4)] by blast

end

sublocale prefix_code_pair \<subseteq>
  pair: prefix_code "\<lambda>p. enc1 (fst p) @ enc2 (snd p)" "\<lambda>p. ok1 (fst p) \<and> ok2 (snd p)"
proof
  fix p q :: "'a \<times> 'b" and r s
  assume "ok1 (fst p) \<and> ok2 (snd p)" "ok1 (fst q) \<and> ok2 (snd q)"
    and "(enc1 (fst p) @ enc2 (snd p)) @ r = (enc1 (fst q) @ enc2 (snd q)) @ s"
  then have "fst p = fst q \<and> snd p = snd q \<and> r = s"
    by (intro pair_prefix_free) simp_all
  then show "p = q \<and> r = s" by (simp add: prod_eq_iff)
qed

section \<open>Varints\<close>

text \<open>\<open>binary.AppendUvarint\<close>: seven bits per byte, least significant first.\<close>

fun uvarint :: "nat \<Rightarrow> go_string" where
  "uvarint n = (if n < 128 then [char_of n] else char_of (n mod 128 + 128) # uvarint (n div 128))"

declare uvarint.simps [simp del]

definition AppendUvarint :: "go_string \<Rightarrow> nat \<Rightarrow> go_string" where
  "AppendUvarint dst n = dst @ uvarint n"

text \<open>\<open>binary.AppendVarint\<close>: the zig-zag image of an \<open>int64\<close> as a \<open>uint64\<close>.\<close>

unbundle bit_operations_syntax

definition zigzag :: "64 word \<Rightarrow> 64 word" where
  "zigzag x = (let ux = push_bit 1 x in if sint x < 0 then NOT ux else ux)"

definition AppendVarint :: "go_string \<Rightarrow> 64 word \<Rightarrow> go_string" where
  "AppendVarint dst x = AppendUvarint dst (unat (zigzag x))"

lemma uvarint_not_Nil [simp]: "uvarint n \<noteq> []"
  by (subst uvarint.simps) simp

lemma of_char_small: "n < 256 \<Longrightarrow> (of_char (char_of n :: char) :: nat) = n"
  by simp

lemma uvarint_small: "n < 128 \<Longrightarrow> uvarint n = [char_of n]"
  by (subst uvarint.simps) simp

lemma uvarint_big: "128 \<le> n \<Longrightarrow> uvarint n = char_of (n mod 128 + 128) # uvarint (n div 128)"
  by (subst uvarint.simps) (simp only: not_less [symmetric] if_False)

text \<open>The value of the first byte tells the two cases apart and gives the low seven bits.\<close>

lemma uvarint_first:
  assumes "uvarint n = c # cs"
  shows "(of_char c :: nat) = (if n < 128 then n else n mod 128 + 128)"
proof (cases "n < 128")
  case True
  then have "c = char_of n" using assms by (simp only: uvarint_small list.inject)
  then show ?thesis using True of_char_small [of n] by simp
next
  case False
  then have "c = char_of (n mod 128 + 128)"
    using assms uvarint_big [of n] by (simp only: not_less list.inject)
  moreover have "n mod 128 + 128 < 256" using mod_less_divisor [of 128 n] by linarith
  ultimately show ?thesis using False by (simp only: of_char_small if_False)
qed

lemma uvarint_prefix_free: "uvarint a @ r = uvarint b @ s \<Longrightarrow> a = b \<and> r = s"
proof (induction a arbitrary: b rule: uvarint.induct)
  case (1 a)
  obtain c cs d ds where a: "uvarint a = c # cs" and b: "uvarint b = d # ds"
    by (metis list.exhaust uvarint_not_Nil)
  with 1(2) have "c = d" and rest: "cs @ r = ds @ s" by auto
  have first: "(if a < 128 then a else a mod 128 + 128) = (if b < 128 then b else b mod 128 + 128)"
    unfolding uvarint_first [OF a, symmetric] uvarint_first [OF b, symmetric] \<open>c = d\<close> ..
  show ?case
  proof (cases "a < 128")
    case True
    with first have "a = b" by (simp split: if_splits)
    with rest a b show ?thesis by auto
  next
    case False
    with first have nb: "\<not> b < 128" and low: "a mod 128 = b mod 128"
      by (auto split: if_splits)
    then have "cs = uvarint (a div 128)" "ds = uvarint (b div 128)"
      using False a b uvarint_big [of a] uvarint_big [of b] by (simp_all only: not_less list.inject)
    with rest 1(1) [OF False] have "a div 128 = b div 128" "r = s" by blast+
    moreover have "a = a div 128 * 128 + a mod 128" "b = b div 128 * 128 + b mod 128"
      by (rule div_mult_mod_eq [symmetric])+
    ultimately show ?thesis using low by simp
  qed
qed

interpretation uvarint: prefix_code uvarint "\<lambda>_. True"
  by unfold_locales (rule uvarint_prefix_free)

lemma zigzag_inject: "zigzag x = zigzag y \<longleftrightarrow> x = y"
proof
  assume eq: "zigzag x = zigzag y"
  have bit: "bit (zigzag x) (Suc n) = (bit x n \<noteq> (sint x < 0))" if "n < 63" for n x
    using that by (auto simp: zigzag_def bit_not_iff bit_double_Suc_iff
        mult.commute [of x 2])
  have low: "bit (zigzag x) 0 = (sint x < 0)" for x
    by (simp add: zigzag_def Let_def bit_not_iff bit_double_iff mult.commute [of x 2])
  have top: "bit x 63 = (sint x < 0)" for x :: "64 word"
    using bit_last_iff [of x] by simp
  show "x = y"
  proof (rule bit_word_eqI)
    fix n assume "n < LENGTH(64)"
    then show "bit x n = bit y n"
      using eq bit [of n x] bit [of n y] low [of x] low [of y] top [of x] top [of y]
      by (cases "n = 63") auto
  qed
qed simp

interpretation varint: prefix_code "\<lambda>x. uvarint (unat (zigzag x))" "\<lambda>_. True"
  by unfold_locales (metis unsigned_word_eqI uvarint_prefix_free zigzag_inject)

section \<open>Fields with a varint length\<close>

text \<open>\<open>delivery.appendField\<close>, repeated in \<open>crypto\<close> as \<open>appendStampField\<close>.\<close>

definition appendField :: "go_string \<Rightarrow> go_string \<Rightarrow> go_string" where
  "appendField dst s = AppendUvarint dst (length s) @ s"

definition appendStampField :: "go_string \<Rightarrow> go_string \<Rightarrow> go_string" where
  "appendStampField dst s = AppendUvarint dst (length s) @ s"

text \<open>The bytes that one field adds.\<close>

abbreviation field :: "go_string \<Rightarrow> go_string" where
  "field s \<equiv> uvarint (length s) @ s"

lemma appendField_field: "appendField dst s = dst @ field s"
  by (simp add: appendField_def AppendUvarint_def)

lemma appendStampField_field: "appendStampField dst s = dst @ field s"
  by (simp add: appendStampField_def AppendUvarint_def)

interpretation field: prefix_code "\<lambda>s. field s" "\<lambda>_. True"
proof
  fix a b r s :: go_string
  assume "field a @ r = field b @ s"
  then have "length a = length b \<and> a @ r = b @ s"
    using uvarint_prefix_free [of "length a" "a @ r" "length b" "b @ s"] by simp
  then show "a = b \<and> r = s" by (auto simp: append_eq_append_conv)
qed

interpretation field2: prefix_code_pair "\<lambda>s. field s" "\<lambda>_. True" "\<lambda>s. field s" "\<lambda>_. True" ..

text \<open>The laws in the shape in which encodings are compared field by field.\<close>

lemma field_append_iff:
  "uvarint (length a) @ a @ r = uvarint (length b) @ b @ s \<longleftrightarrow> a = b \<and> r = s"
  using field.enc_append [OF TrueI TrueI, of a r b s] by (simp only: append_assoc)

lemma field_iff: "uvarint (length a) @ a = uvarint (length b) @ b \<longleftrightarrow> a = b"
  by (rule field.enc_inject [OF TrueI TrueI])

lemma varint_append_iff:
  "uvarint (unat (zigzag x)) @ r = uvarint (unat (zigzag y)) @ s \<longleftrightarrow> x = y \<and> r = s"
  by (rule varint.enc_append [OF TrueI TrueI])

lemma varint_iff: "uvarint (unat (zigzag x)) = uvarint (unat (zigzag y)) \<longleftrightarrow> x = y"
  by (rule varint.enc_inject [OF TrueI TrueI])

lemmas wire_iffs = field_append_iff field_iff varint_append_iff varint_iff

text \<open>A list preceded by its length.\<close>

lemma counted_list_inject:
  assumes "prefix_code enc (\<lambda>_. True)"
    and "uvarint (length xs) @ concat (map enc xs) @ r = uvarint (length ys) @ concat (map enc ys) @ s"
  shows "xs = ys \<and> r = s"
proof -
  have "length xs = length ys \<and> concat (map enc xs) @ r = concat (map enc ys) @ s"
    using assms(2) by (intro uvarint.prefix_free) simp_all
  then show ?thesis
    using prefix_code.enc_list_append [OF assms(1), of xs ys r s]
    by (simp add: list_all_iff)
qed

section \<open>Fields with a 32-bit big-endian length\<close>

definition be32 :: "32 word \<Rightarrow> go_string" where
  "be32 v = (let n = unat v in
     [char_of (n div 16777216), char_of (n div 65536), char_of (n div 256), char_of n])"

text \<open>\<open>binary.BigEndian.Uint32\<close> on a buffer that has at least four bytes.\<close>

definition Uint32 :: "go_string \<Rightarrow> 32 word" where
  "Uint32 b = of_nat (16777216 * of_char (b ! 0) + 65536 * of_char (b ! 1) +
                      256 * of_char (b ! 2) + of_char (b ! 3))"

text \<open>\<open>appendLP\<close>; \<open>None\<close> is its panic on a field longer than \<open>math.MaxUint32\<close>.\<close>

definition appendLP :: "go_string \<Rightarrow> go_string \<Rightarrow> go_string option" where
  "appendLP dst f =
     (if length f > 2 ^ 32 - 1 then None
      else Some (dst @ be32 (of_nat (length f)) @ f))"

text \<open>\<open>readLP\<close>; \<open>None\<close> is \<open>ErrDecrypt\<close>. An \<open>int\<close> has 64 bits, so \<open>n < 0\<close> never holds.\<close>

definition readLP :: "go_string \<Rightarrow> nat \<Rightarrow> (go_string \<times> nat) option" where
  "readLP buf pos =
     (if pos + 4 > length buf then None
      else (let n = unat (Uint32 (drop pos buf)) in
        if pos + 4 + n > length buf then None
        else Some (take n (drop (pos + 4) buf), pos + 4 + n)))"

abbreviation lp :: "go_string \<Rightarrow> go_string" where
  "lp f \<equiv> be32 (of_nat (length f)) @ f"

abbreviation lp_ok :: "go_string \<Rightarrow> bool" where
  "lp_ok f \<equiv> length f < 2 ^ 32"

lemma length_be32 [simp]: "length (be32 v) = 4"
  by (simp add: be32_def Let_def)

lemma base256_digits:
  "n = 16777216 * (n div 16777216) + 65536 * (n div 65536 mod 256) + 256 * (n div 256 mod 256) + n mod (256 :: nat)"
proof -
  have eq: "n div 256 div 256 = n div 65536" "n div 65536 div 256 = n div 16777216"
    by (simp_all only: div_mult2_eq [symmetric] numeral_times_numeral semiring_norm)
  have "n = 256 * (n div 256) + n mod 256" by simp
  moreover have "n div 256 = 256 * (n div 65536) + n div 256 mod 256"
    using div_mult_mod_eq [of "n div 256" 256] eq(1) by simp
  moreover have "n div 65536 = 256 * (n div 16777216) + n div 65536 mod 256"
    using div_mult_mod_eq [of "n div 65536" 256] eq(2) by simp
  ultimately show ?thesis by linarith
qed

lemma Uint32_be32 [simp]: "Uint32 (be32 v @ r) = v"
proof -
  have u: "unat v < 2 ^ 32" using unsigned_less [of v] by simp
  then have "unat v div 16777216 < 256" by (simp add: less_mult_imp_div_less)
  then have "16777216 * (of_char (char_of (unat v div 16777216) :: char)) +
      65536 * of_char (char_of (unat v div 65536) :: char) +
      256 * of_char (char_of (unat v div 256) :: char) + of_char (char_of (unat v) :: char) = unat v"
    using base256_digits [of "unat v"] by simp
  then have "Uint32 (be32 v @ r) = of_nat (unat v)"
    unfolding Uint32_def be32_def Let_def
    by (simp only: append_Cons nth_Cons_0 nth_Cons_Suc One_nat_def numeral_2_eq_2 numeral_3_eq_3)
  then show ?thesis by simp
qed

lemma be32_inject [simp]: "be32 v = be32 w \<longleftrightarrow> v = w"
  using Uint32_be32 [of v "[]"] Uint32_be32 [of w "[]"] by (metis append_Nil2)

lemma unat_length: "lp_ok f \<Longrightarrow> unat (of_nat (length f) :: 32 word) = length f"
  by (simp add: unat_of_nat)

lemma readLP_lp:
  assumes "lp_ok f"
  shows "readLP (d @ lp f @ r) (length d) = Some (f, length d + 4 + length f)"
  using unat_length [OF assms] by (simp add: readLP_def)

lemma readLP_bounds: "readLP buf pos = Some (f, q) \<Longrightarrow> pos + 4 + length f = q \<and> q \<le> length buf"
  by (auto simp: readLP_def Let_def split: if_splits)


lemma char_of_low: "char_of (256 * m + of_char c) = (c :: char)" for m :: nat
proof -
  have "(256 * m + of_char c) mod 256 = (of_char c :: nat)" by simp
  then show ?thesis by (metis char_of_char char_of_mod_256)
qed

lemma base256_number:
  fixes a b c d :: nat
  assumes "a < 256" "b < 256" "c < 256" "d < 256"
    and "n = 16777216 * a + 65536 * b + 256 * c + d"
  shows "n < 4294967296" and "n div 16777216 = a" and "n div 65536 = 256 * a + b"
    and "n div 256 = 256 * (256 * a + b) + c" and "n = 256 * (256 * (256 * a + b) + c) + d"
  using assms by simp_all

lemma be32_Uint32:
  assumes "length b = 4"
  shows "be32 (Uint32 b) = b"
proof -
  obtain c d e f where b: "b = [c, d, e, f]"
    using assms by (auto simp: length_Suc_conv numeral_eq_Suc)
  define n where "n = 16777216 * of_char c + 65536 * of_char d + 256 * of_char e + (of_char f :: nat)"
  note digits = base256_number [OF nat_of_char_less_256 nat_of_char_less_256 nat_of_char_less_256
      nat_of_char_less_256 n_def]
  have "Uint32 b = of_nat n"
    unfolding n_def b Uint32_def
    by (simp only: nth_Cons_0 nth_Cons_Suc One_nat_def numeral_2_eq_2 numeral_3_eq_3)
  then have u: "unat (Uint32 b) = n"
    using digits(1) by (simp add: unat_of_nat take_bit_nat_eq_self)
  have "char_of n = f"
    by (subst digits(5)) (rule char_of_low)
  then have "be32 (Uint32 b) = [c, d, e, f]"
    unfolding be32_def u Let_def by (simp only: digits(2-4) char_of_low char_of_char)
  then show ?thesis by (simp only: b)
qed

text \<open>What \<open>readLP\<close> accepts is exactly an encoded field.\<close>

lemma readLP_exact:
  assumes "readLP buf pos = Some (f, q)"
  shows "take q buf = take pos buf @ lp f \<and> lp_ok f \<and> pos \<le> length buf"
proof -
  let ?v = "Uint32 (drop pos buf)"
  have le: "pos + 4 \<le> length buf" and q: "q = pos + 4 + unat ?v" and ql: "q \<le> length buf"
    and f: "f = take (unat ?v) (drop (pos + 4) buf)"
    using assms by (auto simp: readLP_def Let_def split: if_splits)
  have len: "length f = unat ?v" using f q ql by simp
  have "Uint32 (take 4 (drop pos buf)) = ?v"
    using le by (simp add: Uint32_def)
  then have "be32 ?v = take 4 (drop pos buf)"
    using be32_Uint32 [of "take 4 (drop pos buf)"] le by simp
  moreover have "take q buf = take pos buf @ take 4 (drop pos buf) @ f"
    unfolding q f by (simp only: take_add append_assoc)
  ultimately have "take q buf = take pos buf @ lp f"
    using len by simp
  moreover have "lp_ok f" using len unsigned_less [of ?v] by simp
  ultimately show ?thesis using le by simp
qed

interpretation be32: prefix_code be32 "\<lambda>_. True"
  by unfold_locales (simp add: append_eq_append_conv)

interpretation lp: prefix_code "\<lambda>f. lp f" "\<lambda>f. lp_ok f"
proof
  fix a b r s :: go_string
  assume ok: "lp_ok a" "lp_ok b" and "lp a @ r = lp b @ s"
  then have "a = b"
    using readLP_lp [OF ok(1), of "[]" r] readLP_lp [OF ok(2), of "[]" s] by simp
  then show "a = b \<and> r = s" using \<open>lp a @ r = lp b @ s\<close> by simp
qed

end
