(* ===== verification/Delivery.thy ===== *)
theory Delivery
  imports Wire
begin

text \<open>
  \<open>internal/delivery\<close>: the canonical byte encodings that the change token (\<open>Manifest\<close>), the
  conditional cursor (\<open>EncodeCursor\<close>) and the import occurrence token (\<open>EncodeOccurrence\<close>)
  are computed over, and the loader-control acknowledgement rule. The encodings are proved
  to tell apart exactly the states that the package documentation says they must.
\<close>

section \<open>The delivery manifest\<close>

record Row =
  row_Key :: go_string
  row_Classification :: go_string
  row_Value :: go_string

definition ManifestVersion :: go_string where "ManifestVersion = ''v1''"

text \<open>The body of the loop of \<open>Manifest\<close>.\<close>

definition appendRow :: "go_string \<Rightarrow> Row \<Rightarrow> go_string" where
  "appendRow out r =
     appendField (appendField (appendField out (row_Key r)) (row_Classification r)) (row_Value r)"

definition Manifest :: "Row list \<Rightarrow> go_string" where
  "Manifest rows =
     (let sorted = sort_key row_Key rows;
          out = appendField [] ManifestVersion;
          out = AppendUvarint out (length sorted)
      in foldl appendRow out sorted)"

text \<open>What one row adds to the manifest is a prefix code of rows.\<close>

definition row_bytes :: "Row \<Rightarrow> go_string" where
  "row_bytes r = field (row_Key r) @ field (row_Classification r) @ field (row_Value r)"

interpretation row: prefix_code row_bytes "\<lambda>_. True"
proof
  fix a b :: Row and r s
  assume "row_bytes a @ r = row_bytes b @ s"
  then show "a = b \<and> r = s"
    by (simp add: row_bytes_def wire_iffs Row.equality)
qed

lemma foldl_appendRow: "foldl appendRow out rs = out @ concat (map row_bytes rs)"
  by (induction rs arbitrary: out) (simp_all add: appendRow_def appendField_field row_bytes_def)

lemma Manifest_bytes:
  "Manifest rows = field ManifestVersion @ uvarint (length rows) @
     concat (map row_bytes (sort_key row_Key rows))"
  by (simp add: Manifest_def foldl_appendRow appendField_field AppendUvarint_def Let_def)

text \<open>
  C33: for keys that occur once, two deliveries have the same manifest exactly when they
  deliver the same rows, in whatever order the rows were read.
\<close>

theorem Manifest_iff:
  assumes "distinct (map row_Key rows)" and "distinct (map row_Key rows')"
  shows "Manifest rows = Manifest rows' \<longleftrightarrow> mset rows = mset rows'"
proof
  assume "Manifest rows = Manifest rows'"
  then have "sort_key row_Key rows = sort_key row_Key rows' \<and> [] = ([] :: go_string)"
    unfolding Manifest_bytes
    by (intro counted_list_inject [OF row.prefix_code_axioms]) simp
  then show "mset rows = mset rows'" by (metis mset_sort)
next
  assume "mset rows = mset rows'"
  then show "Manifest rows = Manifest rows'"
    using sort_key_unique [OF assms(1)] mset_eq_length [of rows rows'] by (simp add: Manifest_bytes)
qed

theorem Manifest_iff_witness:
  "Manifest [\<lparr>row_Key = ''AB'', row_Classification = ''config'', row_Value = ''c''\<rparr>] \<noteq>
   Manifest [\<lparr>row_Key = ''A'', row_Classification = ''config'', row_Value = ''Bc''\<rparr>]"
  by (subst Manifest_iff) simp_all

section \<open>The conditional cursor\<close>

definition ModeFull :: go_string where "ModeFull = ''full''"
definition ModeConfigOnly :: go_string where "ModeConfigOnly = ''config-only''"

definition NormalizeMode :: "go_string \<Rightarrow> go_string" where
  "NormalizeMode m = (if m = [] then ModeFull else m)"

record Cursor =
  ChangeToken :: go_string
  Projection :: "go_string list"
  AuthorizationRevision :: "64 word"
  PinGeneration :: "64 word"
  cursor_Mode :: go_string
  PinnedHistoricalRevision :: "64 word"

definition CursorVersion :: go_string where "CursorVersion = ''v1''"

definition EncodeCursor :: "Cursor \<Rightarrow> go_string" where
  "EncodeCursor c =
     (let projection = remdups_adj (sort (Projection c));
          out = appendField [] CursorVersion;
          out = appendField out (ChangeToken c);
          out = appendField out (NormalizeMode (cursor_Mode c));
          out = AppendUvarint out (length projection);
          out = foldl appendField out projection;
          out = AppendVarint out (AuthorizationRevision c);
          out = AppendVarint out (PinGeneration c)
      in AppendVarint out (PinnedHistoricalRevision c))"

lemma foldl_appendField: "foldl appendField out xs = out @ concat (map (\<lambda>s. field s) xs)"
  by (induction xs arbitrary: out) (simp_all add: appendField_field)

lemma AppendVarint_bytes: "AppendVarint dst x = dst @ uvarint (unat (zigzag x))"
  by (simp add: AppendVarint_def AppendUvarint_def)

lemma EncodeCursor_bytes:
  "EncodeCursor c =
     field CursorVersion @ field (ChangeToken c) @ field (NormalizeMode (cursor_Mode c)) @
     uvarint (length (remdups_adj (sort (Projection c)))) @
     concat (map (\<lambda>s. field s) (remdups_adj (sort (Projection c)))) @
     uvarint (unat (zigzag (AuthorizationRevision c))) @
     uvarint (unat (zigzag (PinGeneration c))) @
     uvarint (unat (zigzag (PinnedHistoricalRevision c)))"
  by (simp add: EncodeCursor_def foldl_appendField AppendVarint_bytes appendField_field
      AppendUvarint_def Let_def)

text \<open>
  A recomputed cursor equals the presented one exactly when every component of the
  tuple is the same, the projection as a set and the empty mode as \<open>full\<close>.
\<close>

theorem EncodeCursor_iff:
  "EncodeCursor c = EncodeCursor d \<longleftrightarrow>
     ChangeToken c = ChangeToken d \<and>
     set (Projection c) = set (Projection d) \<and>
     AuthorizationRevision c = AuthorizationRevision d \<and>
     PinGeneration c = PinGeneration d \<and>
     NormalizeMode (cursor_Mode c) = NormalizeMode (cursor_Mode d) \<and>
     PinnedHistoricalRevision c = PinnedHistoricalRevision d" (is "_ \<longleftrightarrow> ?same")
proof
  assume eq: "EncodeCursor c = EncodeCursor d"
  let ?p = "\<lambda>c. remdups_adj (sort (Projection c))"
  let ?t = "\<lambda>c. uvarint (unat (zigzag (AuthorizationRevision c))) @
     uvarint (unat (zigzag (PinGeneration c))) @ uvarint (unat (zigzag (PinnedHistoricalRevision c)))"
  have "ChangeToken c = ChangeToken d \<and> NormalizeMode (cursor_Mode c) = NormalizeMode (cursor_Mode d) \<and>
    uvarint (length (?p c)) @ concat (map (\<lambda>s. field s) (?p c)) @ ?t c =
    uvarint (length (?p d)) @ concat (map (\<lambda>s. field s) (?p d)) @ ?t d"
    using eq unfolding EncodeCursor_bytes append_assoc wire_iffs by blast
  moreover from this have "?p c = ?p d \<and> ?t c = ?t d"
    by (intro counted_list_inject [OF field.prefix_code_axioms]) blast
  ultimately show ?same
    by (simp add: wire_iffs Compact_sort_eq_iff)
next
  assume ?same
  then show "EncodeCursor c = EncodeCursor d"
    using Compact_sort_eq_iff [of "Projection c" "Projection d"] by (simp add: EncodeCursor_bytes)
qed

section \<open>Import occurrences\<close>

record Occurrence =
  Declared :: bool
  occ_Name :: go_string
  KeyID :: go_string
  EntryID :: go_string
  occ_Classification :: go_string
  occ_Declaration :: go_string
  IntendedClassification :: go_string
  IntendedType :: go_string

definition OccurrenceVersion :: go_string where "OccurrenceVersion = ''v1''"

definition EncodeOccurrence :: "Occurrence \<Rightarrow> go_string" where
  "EncodeOccurrence oc =
     (let kind = (if Declared oc then ''declared'' else ''undeclared'');
          out = appendField [] OccurrenceVersion;
          out = appendField out kind;
          out = appendField out (occ_Name oc)
      in if \<not> Declared oc then
           appendField (appendField out (IntendedClassification oc)) (IntendedType oc)
         else
           (let out = appendField out (KeyID oc);
                out = appendField out (EntryID oc);
                out = appendField out (occ_Classification oc)
            in appendField out (occ_Declaration oc)))"

text \<open>
  The occurrence bytes agree exactly when the two observations agree on everything
  that is observed in their state: the name and whether it is declared, then the identity,
  entry, classification and declaration of a declared key or the intended declaration of
  an undeclared one.
\<close>

theorem EncodeOccurrence_iff:
  "EncodeOccurrence a = EncodeOccurrence b \<longleftrightarrow>
     Declared a = Declared b \<and> occ_Name a = occ_Name b \<and>
     (if Declared a
      then KeyID a = KeyID b \<and> EntryID a = EntryID b \<and>
           occ_Classification a = occ_Classification b \<and> occ_Declaration a = occ_Declaration b
      else IntendedClassification a = IntendedClassification b \<and> IntendedType a = IntendedType b)"
proof -
  define kind where "kind = (\<lambda>oc :: Occurrence. if Declared oc then ''declared'' else ''undeclared'')"
  have k: "kind a = kind b \<longleftrightarrow> Declared a = Declared b" by (simp add: kind_def)
  have "EncodeOccurrence oc = field OccurrenceVersion @ field (kind oc) @ field (occ_Name oc) @
      (if Declared oc
       then field (KeyID oc) @ field (EntryID oc) @ field (occ_Classification oc) @ field (occ_Declaration oc)
       else field (IntendedClassification oc) @ field (IntendedType oc))" for oc
    by (simp add: EncodeOccurrence_def Let_def appendField_field kind_def)
  then show ?thesis
    by (cases "Declared a"; cases "Declared b") (simp_all only: append_assoc wire_iffs k if_True if_False simp_thms)
qed

section \<open>Loader-control keys\<close>

definition loaderControlPrefixes :: "go_string list" where
  "loaderControlPrefixes = [''LD_'', ''GIT_'']"

definition loaderControlExact :: "go_string list" where
  "loaderControlExact =
     [''PATH'', ''IFS'', ''ENV'', ''BASH_ENV'', ''SHELLOPTS'', ''NODE_OPTIONS'', ''PYTHONSTARTUP'',
      ''PYTHONPATH'', ''PERL5OPT'', ''PERL5LIB'', ''RUBYOPT'', ''RUBYLIB'', ''JAVA_TOOL_OPTIONS'',
      ''_JAVA_OPTIONS'', ''JDK_JAVA_OPTIONS'', ''CLASSPATH'', ''SSL_CERT_FILE'', ''SSL_CERT_DIR'',
      ''CURL_CA_BUNDLE'', ''REQUESTS_CA_BUNDLE'', ''NODE_EXTRA_CA_CERTS'']"

definition IsLoaderControlKey :: "go_string \<Rightarrow> bool" where
  "IsLoaderControlKey name =
     (if name \<in> set loaderControlExact then True
      else list_ex (\<lambda>p. HasPrefix name p) loaderControlPrefixes)"

text \<open>
  The two loops of \<open>Unacknowledged\<close>: each keeps a \<open>seen\<close> set so that a name is reported
  once. The first also collects the mapped loader-control names.
\<close>

fun refusedLoop :: "go_string set \<Rightarrow> go_string set \<Rightarrow> go_string list \<Rightarrow> go_string list" where
  "refusedLoop ackSet seen [] = []"
| "refusedLoop ackSet seen (m # ms) =
     (if \<not> IsLoaderControlKey m then refusedLoop ackSet seen ms
      else if m \<notin> ackSet \<and> m \<notin> seen then m # refusedLoop ackSet (insert m seen) ms
      else refusedLoop ackSet seen ms)"

definition mappedLC :: "go_string list \<Rightarrow> go_string set" where
  "mappedLC mapped = set (filter IsLoaderControlKey mapped)"

fun extraLoop ::
  "go_string set \<Rightarrow> (go_string \<Rightarrow> nat) \<Rightarrow> go_string set \<Rightarrow> go_string list \<Rightarrow> go_string list" where
  "extraLoop lc ackCount seen [] = []"
| "extraLoop lc ackCount seen (a # as) =
     (if (a \<notin> lc \<or> ackCount a > 1) \<and> a \<notin> seen then a # extraLoop lc ackCount (insert a seen) as
      else extraLoop lc ackCount seen as)"

definition MaxAcknowledgedKeys :: nat where "MaxAcknowledgedKeys = 64"

definition Unacknowledged :: "go_string list \<Rightarrow> go_string list \<Rightarrow> go_string list \<times> go_string list" where
  "Unacknowledged mapped acknowledged =
     (sort (refusedLoop (set acknowledged) {} mapped),
      sort (extraLoop (mappedLC mapped) (count_list acknowledged) {} acknowledged))"

lemma set_refusedLoop:
  "set (refusedLoop acks seen ms) = {m \<in> set ms. IsLoaderControlKey m \<and> m \<notin> acks \<and> m \<notin> seen}"
  by (induction ms arbitrary: seen) auto

lemma set_extraLoop:
  "set (extraLoop lc cnt seen as) = {a \<in> set as. (a \<notin> lc \<or> cnt a > 1) \<and> a \<notin> seen}"
  by (induction "as" arbitrary: seen) auto

lemma distinct_count_list: "distinct xs \<longleftrightarrow> (\<forall>x \<in> set xs. \<not> count_list xs x > 1)"
proof (induction xs)
  case (Cons x xs)
  then show ?case
    by (auto simp: count_list_0_iff)
qed simp

text \<open>
  C34: nothing is refused and nothing is superfluous exactly when the acknowledgement lists
  each loader-control key of the mapping once and no other name.
\<close>

theorem Unacknowledged_exact:
  "Unacknowledged mapped acks = ([], []) \<longleftrightarrow>
     distinct acks \<and> set acks = {m \<in> set mapped. IsLoaderControlKey m}"
proof -
  have "Unacknowledged mapped acks = ([], []) \<longleftrightarrow>
      set (refusedLoop (set acks) {} mapped) = {} \<and>
      set (extraLoop (mappedLC mapped) (count_list acks) {} acks) = {}"
    by (simp add: Unacknowledged_def flip: set_empty)
  then show ?thesis
    unfolding set_refusedLoop set_extraLoop mappedLC_def distinct_count_list by auto
qed

end
