(* ===== verification/Envelope.thy ===== *)
theory Envelope
  imports Wire
begin

text \<open>
  \<open>internal/crypto/crypto.go\<close>, \<open>aad.go\<close>, \<open>envelope.go\<close>, the snapshot kind of \<open>client.go\<close> and
  the canonical encoding of \<open>stamp.go\<close>: the versioned ciphertext envelope. XChaCha20-Poly1305
  is a third-party package (\<open>golang.org/x/crypto\<close>), so its operations are the fields of the
  record \<open>cipher\<close> that every operation using it takes as an argument.
\<close>

section \<open>Constants and errors\<close>

type_synonym byte = char

definition KeySize :: nat where "KeySize = 32"
definition NonceSizeX :: nat where "NonceSizeX = 24"

definition KindValue :: byte where "KindValue = CHR 0x01"
definition KindWrappedDEK :: byte where "KindWrappedDEK = CHR 0x02"
definition KindWrappedMaster :: byte where "KindWrappedMaster = CHR 0x03"
definition KindWrappedTokenKey :: byte where "KindWrappedTokenKey = CHR 0x04"
definition KindProjectField :: byte where "KindProjectField = CHR 0x05"
definition KindInstanceField :: byte where "KindInstanceField = CHR 0x06"
definition KindComposeSnapshot :: byte where "KindComposeSnapshot = CHR 0x07"

definition formatV1 :: byte where "formatV1 = CHR 0x01"
definition algXChaCha20Poly1305 :: byte where "algXChaCha20Poly1305 = CHR 0x01"

datatype crypto_error =
  ErrDecrypt | ErrUnknownFormat byte | ErrRandomness | ErrCipher | PanicFieldTooLong

record cipher =
  NewX_ok :: "go_string \<Rightarrow> bool"
  aead_Seal :: "go_string \<Rightarrow> go_string \<Rightarrow> go_string \<Rightarrow> go_string \<Rightarrow> go_string"
  aead_Open :: "go_string \<Rightarrow> go_string \<Rightarrow> go_string \<Rightarrow> go_string \<Rightarrow> go_string option"

text \<open>
  The documented contract of an AEAD: opening what was sealed with the same key, nonce and
  associated data gives the plaintext back. Arguments: key, nonce, text, associated data.
\<close>

definition aead_round_trip :: "cipher \<Rightarrow> bool" where
  "aead_round_trip A \<longleftrightarrow>
     (\<forall>k n p ad. NewX_ok A k \<longrightarrow> length n = NonceSizeX \<longrightarrow> aead_Open A k n (aead_Seal A k n p ad) ad = Some p)"

section \<open>Associated data\<close>

datatype AAD =
  ValueAAD (val_OrgID: go_string) (val_ProjectID: go_string) (val_EnvID: go_string)
    (val_KeyID: go_string) (val_RowID: go_string) (val_FieldTag: go_string)
| WrappedDEKAAD go_string go_string go_string "32 word" "32 word"
| WrappedMasterAAD "32 word" "32 word"
| WrappedTokenKeyAAD "32 word" "32 word"
| ProjectFieldAAD go_string go_string go_string go_string go_string go_string go_string go_string
| InstanceFieldAAD go_string go_string go_string
| rawAAD go_string

fun kind :: "AAD \<Rightarrow> byte" where
  "kind (ValueAAD _ _ _ _ _ _) = KindValue"
| "kind (WrappedDEKAAD _ _ _ _ _) = KindWrappedDEK"
| "kind (WrappedMasterAAD _ _) = KindWrappedMaster"
| "kind (WrappedTokenKeyAAD _ _) = KindWrappedTokenKey"
| "kind (ProjectFieldAAD _ _ _ _ _ _ _ _) = KindProjectField"
| "kind (InstanceFieldAAD _ _ _) = KindInstanceField"
| "kind (rawAAD _) = KindComposeSnapshot"

fun aad_fields :: "AAD \<Rightarrow> go_string list" where
  "aad_fields (ValueAAD org proj env key row tag) = [org, proj, env, key, row, tag]"
| "aad_fields (WrappedDEKAAD org proj dek v mv) = [org, proj, dek, be32 v, be32 mv]"
| "aad_fields (WrappedMasterAAD mv epoch) = [be32 mv, be32 epoch]"
| "aad_fields (WrappedTokenKeyAAD tv mv) = [be32 tv, be32 mv]"
| "aad_fields (ProjectFieldAAD org proj tbl row tag env key snap) =
     (if env = [] \<and> key = [] \<and> snap = [] then [org, proj, tbl, row, tag]
      else [org, proj, tbl, row, tag] @ [env, key, snap])"
| "aad_fields (InstanceFieldAAD tbl row tag) = [tbl, row, tag]"
| "aad_fields (rawAAD r) = [r]"

text \<open>A sequence of \<open>appendLP\<close> calls; \<open>None\<close> when one of them panics.\<close>

fun appendLPs :: "go_string \<Rightarrow> go_string list \<Rightarrow> go_string option" where
  "appendLPs out [] = Some out"
| "appendLPs out (f # fs) = (case appendLP out f of None \<Rightarrow> None | Some out' \<Rightarrow> appendLPs out' fs)"

definition appendAAD :: "go_string \<Rightarrow> AAD \<Rightarrow> go_string option" where
  "appendAAD header a = appendLPs header (aad_fields a)"

section \<open>The header\<close>

record header =
  h_format :: byte
  h_kind :: byte
  h_alg :: byte
  h_keyID :: go_string
  h_keyVersion :: "32 word"
  h_nonce :: go_string

definition appendHeader :: "go_string \<Rightarrow> header \<Rightarrow> go_string option" where
  "appendHeader dst h =
     (case appendLP (dst @ [h_format h, h_kind h, h_alg h]) (h_keyID h) of
        None \<Rightarrow> None
      | Some dst \<Rightarrow> appendLP (dst @ be32 (h_keyVersion h)) (h_nonce h))"

definition parseHeader :: "go_string \<Rightarrow> crypto_error + header \<times> nat" where
  "parseHeader rec =
     (if length rec < 3 then Inl ErrDecrypt
      else if rec ! 0 \<noteq> formatV1 then Inl (ErrUnknownFormat (rec ! 0))
      else (case readLP rec 3 of None \<Rightarrow> Inl ErrDecrypt
        | Some (keyID, pos) \<Rightarrow>
            (if pos + 4 > length rec then Inl ErrDecrypt
             else (case readLP rec (pos + 4) of None \<Rightarrow> Inl ErrDecrypt
               | Some (nonce, pos') \<Rightarrow>
                   Inr (\<lparr>h_format = rec ! 0, h_kind = rec ! 1, h_alg = rec ! 2, h_keyID = keyID,
                         h_keyVersion = Uint32 (drop pos rec), h_nonce = nonce\<rparr>, pos')))))"

definition RecordKeyVersion :: "go_string \<Rightarrow> crypto_error + 32 word" where
  "RecordKeyVersion rec =
     (case parseHeader rec of Inl e \<Rightarrow> Inl e | Inr (h, _) \<Rightarrow> Inr (h_keyVersion h))"

section \<open>Sealing and opening\<close>

text \<open>
  \<open>rnd\<close> is the byte sequence the randomness source still delivers; \<open>io.ReadFull\<close> fails when
  it has fewer bytes than the nonce needs. The result carries the rest of the source.
\<close>

definition seal ::
  "cipher \<Rightarrow> go_string \<Rightarrow> go_string \<Rightarrow> go_string \<Rightarrow> 32 word \<Rightarrow> AAD \<Rightarrow> go_string
     \<Rightarrow> crypto_error + go_string \<times> go_string" where
  "seal A rnd key keyID keyVersion a plaintext =
     (if length rnd < NonceSizeX then Inl ErrRandomness
      else (let nonce = take NonceSizeX rnd in
        if \<not> NewX_ok A key then Inl ErrCipher
        else (case appendHeader [] \<lparr>h_format = formatV1, h_kind = kind a, h_alg = algXChaCha20Poly1305,
                     h_keyID = keyID, h_keyVersion = keyVersion, h_nonce = nonce\<rparr> of
                None \<Rightarrow> Inl PanicFieldTooLong
              | Some rec \<Rightarrow> (case appendAAD rec a of
                  None \<Rightarrow> Inl PanicFieldTooLong
                | Some aad \<Rightarrow> Inr (rec @ aead_Seal A key nonce plaintext aad, drop NonceSizeX rnd)))))"

definition open_rec ::
  "cipher \<Rightarrow> go_string \<Rightarrow> go_string \<Rightarrow> 32 word \<Rightarrow> AAD \<Rightarrow> go_string \<Rightarrow> crypto_error + go_string" where
  "open_rec A key keyID keyVersion a rec =
     (case parseHeader rec of Inl e \<Rightarrow> Inl e
      | Inr (h, n) \<Rightarrow>
          (if h_kind h \<noteq> kind a \<or> h_alg h \<noteq> algXChaCha20Poly1305 \<or> h_keyID h \<noteq> keyID \<or>
              h_keyVersion h \<noteq> keyVersion \<or> length (h_nonce h) \<noteq> NonceSizeX
           then Inl ErrDecrypt
           else if \<not> NewX_ok A key then Inl ErrCipher
           else (case appendAAD (take n rec) a of
               None \<Rightarrow> Inl PanicFieldTooLong
             | Some aad \<Rightarrow>
                 (case aead_Open A key (h_nonce h) (drop n rec) aad of
                    None \<Rightarrow> Inl ErrDecrypt | Some pt \<Rightarrow> Inr pt))))"

section \<open>The encodings are injective\<close>

lemma appendLP_Some: "appendLP dst f = Some out \<longleftrightarrow> lp_ok f \<and> out = dst @ lp f"
  by (auto simp: appendLP_def)

lemma appendLP_None: "appendLP dst f = None \<longleftrightarrow> \<not> lp_ok f"
  by (auto simp: appendLP_def)

lemma appendLPs_Some:
  "appendLPs dst fs = Some out \<longleftrightarrow> list_all lp_ok fs \<and> out = dst @ concat (map (\<lambda>f. lp f) fs)"
  by (induction fs arbitrary: dst) (auto simp: appendLP_Some appendLP_None split: option.splits)

definition header_bytes :: "header \<Rightarrow> go_string" where
  "header_bytes h = [h_format h, h_kind h, h_alg h] @ lp (h_keyID h) @ be32 (h_keyVersion h) @ lp (h_nonce h)"

definition header_ok :: "header \<Rightarrow> bool" where
  "header_ok h \<longleftrightarrow> lp_ok (h_keyID h) \<and> lp_ok (h_nonce h)"

lemma appendHeader_Some:
  "appendHeader dst h = Some out \<longleftrightarrow> header_ok h \<and> out = dst @ header_bytes h"
  by (auto simp: appendHeader_def header_bytes_def header_ok_def appendLP_Some appendLP_None
      split: option.splits)

interpretation hdr: prefix_code header_bytes header_ok
proof
  fix a b :: header and r s
  assume ok: "header_ok a" "header_ok b" and "header_bytes a @ r = header_bytes b @ s"
  then have e: "h_format a = h_format b" "h_kind a = h_kind b" "h_alg a = h_alg b"
    and "lp (h_keyID a) @ be32 (h_keyVersion a) @ lp (h_nonce a) @ r =
         lp (h_keyID b) @ be32 (h_keyVersion b) @ lp (h_nonce b) @ s"
    by (simp_all add: header_bytes_def)
  then have k: "h_keyID a = h_keyID b \<and> be32 (h_keyVersion a) @ lp (h_nonce a) @ r =
      be32 (h_keyVersion b) @ lp (h_nonce b) @ s"
    using ok by (intro lp.prefix_free) (simp_all add: header_ok_def)
  then have v: "h_keyVersion a = h_keyVersion b \<and> lp (h_nonce a) @ r = lp (h_nonce b) @ s"
    by (intro be32.prefix_free) simp_all
  then have "h_nonce a = h_nonce b \<and> r = s"
    using ok by (intro lp.prefix_free) (simp_all add: header_ok_def)
  with e k v show "a = b \<and> r = s" by (simp add: header.equality)
qed

lemma fields_inject:
  assumes "kind a = kind b" and "aad_fields a = aad_fields b"
  shows "a = b"
  using assms
  by (cases a; cases b)
    (simp_all add: KindValue_def KindWrappedDEK_def KindWrappedMaster_def KindWrappedTokenKey_def
      KindProjectField_def KindInstanceField_def KindComposeSnapshot_def split: if_splits)

lemma appendAAD_injective:
  assumes "appendHeader [] h = Some hb" and "appendAAD hb a = Some ad" and "h_kind h = kind a"
    and "appendHeader [] h' = Some hb'" and "appendAAD hb' a' = Some ad" and "h_kind h' = kind a'"
  shows "h = h' \<and> a = a'"
proof -
  have ok: "header_ok h" "header_ok h'" and lpok: "list_all lp_ok (aad_fields a)" "list_all lp_ok (aad_fields a')"
    and eq: "header_bytes h @ concat (map (\<lambda>f. lp f) (aad_fields a)) =
             header_bytes h' @ concat (map (\<lambda>f. lp f) (aad_fields a'))"
    using assms by (auto simp: appendHeader_Some appendAAD_def appendLPs_Some)
  from hdr.prefix_free [OF ok eq] have h: "h = h'"
    and "concat (map (\<lambda>f. lp f) (aad_fields a)) = concat (map (\<lambda>f. lp f) (aad_fields a'))" by auto
  moreover have "\<forall>f. lp f \<noteq> []" by (metis append_is_Nil_conv length_0_conv length_be32 zero_neq_numeral)
  ultimately have "aad_fields a = aad_fields a'"
    using lp.enc_list_inject lpok by blast
  with h assms(3,6) show ?thesis by (auto intro: fields_inject)
qed

text \<open>
  C35: the associated data of a record determines both its header and its row context, so no
  two different contexts ever present the same bytes to the cipher.
\<close>

theorem appendAAD_inject:
  assumes "appendHeader [] h = Some hb" and "appendAAD hb a = Some ad" and "h_kind h = kind a"
    and "appendHeader [] h' = Some hb'" and "appendAAD hb' a' = Some ad" and "h_kind h' = kind a'"
  shows "h = h' \<and> a = a'"
  using assms by (rule appendAAD_injective)

theorem appendAAD_inject_witness:
  "\<exists>hb ad. appendHeader [] \<lparr>h_format = formatV1, h_kind = KindInstanceField, h_alg = algXChaCha20Poly1305,
        h_keyID = ''k'', h_keyVersion = 1, h_nonce = ''n''\<rparr> = Some hb \<and>
     appendAAD hb (InstanceFieldAAD ''t'' ''r'' ''f'') = Some ad \<and>
     appendAAD hb (InstanceFieldAAD ''tr'' '''' ''f'') \<noteq> Some ad"
proof -
  let ?h = "\<lparr>h_format = formatV1, h_kind = KindInstanceField, h_alg = algXChaCha20Poly1305,
        h_keyID = ''k'', h_keyVersion = 1, h_nonce = ''n''\<rparr>"
  obtain hb where hb: "appendHeader [] ?h = Some hb"
    by (simp add: appendHeader_Some header_ok_def)
  obtain ad where ad: "appendAAD hb (InstanceFieldAAD ''t'' ''r'' ''f'') = Some ad"
    by (simp add: appendAAD_def appendLP_def)
  show ?thesis
    using hb ad appendAAD_inject [OF hb ad _ hb, of "InstanceFieldAAD ''tr'' '''' ''f''"] by auto
qed

section \<open>Round trips\<close>

text \<open>Parsing a written header gives the header back and stops exactly at its end.\<close>

lemma header_round:
  assumes "appendHeader [] h = Some hb" and "h_format h = formatV1"
  shows "parseHeader (hb @ rest) = Inr (h, length hb)"
proof -
  let ?p = "[h_format h, h_kind h, h_alg h]"
  have ok: "lp_ok (h_keyID h)" "lp_ok (h_nonce h)" and hb: "hb = header_bytes h"
    using assms(1) by (auto simp: appendHeader_Some header_ok_def)
  let ?q = "?p @ lp (h_keyID h) @ be32 (h_keyVersion h)"
  have "readLP (hb @ rest) 3 = Some (h_keyID h, 7 + length (h_keyID h))"
    using readLP_lp [OF ok(1), of ?p "be32 (h_keyVersion h) @ lp (h_nonce h) @ rest"]
    by (simp add: hb header_bytes_def numeral_3_eq_3)
  moreover have "readLP (hb @ rest) (11 + length (h_keyID h)) = Some (h_nonce h, length hb)"
    using readLP_lp [OF ok(2), of ?q rest] by (simp add: hb header_bytes_def add.commute)
  moreover have "Uint32 (drop (7 + length (h_keyID h)) (hb @ rest)) = h_keyVersion h"
  proof -
    have "hb @ rest = (?p @ lp (h_keyID h)) @ be32 (h_keyVersion h) @ lp (h_nonce h) @ rest"
      by (simp add: hb header_bytes_def)
    moreover have "length (?p @ lp (h_keyID h)) = 7 + length (h_keyID h)" by simp
    ultimately have "drop (7 + length (h_keyID h)) (hb @ rest) = be32 (h_keyVersion h) @ lp (h_nonce h) @ rest"
      by (metis append_eq_conv_conj)
    then show ?thesis by simp
  qed
  moreover have "length hb = 15 + length (h_keyID h) + length (h_nonce h)"
    by (simp add: hb header_bytes_def)
  ultimately show ?thesis
    using assms(2) by (simp add: parseHeader_def hb header_bytes_def add.commute)
qed

text \<open>Conversely, an accepted record starts with the bytes of the header that was parsed.\<close>

lemma parseHeader_exact:
  assumes "parseHeader rec = Inr (h, n)"
  shows "appendHeader [] h = Some (take n rec) \<and> h_format h = formatV1 \<and> n \<le> length rec"
proof -
  obtain keyID pos nonce where len: "3 \<le> length rec" and k: "readLP rec 3 = Some (keyID, pos)"
    and pos: "pos + 4 \<le> length rec" and n: "readLP rec (pos + 4) = Some (nonce, n)"
    and h: "h = \<lparr>h_format = rec ! 0, h_kind = rec ! 1, h_alg = rec ! 2, h_keyID = keyID,
                 h_keyVersion = Uint32 (drop pos rec), h_nonce = nonce\<rparr>" and "rec ! 0 = formatV1"
    using assms by (auto simp: parseHeader_def split: if_splits option.splits)
  have "take 3 rec = [rec ! 0, rec ! 1, rec ! 2]"
    using len by (cases rec; simp; cases "tl rec"; simp; cases "tl (tl rec)"; simp)
  moreover have "Uint32 (take 4 (drop pos rec)) = Uint32 (drop pos rec)"
    using pos by (simp add: Uint32_def)
  then have "take (pos + 4) rec = take pos rec @ be32 (Uint32 (drop pos rec))"
    using be32_Uint32 [of "take 4 (drop pos rec)"] pos by (simp add: take_add)
  ultimately have "take n rec = header_bytes h" "header_ok h"
    using readLP_exact [OF k] readLP_exact [OF n] h by (simp_all add: header_bytes_def header_ok_def)
  then show ?thesis
    using readLP_bounds [OF n] h \<open>rec ! 0 = formatV1\<close> by (simp add: appendHeader_Some)
qed

text \<open>
  C36: the parser accepts exactly the headers that \<open>appendHeader\<close> writes in the current format,
  and consumes exactly their bytes.
\<close>

theorem parseHeader_iff:
  "parseHeader rec = Inr (h, n) \<longleftrightarrow>
     h_format h = formatV1 \<and> n \<le> length rec \<and> appendHeader [] h = Some (take n rec)"
proof
  assume "parseHeader rec = Inr (h, n)"
  then show "h_format h = formatV1 \<and> n \<le> length rec \<and> appendHeader [] h = Some (take n rec)"
    using parseHeader_exact by blast
next
  assume "h_format h = formatV1 \<and> n \<le> length rec \<and> appendHeader [] h = Some (take n rec)"
  then show "parseHeader rec = Inr (h, n)"
    using header_round [of h "take n rec" "drop n rec"] by simp
qed

text \<open>C37: what was sealed for a context opens in that context to the sealed plaintext.\<close>

theorem open_seal:
  assumes "aead_round_trip A" and "seal A rnd key keyID v a pt = Inr (rec, rest)"
  shows "open_rec A key keyID v a rec = Inr pt"
proof -
  let ?n = "take NonceSizeX rnd"
  let ?h = "\<lparr>h_format = formatV1, h_kind = kind a, h_alg = algXChaCha20Poly1305,
             h_keyID = keyID, h_keyVersion = v, h_nonce = ?n\<rparr>"
  obtain hb ad where hb: "appendHeader [] ?h = Some hb" and ad: "appendAAD hb a = Some ad"
    and rec: "rec = hb @ aead_Seal A key ?n pt ad" and key: "NewX_ok A key"
    and len: "length ?n = NonceSizeX"
    using assms(2) by (auto simp: seal_def Let_def split: if_splits option.splits)
  have "parseHeader rec = Inr (?h, length hb)"
    unfolding rec by (rule header_round [OF hb]) simp
  then show ?thesis
    using ad rec key len assms(1) by (simp add: open_rec_def aead_round_trip_def)
qed

text \<open>A cipher that satisfies the contract: the ciphertext is the plaintext.\<close>

definition plain_cipher :: cipher where
  "plain_cipher = \<lparr>NewX_ok = (\<lambda>k. length k = KeySize), aead_Seal = (\<lambda>k n p ad. p),
     aead_Open = (\<lambda>k n c ad. Some c)\<rparr>"

lemma plain_cipher_round_trip: "aead_round_trip plain_cipher"
  by (simp add: aead_round_trip_def plain_cipher_def)

theorem open_seal_witness:
  "\<exists>rec rest. seal plain_cipher (replicate 24 CHR ''n'') (replicate 32 CHR ''k'') ''master'' 1
       (WrappedTokenKeyAAD 1 1) ''secret'' = Inr (rec, rest) \<and>
     open_rec plain_cipher (replicate 32 CHR ''k'') ''master'' 1 (WrappedTokenKeyAAD 1 1) rec = Inr ''secret''"
proof -
  let ?h = "\<lparr>h_format = formatV1, h_kind = KindWrappedTokenKey, h_alg = algXChaCha20Poly1305,
        h_keyID = ''master'', h_keyVersion = 1, h_nonce = replicate 24 CHR ''n''\<rparr>"
  obtain hb where hb: "appendHeader [] ?h = Some hb"
    by (simp add: appendHeader_Some header_ok_def)
  obtain ad where ad: "appendAAD hb (WrappedTokenKeyAAD 1 1) = Some ad"
    by (simp add: appendAAD_def appendLP_def)
  have "take 24 (replicate 24 CHR ''n'') = replicate 24 CHR ''n''"
    by (simp only: take_replicate min.idem)
  with hb ad have "\<exists>rec rest. seal plain_cipher (replicate 24 CHR ''n'') (replicate 32 CHR ''k'') ''master'' 1
       (WrappedTokenKeyAAD 1 1) ''secret'' = Inr (rec, rest)"
    by (simp add: seal_def plain_cipher_def KeySize_def NonceSizeX_def)
  then show ?thesis using open_seal [OF plain_cipher_round_trip] by blast
qed

section \<open>Records open only where they were sealed\<close>











end
