(* ===== verification/Go_Hash.thy ===== *)
theory Go_Hash
  imports Go_Prelude
begin

text \<open>
  The parts of Go's standard library that turn bytes into tags: \<open>crypto/sha256\<close>,
  \<open>crypto/hmac\<close>, \<open>crypto/hkdf\<close> (with SHA-256), \<open>hash/crc32\<close> (IEEE), \<open>encoding/hex\<close> and the
  unpadded URL alphabet of \<open>encoding/base64\<close>.
\<close>

unbundle bit_operations_syntax

section \<open>SHA-256\<close>

definition sha_K :: "32 word list" where
  "sha_K = [
     1116352408, 1899447441, 3049323471, 3921009573, 961987163, 1508970993, 2453635748, 2870763221,
     3624381080, 310598401, 607225278, 1426881987, 1925078388, 2162078206, 2614888103, 3248222580,
     3835390401, 4022224774, 264347078, 604807628, 770255983, 1249150122, 1555081692, 1996064986,
     2554220882, 2821834349, 2952996808, 3210313671, 3336571891, 3584528711, 113926993, 338241895,
     666307205, 773529912, 1294757372, 1396182291, 1695183700, 1986661051, 2177026350, 2456956037,
     2730485921, 2820302411, 3259730800, 3345764771, 3516065817, 3600352804, 4094571909, 275423344,
     430227734, 506948616, 659060556, 883997877, 958139571, 1322822218, 1537002063, 1747873779,
     1955562222, 2024104815, 2227730452, 2361852424, 2428436474, 2756734187, 3204031479, 3329325298]"

type_synonym sha_state = "32 word \<times> 32 word \<times> 32 word \<times> 32 word \<times> 32 word \<times> 32 word \<times> 32 word \<times> 32 word"

definition sha_H0 :: sha_state where
  "sha_H0 = (1779033703, 3144134277, 1013904242, 2773480762, 1359893119, 2600822924, 528734635, 1541459225)"

text \<open>Big-endian bytes of a number, and 32-bit words read from four bytes.\<close>

definition be_bytes :: "nat \<Rightarrow> nat \<Rightarrow> go_string" where
  "be_bytes k n = map (\<lambda>i. char_of (n div 256 ^ i)) (rev [0..<k])"

fun be_words :: "go_string \<Rightarrow> 32 word list" where
  "be_words (a # b # c # d # r) =
     of_nat (16777216 * of_char a + 65536 * of_char b + 256 * of_char c + of_char d) # be_words r"
| "be_words _ = []"

definition sha_pad :: "go_string \<Rightarrow> go_string" where
  "sha_pad m =
     m @ [CHR 0x80] @ replicate ((119 - length m mod 64) mod 64) chr_nul @ be_bytes 8 (8 * length m)"

definition small_sigma0 :: "32 word \<Rightarrow> 32 word" where
  "small_sigma0 x = word_rotr 7 x XOR word_rotr 18 x XOR drop_bit 3 x"

definition small_sigma1 :: "32 word \<Rightarrow> 32 word" where
  "small_sigma1 x = word_rotr 17 x XOR word_rotr 19 x XOR drop_bit 10 x"

text \<open>The message schedule, newest word first.\<close>

fun sha_schedule :: "nat \<Rightarrow> 32 word list \<Rightarrow> 32 word list" where
  "sha_schedule 0 ws = ws"
| "sha_schedule (Suc n) ws =
     sha_schedule n ((small_sigma1 (ws ! 1) + ws ! 6 + small_sigma0 (ws ! 14) + ws ! 15) # ws)"

fun sha_round :: "sha_state \<Rightarrow> 32 word \<times> 32 word \<Rightarrow> sha_state" where
  "sha_round (a, b, c, d, e, f, g, h) (k, w) =
     (let s1 = word_rotr 6 e XOR word_rotr 11 e XOR word_rotr 25 e;
          ch = (e AND f) XOR (NOT e AND g);
          t1 = h + s1 + ch + k + w;
          s0 = word_rotr 2 a XOR word_rotr 13 a XOR word_rotr 22 a;
          maj = (a AND b) XOR (a AND c) XOR (b AND c);
          t2 = s0 + maj
      in (t1 + t2, a, b, c, d + t1, e, f, g))"

fun sha_add :: "sha_state \<Rightarrow> sha_state \<Rightarrow> sha_state" where
  "sha_add (a, b, c, d, e, f, g, h) (a', b', c', d', e', f', g', h') =
     (a + a', b + b', c + c', d + d', e + e', f + f', g + g', h + h')"

definition sha_block :: "sha_state \<Rightarrow> 32 word list \<Rightarrow> sha_state" where
  "sha_block st ws =
     sha_add st (foldl sha_round st (zip sha_K (rev (sha_schedule 48 (rev ws)))))"

fun sha_blocks :: "nat \<Rightarrow> sha_state \<Rightarrow> 32 word list \<Rightarrow> sha_state" where
  "sha_blocks 0 st ws = st"
| "sha_blocks (Suc n) st ws = sha_blocks n (sha_block st (take 16 ws)) (drop 16 ws)"

fun sha_state_bytes :: "sha_state \<Rightarrow> go_string" where
  "sha_state_bytes (a, b, c, d, e, f, g, h) =
     concat (map (\<lambda>w. be_bytes 4 (unat w)) [a, b, c, d, e, f, g, h])"

definition Sum256 :: "go_string \<Rightarrow> go_string" where
  "Sum256 m = (let ws = be_words (sha_pad m) in sha_state_bytes (sha_blocks (length ws div 16) sha_H0 ws))"

section \<open>HMAC and HKDF\<close>

definition xor_bytes :: "go_string \<Rightarrow> char \<Rightarrow> go_string" where
  "xor_bytes s p = map (\<lambda>c. char_of ((of_char c :: nat) XOR of_char p)) s"

definition hmac256 :: "go_string \<Rightarrow> go_string \<Rightarrow> go_string" where
  "hmac256 key msg =
     (let k = (if length key > 64 then Sum256 key else key);
          k = k @ replicate (64 - length k) chr_nul
      in Sum256 (xor_bytes k (CHR 0x5C) @ Sum256 (xor_bytes k (CHR 0x36) @ msg)))"

text \<open>
  \<open>hkdf.Key\<close> with no salt, for at most 32 bytes of output: one block of the expansion is enough.
\<close>

definition hkdf_Key32 :: "go_string \<Rightarrow> go_string \<Rightarrow> go_string" where
  "hkdf_Key32 secret info =
     (let prk = hmac256 (replicate 32 chr_nul) secret in hmac256 prk (info @ [CHR 0x01]))"

section \<open>CRC-32\<close>

definition crc_bit :: "32 word \<Rightarrow> 32 word" where
  "crc_bit c = (if bit c 0 then drop_bit 1 c XOR 0xEDB88320 else drop_bit 1 c)"

definition crc_byte :: "32 word \<Rightarrow> char \<Rightarrow> 32 word" where
  "crc_byte c b = (crc_bit ^^ 8) (c XOR of_nat (of_char b))"

definition ChecksumIEEE :: "go_string \<Rightarrow> 32 word" where
  "ChecksumIEEE s = NOT (foldl crc_byte (NOT 0) s)"

section \<open>Hexadecimal and base 64\<close>

definition hex_digits :: go_string where "hex_digits = ''0123456789abcdef''"

definition hex_EncodeToString :: "go_string \<Rightarrow> go_string" where
  "hex_EncodeToString s =
     concat (map (\<lambda>c. [hex_digits ! (of_char c div 16), hex_digits ! (of_char c mod 16)]) s)"

definition base64url :: go_string where
  "base64url = ''ABCDEFGHIJKLMNOPQRSTUVWXYZabcdefghijklmnopqrstuvwxyz0123456789-_''"

fun base64_RawURL :: "go_string \<Rightarrow> go_string" where
  "base64_RawURL [] = []"
| "base64_RawURL [a] =
     (let n = of_char a * 16 in [base64url ! (n div 64), base64url ! (n mod 64)])"
| "base64_RawURL [a, b] =
     (let n = (of_char a * 256 + of_char b) * 4 in
      [base64url ! (n div 4096), base64url ! (n div 64 mod 64), base64url ! (n mod 64)])"
| "base64_RawURL (a # b # c # r) =
     (let n = of_char a * 65536 + of_char b * 256 + of_char c in
      [base64url ! (n div 262144), base64url ! (n div 4096 mod 64), base64url ! (n div 64 mod 64),
       base64url ! (n mod 64)]) @ base64_RawURL r"

lemma length_be_bytes [simp]: "length (be_bytes k n) = k"
  by (simp add: be_bytes_def)

lemma length_Sum256 [simp]: "length (Sum256 m) = 32"
proof -
  have "length (sha_state_bytes st) = 32" for st
    by (cases st rule: sha_state_bytes.cases) simp
  then show ?thesis by (simp add: Sum256_def Let_def)
qed

lemma length_hmac256 [simp]: "length (hmac256 k m) = 32"
  by (simp add: hmac256_def Let_def)

lemma length_hkdf_Key32 [simp]: "length (hkdf_Key32 k i) = 32"
  by (simp add: hkdf_Key32_def Let_def)

lemma length_hex [simp]: "length (hex_EncodeToString s) = 2 * length s"
  by (induction s) (simp_all add: hex_EncodeToString_def)

lemma length_hex_digits [simp]: "length hex_digits = 16"
  by (simp add: hex_digits_def)

lemma set_hex: "set (hex_EncodeToString s) \<subseteq> set hex_digits"
proof -
  have "of_char c div 16 < (16 :: nat)" for c :: char
    using nat_of_char_less_256 [of c] by (simp add: less_mult_imp_div_less)
  then show ?thesis
    by (auto simp: hex_EncodeToString_def)
qed

lemma hex_digits_inj: "i < 16 \<Longrightarrow> j < 16 \<Longrightarrow> hex_digits ! i = hex_digits ! j \<longleftrightarrow> i = j"
  by (rule nth_eq_iff_index_eq) (simp_all add: hex_digits_def)

lemma hex_inj: "hex_EncodeToString s = hex_EncodeToString t \<longleftrightarrow> s = t"
proof (induction s arbitrary: t)
  case Nil
  show ?case by (cases t) (simp_all add: hex_EncodeToString_def)
next
  case (Cons c s)
  have digits: "hex_digits ! (of_char c div 16) = hex_digits ! (of_char d div 16) \<and>
      hex_digits ! (of_char c mod 16) = hex_digits ! (of_char d mod 16) \<longleftrightarrow> c = d" for d
  proof -
    have "(of_char x :: nat) div 16 < 16" for x :: char
      using nat_of_char_less_256 [of x] by (simp add: less_mult_imp_div_less)
    then have "?thesis \<longleftrightarrow> ((of_char c :: nat) div 16 = of_char d div 16 \<and>
        (of_char c :: nat) mod 16 = of_char d mod 16 \<longleftrightarrow> c = d)"
      by (simp add: hex_digits_inj)
    also have "\<dots>" by (metis div_mult_mod_eq of_char_eq_iff)
    finally show ?thesis by simp
  qed
  show ?case
  proof (cases t)
    case (Cons d t')
    then show ?thesis
      using Cons.IH [of t'] digits [of d] by (auto simp: hex_EncodeToString_def)
  qed (simp add: hex_EncodeToString_def)
qed

end
