(* ===== verification/Bearer.thy ===== *)
theory Bearer
  imports Go_Hash
begin

text \<open>
  \<open>internal/crypto/bearer.go\<close>: the grammar of bearer artifacts
  \<open>hik_<version>_<type>_<body><checksum>\<close>, with the base-62 rendering of the random body and
  the CRC-32 suffix. The accepted set is proved to be exactly the emittable set.
\<close>

section \<open>Positional numbers\<close>

text \<open>
  \<open>math/big\<close>'s \<open>Int\<close> restricted to what the file uses: the value of big-endian bytes
  (\<open>SetBytes\<close>), the minimal big-endian bytes of a value (\<open>Bytes\<close>), and division by a radix.
\<close>

fun lsd :: "nat \<Rightarrow> nat \<Rightarrow> nat list" where
  "lsd b n = (if n = 0 \<or> b < 2 then [] else n mod b # lsd b (n div b))"

declare lsd.simps [simp del]

definition horner :: "nat \<Rightarrow> nat list \<Rightarrow> nat" where
  "horner b ds = foldl (\<lambda>n d. n * b + d) 0 ds"

lemma lsd_0 [simp]: "lsd b 0 = []"
  by (simp add: lsd.simps)

lemma lsd_step: "1 < b \<Longrightarrow> 0 < n \<Longrightarrow> lsd b n = n mod b # lsd b (n div b)"
  by (subst lsd.simps) simp

lemma horner_Nil [simp]: "horner b [] = 0"
  by (simp add: horner_def)

lemma horner_snoc [simp]: "horner b (ds @ [d]) = horner b ds * b + d"
  by (simp add: horner_def)

lemma horner_lsd: "1 < b \<Longrightarrow> horner b (rev (lsd b n)) = n"
proof (induction n rule: less_induct)
  case (less n)
  show ?case
  proof (cases "n = 0")
    case False
    then have "horner b (rev (lsd b (n div b))) = n div b"
      using less by simp
    with False less.prems show ?thesis by (simp add: lsd_step)
  qed simp
qed

lemma lsd_digits: "1 < b \<Longrightarrow> d \<in> set (lsd b n) \<Longrightarrow> d < b"
proof (induction n rule: less_induct)
  case (less n)
  show ?case
  proof (cases "n = 0")
    case False
    with less.prems have "d = n mod b \<or> d \<in> set (lsd b (n div b))" by (simp add: lsd_step)
    moreover have "n div b < n" using False less.prems by simp
    ultimately show ?thesis using less.IH [of "n div b"] less.prems by auto
  qed (use less.prems in simp)
qed

lemma lsd_last: "1 < b \<Longrightarrow> 0 < n \<Longrightarrow> lsd b n \<noteq> [] \<and> last (lsd b n) \<noteq> 0"
proof (induction n rule: less_induct)
  case (less n)
  show ?case
  proof (cases "n div b = 0")
    case True
    then have "n < b" using less.prems by (simp add: div_eq_0_iff)
    with less.prems True show ?thesis by (simp add: lsd_step)
  next
    case False
    with less.IH [of "n div b"] less.prems show ?thesis by (simp add: lsd_step)
  qed
qed

text \<open>Digits with no leading zero are the digits of their value.\<close>

lemma lsd_horner:
  assumes "1 < b" and "\<forall>d \<in> set ds. d < b" and "ds \<noteq> [] \<longrightarrow> hd ds \<noteq> 0"
  shows "rev (lsd b (horner b ds)) = ds"
  using assms(2,3)
proof (induction ds rule: rev_induct)
  case (snoc d ds)
  then have d: "d < b" and IH: "rev (lsd b (horner b ds)) = ds"
    by (auto simp: hd_append split: if_splits)
  have pos: "0 < horner b ds * b + d"
  proof (cases "ds = []")
    case True
    with snoc.prems show ?thesis by simp
  next
    case False
    have "horner b ds \<noteq> 0"
    proof
      assume "horner b ds = 0"
      with IH have "ds = []" by simp
      with False show False ..
    qed
    with assms(1) show ?thesis by simp
  qed
  have "(horner b ds * b + d) mod b = d" "(horner b ds * b + d) div b = horner b ds"
    using d by simp_all
  with pos IH assms(1) show ?case by (simp add: lsd_step)
qed simp

section \<open>Base 62\<close>

definition SetBytes :: "go_string \<Rightarrow> nat" where
  "SetBytes b = horner 256 (map of_char b)"

definition Bytes :: "nat \<Rightarrow> go_string" where
  "Bytes n = map char_of (rev (lsd 256 n))"

definition base62Alphabet :: go_string where
  "base62Alphabet = ''0123456789ABCDEFGHIJKLMNOPQRSTUVWXYZabcdefghijklmnopqrstuvwxyz''"

fun IndexByte :: "go_string \<Rightarrow> char \<Rightarrow> nat option" where
  "IndexByte [] c = None"
| "IndexByte (d # ds) c = (if d = c then Some 0 else map_option Suc (IndexByte ds c))"

text \<open>The number of leading occurrences of a byte, as the first loop of both functions counts it.\<close>

definition leading :: "char \<Rightarrow> go_string \<Rightarrow> nat" where
  "leading z s = length (takeWhile (\<lambda>c. c = z) s)"

definition base62 :: "go_string \<Rightarrow> go_string" where
  "base62 b = replicate (leading chr_nul b) (CHR ''0'') @
     rev (map (\<lambda>d. base62Alphabet ! d) (lsd 62 (SetBytes b)))"

text \<open>The accumulation loop of \<open>decodeBase62\<close>; \<open>None\<close> on a byte outside the alphabet.\<close>

fun decodeLoop :: "nat \<Rightarrow> go_string \<Rightarrow> nat option" where
  "decodeLoop n [] = Some n"
| "decodeLoop n (c # cs) =
     (case IndexByte base62Alphabet c of None \<Rightarrow> None | Some idx \<Rightarrow> decodeLoop (n * 62 + idx) cs)"

definition decodeBase62 :: "go_string \<Rightarrow> go_string option" where
  "decodeBase62 sv =
     (case decodeLoop 0 sv of None \<Rightarrow> None
      | Some n \<Rightarrow> Some (replicate (leading (CHR ''0'') sv) chr_nul @ Bytes n))"

definition isBase62 :: "char \<Rightarrow> bool" where
  "isBase62 c \<longleftrightarrow> (CHR ''0'' \<le> c \<and> c \<le> CHR ''9'') \<or> (CHR ''A'' \<le> c \<and> c \<le> CHR ''Z'') \<or>
                 (CHR ''a'' \<le> c \<and> c \<le> CHR ''z'')"

lemma alphabet_length [simp]: "length base62Alphabet = 62"
  by (simp add: base62Alphabet_def)

lemma alphabet_isBase62: "c \<in> set base62Alphabet \<Longrightarrow> isBase62 c"
  by (auto simp: base62Alphabet_def isBase62_def less_eq_char_def)

lemma alphabet_no_underscore: "CHR ''_'' \<notin> set base62Alphabet"
  by (simp add: base62Alphabet_def)

lemma alphabet_0: "base62Alphabet ! 0 = CHR ''0''"
  by (simp add: base62Alphabet_def)

lemma IndexByte_nth: "distinct s \<Longrightarrow> i < length s \<Longrightarrow> IndexByte s (s ! i) = Some i"
  by (induction s arbitrary: i) (auto simp: nth_Cons split: nat.splits)

lemma IndexByte_alphabet: "i < 62 \<Longrightarrow> IndexByte base62Alphabet (base62Alphabet ! i) = Some i"
  by (rule IndexByte_nth) (simp_all add: base62Alphabet_def)

lemma decodeLoop_digits:
  "\<forall>d \<in> set ds. d < 62 \<Longrightarrow>
     decodeLoop n (map (\<lambda>d. base62Alphabet ! d) ds) = Some (foldl (\<lambda>n d. n * 62 + d) n ds)"
  by (induction ds arbitrary: n) (simp_all add: IndexByte_alphabet)

lemma leading_replicate: "s = [] \<or> hd s \<noteq> z \<Longrightarrow> leading z (replicate k z @ s) = k"
  by (cases s) (simp_all add: leading_def takeWhile_append)

lemma split_leading: "\<exists>r. s = replicate (leading z s) z @ r \<and> (r = [] \<or> hd r \<noteq> z)"
proof -
  have "takeWhile (\<lambda>c. c = z) s = replicate (leading z s) z"
    unfolding leading_def by (rule replicate_length_same [symmetric]) (auto dest: set_takeWhileD)
  then have "s = replicate (leading z s) z @ dropWhile (\<lambda>c. c = z) s"
    by (metis takeWhile_dropWhile_id)
  moreover have "dropWhile (\<lambda>c. c = z) s = [] \<or> hd (dropWhile (\<lambda>c. c = z) s) \<noteq> z"
    using hd_dropWhile by blast
  ultimately show ?thesis by blast
qed

lemma horner_zeros: "foldl (\<lambda>n d. n * b + d) 0 (replicate k 0 @ ds) = horner b ds"
  by (induction k) (simp_all add: horner_def)

lemma base62_digits:
  obtains k r where "b = replicate k chr_nul @ r" and "r = [] \<or> hd r \<noteq> chr_nul"
    and "base62 b = map (\<lambda>d. base62Alphabet ! d) (replicate k 0 @ rev (lsd 62 (horner 256 (map of_char r))))"
    and "leading (CHR ''0'') (base62 b) = k"
proof -
  let ?k = "leading chr_nul b"
  obtain r where b: "b = replicate ?k chr_nul @ r" and r: "r = [] \<or> hd r \<noteq> chr_nul"
    using split_leading by blast
  let ?n = "horner 256 (map of_char r)"
  let ?ds = "rev (lsd 62 ?n)"
  have "map of_char b = replicate ?k (0 :: nat) @ map of_char r"
    using arg_cong [OF b, of "map of_char"] by simp
  then have n: "SetBytes b = ?n"
    unfolding SetBytes_def horner_def [of 256 "map of_char b"] by (simp only: horner_zeros)
  then have digits: "base62 b = map (\<lambda>d. base62Alphabet ! d) (replicate ?k 0 @ ?ds)"
    by (simp add: base62_def alphabet_0 rev_map)
  have "map (\<lambda>d. base62Alphabet ! d) ?ds = [] \<or> hd (map (\<lambda>d. base62Alphabet ! d) ?ds) \<noteq> CHR ''0''"
  proof (cases "?n = 0")
    case False
    then have "?ds \<noteq> []" "hd ?ds \<noteq> 0" using lsd_last [of 62 ?n] by (simp_all add: hd_rev)
    moreover from this have "hd ?ds \<in> set (lsd 62 ?n)" using hd_in_set [of ?ds] by simp
    then have "hd ?ds < 62" by (rule lsd_digits [rotated]) simp
    ultimately have "base62Alphabet ! hd ?ds \<noteq> base62Alphabet ! 0"
      using IndexByte_alphabet [of "hd ?ds"] IndexByte_alphabet [of 0] by auto
    with \<open>?ds \<noteq> []\<close> show ?thesis by (simp add: hd_map alphabet_0)
  qed simp
  then have "leading (CHR ''0'') (base62 b) = ?k"
    unfolding digits map_append map_replicate alphabet_0 by (rule leading_replicate)
  with b r digits show ?thesis by (rule that)
qed

lemma decodeBase62_base62: "decodeBase62 (base62 b) = Some b"
proof -
  obtain k r where b: "b = replicate k chr_nul @ r" and r: "r = [] \<or> hd r \<noteq> chr_nul"
    and d: "base62 b = map (\<lambda>d. base62Alphabet ! d) (replicate k 0 @ rev (lsd 62 (horner 256 (map of_char r))))"
    and lead: "leading (CHR ''0'') (base62 b) = k"
    by (rule base62_digits)
  let ?n = "horner 256 (map of_char r)"
  have "decodeLoop 0 (base62 b) = Some (horner 62 (rev (lsd 62 ?n)))"
    unfolding d horner_zeros [of 62 k, symmetric]
    by (rule decodeLoop_digits) (auto dest: lsd_digits [rotated])
  then have loop: "decodeLoop 0 (base62 b) = Some ?n"
    by (simp add: horner_lsd)
  have "rev (lsd 256 ?n) = map of_char r"
  proof (rule lsd_horner)
    show "map of_char r \<noteq> [] \<longrightarrow> hd (map of_char r) \<noteq> (0 :: nat)"
      using r of_char_eq_iff [where ?'a = nat, of "hd r" chr_nul] by (auto simp: hd_map)
  qed simp_all
  then have "Bytes ?n = r" by (simp add: Bytes_def)
  with loop lead show ?thesis
    by (simp add: decodeBase62_def b)
qed

lemma set_base62: "set (base62 b) \<subseteq> set base62Alphabet"
proof -
  obtain k r where "base62 b = map (\<lambda>d. base62Alphabet ! d) (replicate k 0 @ rev (lsd 62 (horner 256 (map of_char r))))"
    by (rule base62_digits [of b])
  moreover have "d < 62" if "d \<in> set (lsd 62 n)" for d n
    using lsd_digits [OF _ that] by simp
  ultimately show ?thesis by (auto simp: set_conv_nth [of base62Alphabet])
qed

section \<open>Artifacts\<close>

datatype ArtifactType =
  ArtifactCLISession | ArtifactBootstrap | ArtifactBrowserSession | ArtifactRecoveryCode
| ArtifactOIDCState | ArtifactOIDCBinding | ArtifactCSRF | ArtifactWorkload | ArtifactAutomation
| ArtifactSCIM | ArtifactInstanceConn | ArtifactWorkspaceSession | ArtifactHandoffState
| ArtifactHandoffCode

text \<open>The string each constant stands for.\<close>

fun type_name :: "ArtifactType \<Rightarrow> go_string" where
  "type_name ArtifactCLISession = ''cli''"
| "type_name ArtifactBootstrap = ''bs''"
| "type_name ArtifactBrowserSession = ''br''"
| "type_name ArtifactRecoveryCode = ''rc''"
| "type_name ArtifactOIDCState = ''st''"
| "type_name ArtifactOIDCBinding = ''ob''"
| "type_name ArtifactCSRF = ''cs''"
| "type_name ArtifactWorkload = ''wl''"
| "type_name ArtifactAutomation = ''au''"
| "type_name ArtifactSCIM = ''scim''"
| "type_name ArtifactInstanceConn = ''ic''"
| "type_name ArtifactWorkspaceSession = ''ws''"
| "type_name ArtifactHandoffState = ''hs''"
| "type_name ArtifactHandoffCode = ''hc''"

definition artifactFormatVersion :: go_string where "artifactFormatVersion = ''1''"
definition bodyBytes :: nat where "bodyBytes = 32"
definition checksumChars :: nat where "checksumChars = 6"

datatype artifact_error = ErrMalformedArtifact | ErrArtifactBody

text \<open>The loop of \<open>checksum\<close>: fill \<open>i\<close> positions from the right.\<close>

fun checksumLoop :: "nat \<Rightarrow> nat \<Rightarrow> go_string \<Rightarrow> go_string" where
  "checksumLoop 0 sm out = out"
| "checksumLoop (Suc i) sm out = checksumLoop i (sm div 62) (base62Alphabet ! (sm mod 62) # out)"

definition checksum :: "go_string \<Rightarrow> go_string" where
  "checksum body = checksumLoop checksumChars (unat (ChecksumIEEE body)) []"

definition ArtifactVerifier :: "go_string \<Rightarrow> go_string" where
  "ArtifactVerifier value = Sum256 value"

text \<open>\<open>rnd\<close> is what the system's randomness source delivers; too few bytes is its error.\<close>

definition NewArtifact :: "go_string \<Rightarrow> ArtifactType \<Rightarrow> artifact_error + go_string \<times> go_string" where
  "NewArtifact rnd t =
     (if length rnd < bodyBytes then Inl ErrArtifactBody
      else (let raw = take bodyBytes rnd;
                body = base62 raw;
                value = ''hik_'' @ artifactFormatVersion @ ''_'' @ type_name t @ ''_'' @ body @ checksum body
            in Inr (value, ArtifactVerifier value)))"

definition ParseArtifact :: "go_string \<Rightarrow> ArtifactType \<Rightarrow> artifact_error option" where
  "ParseArtifact value want =
     (let parts = Split value (CHR ''_'') in
      if length parts \<noteq> 4 \<or> parts ! 0 \<noteq> ''hik'' then Some ErrMalformedArtifact
      else if parts ! 1 \<noteq> artifactFormatVersion \<or> parts ! 2 \<noteq> type_name want
        then Some ErrMalformedArtifact
      else (let payload = parts ! 3 in
        if length payload \<le> checksumChars then Some ErrMalformedArtifact
        else (let body = take (length payload - checksumChars) payload;
                  sm = drop (length payload - checksumChars) payload
              in case decodeBase62 body of
                   None \<Rightarrow> Some ErrMalformedArtifact
                 | Some raw \<Rightarrow>
                     (if length raw \<noteq> bodyBytes \<or> base62 raw \<noteq> body then Some ErrMalformedArtifact
                      else if list_ex (\<lambda>c. \<not> isBase62 c) sm then Some ErrMalformedArtifact
                      else if checksum body \<noteq> sm then Some ErrMalformedArtifact
                      else None))))"

lemma checksumLoop_shape:
  "\<exists>ds. checksumLoop i n out = ds @ out \<and> length ds = i \<and> set ds \<subseteq> set base62Alphabet"
proof (induction i arbitrary: n out)
  case (Suc i)
  let ?c = "base62Alphabet ! (n mod 62)"
  obtain ds where "checksumLoop i (n div 62) (?c # out) = ds @ ?c # out" "length ds = i"
      "set ds \<subseteq> set base62Alphabet"
    using Suc by blast
  moreover have "?c \<in> set base62Alphabet" by (rule nth_mem) simp
  ultimately show ?case by (intro exI [of _ "ds @ [?c]"]) simp
qed simp

lemma checksum_shape: "length (checksum b) = checksumChars \<and> set (checksum b) \<subseteq> set base62Alphabet"
  using checksumLoop_shape [of checksumChars "unat (ChecksumIEEE b)" "[]"] by (auto simp: checksum_def)

lemma type_name_no_underscore: "CHR ''_'' \<notin> set (type_name t)"
  by (cases t) simp_all

text \<open>A value with four parts is those parts joined.\<close>

lemma Split_Cons_cases:
  "Split s sep = p # ps \<Longrightarrow> sep \<notin> set p \<and> (if ps = [] then s = p else \<exists>r. s = p @ sep # r \<and> Split r sep = ps)"
proof (induction s arbitrary: p ps)
  case (Cons c s)
  obtain q qs where q: "Split s sep = q # qs" by (cases "Split s sep") simp_all
  show ?case
  proof (cases "c = sep")
    case True
    with Cons.prems have "p = []" "ps = Split s sep" by auto
    with True show ?thesis by auto
  next
    case False
    with Cons.prems q have "p = c # q" "ps = qs" by auto
    with Cons.IH [OF q] False show ?thesis by (auto split: if_splits)
  qed
qed simp

lemma Split_four:
  assumes "length (Split s sep) = 4"
  shows "s = Split s sep ! 0 @ sep # Split s sep ! 1 @ sep # Split s sep ! 2 @ sep # Split s sep ! 3"
proof -
  obtain a b c d where p: "Split s sep = [a, b, c, d]"
    using assms by (auto simp: length_Suc_conv numeral_eq_Suc)
  obtain r where 1: "s = a @ sep # r" "Split r sep = [b, c, d]"
    using Split_Cons_cases [OF p] by auto
  obtain q where 2: "r = b @ sep # q" "Split q sep = [c, d]"
    using Split_Cons_cases [OF 1(2)] by auto
  obtain x where 3: "q = c @ sep # x" "Split x sep = [d]"
    using Split_Cons_cases [OF 2(2)] by auto
  have "x = d" using Split_Cons_cases [OF 3(2)] by simp
  with 1 2 3 p show ?thesis by (simp add: numeral_3_eq_3 numeral_2_eq_2)
qed

text \<open>The value that a body stands for.\<close>

definition artifact :: "ArtifactType \<Rightarrow> go_string \<Rightarrow> go_string" where
  "artifact t raw =
     ''hik_'' @ artifactFormatVersion @ ''_'' @ type_name t @ ''_'' @ base62 raw @ checksum (base62 raw)"

lemma ParseArtifact_mint:
  assumes "length raw = bodyBytes"
  shows "ParseArtifact (artifact t raw) t = None"
proof -
  let ?b = "base62 raw" and ?c = "checksum (base62 raw)" and ?u = "CHR ''_''"
  have no: "?u \<notin> set (?b @ ?c)"
    using set_base62 [of raw] checksum_shape [of ?b] alphabet_no_underscore by auto
  have "artifact t raw = ''hik'' @ ?u # artifactFormatVersion @ ?u # type_name t @ ?u # ?b @ ?c"
    by (simp add: artifact_def)
  then have parts: "Split (artifact t raw) ?u = [''hik'', artifactFormatVersion, type_name t, ?b @ ?c]"
    using Split_no_sep [OF no] type_name_no_underscore [of t]
    by (simp add: Split_line artifactFormatVersion_def)
  have "?b \<noteq> []"
  proof
    assume "?b = []"
    then have "raw = []" using decodeBase62_base62 [of raw] by (simp add: decodeBase62_def leading_def Bytes_def)
    with assms show False by (simp add: bodyBytes_def)
  qed
  moreover have "\<not> list_ex (\<lambda>c. \<not> isBase62 c) ?c"
    using checksum_shape [of ?b] alphabet_isBase62 by (auto simp: list_ex_iff)
  ultimately show ?thesis
    using parts checksum_shape [of ?b] assms
    by (simp add: ParseArtifact_def Let_def decodeBase62_base62 numeral_3_eq_3 numeral_2_eq_2)
qed

text \<open>
  C39: a value is accepted for a type exactly when it is one that minting an artifact of this
  type can emit.
\<close>

theorem ParseArtifact_iff_minted:
  "ParseArtifact value t = None \<longleftrightarrow> (\<exists>rnd verifier. NewArtifact rnd t = Inr (value, verifier))"
proof
  assume ok: "ParseArtifact value t = None"
  let ?p = "Split value (CHR ''_'')"
  let ?body = "take (length (?p ! 3) - checksumChars) (?p ! 3)"
  obtain raw where len: "length ?p = 4" and p: "?p ! 0 = ''hik''" "?p ! 1 = artifactFormatVersion"
      "?p ! 2 = type_name t" and raw: "length raw = bodyBytes" "base62 raw = ?body"
    and sm: "checksum ?body = drop (length (?p ! 3) - checksumChars) (?p ! 3)"
    using ok by (auto simp: ParseArtifact_def Let_def split: if_splits option.splits)
  have "?p ! 3 = ?body @ checksum ?body" by (simp add: sm)
  then have "value = artifact t raw"
    using Split_four [OF len] p raw by (simp add: artifact_def)
  then have "NewArtifact raw t = Inr (value, ArtifactVerifier value)"
    using raw(1) by (simp add: NewArtifact_def artifact_def Let_def)
  then show "\<exists>rnd verifier. NewArtifact rnd t = Inr (value, verifier)" by blast
next
  assume "\<exists>rnd verifier. NewArtifact rnd t = Inr (value, verifier)"
  then obtain rnd where "value = artifact t (take bodyBytes rnd)" "length (take bodyBytes rnd) = bodyBytes"
    by (auto simp: NewArtifact_def artifact_def Let_def split: if_splits)
  then show "ParseArtifact value t = None" using ParseArtifact_mint by simp
qed

end
