(* ===== verification/Freetext.thy ===== *)
theory Freetext
  imports Go_Prelude
begin

text \<open>
  \<open>internal/freetext/sanitize.go\<close> (re-exported by \<open>internal/audit/sanitize.go\<close>): the hygiene
  applied to caller-originated text before it enters an audit record. The write boundary
  refuses any text that sanitizing would change, so idempotence is what makes a sanitized
  text writable; it is proved below together with the bounds the record relies on.
\<close>

definition FreeTextBound :: nat where "FreeTextBound = 1024"

definition RedactionMarker :: go_string where "RedactionMarker = ''[REDACTED:hikyo-token]''"

section \<open>The token grammar\<close>

definition alnum :: "char \<Rightarrow> bool" where
  "alnum c \<longleftrightarrow> (CHR ''0'' \<le> c \<and> c \<le> CHR ''9'') \<or> (CHR ''A'' \<le> c \<and> c \<le> CHR ''Z'') \<or>
              (CHR ''a'' \<le> c \<and> c \<le> CHR ''z'')"

definition lower :: "char \<Rightarrow> bool" where
  "lower c \<longleftrightarrow> CHR ''a'' \<le> c \<and> c \<le> CHR ''z''"

text \<open>
  \<open>tokenGrammarRe\<close>, \<open>(?:hik|ew)_[0-9A-Za-z]{1,8}_[a-z]{2,8}_[0-9A-Za-z]{16,}\<close>: the length of the
  match that starts at the first byte. No class contains the separator, so each field is the
  longest run of its class and the match is unique.
\<close>

definition after_separator :: "go_string \<Rightarrow> go_string option" where
  "after_separator s = (case s of [] \<Rightarrow> None | c # cs \<Rightarrow> (if c = CHR ''_'' then Some cs else None))"

definition bodyAt :: "go_string \<Rightarrow> nat option" where
  "bodyAt s = (let b = takeWhile alnum s in if length b \<ge> 16 then Some (length b) else None)"

definition typeAt :: "go_string \<Rightarrow> nat option" where
  "typeAt s = (let t = takeWhile lower s in
     if 2 \<le> length t \<and> length t \<le> 8 then
       (case after_separator (drop (length t) s) of None \<Rightarrow> None
        | Some r \<Rightarrow> map_option (\<lambda>n. length t + 1 + n) (bodyAt r))
     else None)"

definition versionAt :: "go_string \<Rightarrow> nat option" where
  "versionAt s = (let v = takeWhile alnum s in
     if 1 \<le> length v \<and> length v \<le> 8 then
       (case after_separator (drop (length v) s) of None \<Rightarrow> None
        | Some r \<Rightarrow> map_option (\<lambda>n. length v + 1 + n) (typeAt r))
     else None)"

definition tokenGrammarRe :: "go_string \<Rightarrow> nat option" where
  "tokenGrammarRe s =
     (if HasPrefix s ''hik_'' then map_option (\<lambda>n. 4 + n) (versionAt (drop 4 s))
      else if HasPrefix s ''ew_'' then map_option (\<lambda>n. 3 + n) (versionAt (drop 3 s))
      else None)"

text \<open>\<open>ReplaceAllString\<close>: the leftmost match is replaced and the scan goes on behind it.\<close>

function RedactTokens :: "go_string \<Rightarrow> go_string" where
  "RedactTokens [] = []"
| "RedactTokens (c # cs) =
     (case tokenGrammarRe (c # cs) of
        Some k \<Rightarrow> RedactionMarker @ RedactTokens (drop (k - 1) cs)
      | None \<Rightarrow> c # RedactTokens cs)"
  by pat_completeness auto
termination by (relation "measure length") auto

section \<open>Sanitizing\<close>

text \<open>\<open>strings.ToValidUTF8\<close>: each run of invalid bytes becomes one U+FFFD.\<close>

function ToValidUTF8 :: "bool \<Rightarrow> go_string \<Rightarrow> go_string" where
  "ToValidUTF8 prev [] = []"
| "ToValidUTF8 prev (c # cs) =
     (case rune_len (c # cs) of
        Some k \<Rightarrow> take k (c # cs) @ ToValidUTF8 False (drop (k - 1) cs)
      | None \<Rightarrow> (if prev then [] else [CHR 0xEF, CHR 0xBF, CHR 0xBD]) @ ToValidUTF8 True cs)"
  by pat_completeness auto
termination by (relation "measure (\<lambda>(p, s). length s)") auto

definition control :: "char \<Rightarrow> bool" where
  "control c \<longleftrightarrow> (of_char c :: nat) < 0x20 \<or> (of_char c :: nat) = 0x7f"

text \<open>\<open>utf8.RuneStart\<close>: not a continuation byte.\<close>

definition RuneStart :: "char \<Rightarrow> bool" where
  "RuneStart c \<longleftrightarrow> \<not> (128 \<le> (of_char c :: nat) \<and> (of_char c :: nat) \<le> 191)"

text \<open>The loop that moves the cut back to a rune boundary.\<close>

fun cutBack :: "go_string \<Rightarrow> nat \<Rightarrow> nat" where
  "cutBack s 0 = 0"
| "cutBack s (Suc n) = (if RuneStart (s ! Suc n) then Suc n else cutBack s n)"

definition SanitizeFreeText :: "go_string \<Rightarrow> go_string" where
  "SanitizeFreeText s =
     (let s = ToValidUTF8 False s;
          s = filter (\<lambda>c. \<not> control c) s;
          s = RedactTokens s
      in if length s > FreeTextBound then take (cutBack s FreeTextBound) s else s)"

section \<open>Redaction leaves no token\<close>

definition is_token :: "go_string \<Rightarrow> bool" where
  "is_token x \<longleftrightarrow> (\<exists>p v t b. x = p @ ''_'' @ v @ ''_'' @ t @ ''_'' @ b \<and> (p = ''hik'' \<or> p = ''ew'') \<and>
     1 \<le> length v \<and> length v \<le> 8 \<and> list_all alnum v \<and>
     2 \<le> length t \<and> length t \<le> 8 \<and> list_all lower t \<and> 16 \<le> length b \<and> list_all alnum b)"

lemma class_separator [simp]: "\<not> alnum (CHR ''_'')" "\<not> lower (CHR ''_'')" "\<not> alnum (CHR ''['')"
    "\<not> alnum (CHR '']'')"
  by (auto simp: alnum_def lower_def less_eq_char_def)

lemma lower_alnum: "lower c \<Longrightarrow> alnum c"
  by (simp add: alnum_def lower_def)

lemma takeWhile_run:
  "list_all P v \<Longrightarrow> \<not> P c \<Longrightarrow> takeWhile P (v @ c # r) = v"
  by (simp add: list_all_iff takeWhile_append2)

lemma takeWhile_longer: "list_all P b \<Longrightarrow> length b \<le> length (takeWhile P (b @ w))"
  by (simp add: list_all_iff takeWhile_append2)

lemma bodyAt_token: "16 \<le> length b \<Longrightarrow> list_all alnum b \<Longrightarrow> bodyAt (b @ w) \<noteq> None"
  using takeWhile_longer [of alnum b w] by (simp add: bodyAt_def Let_def)

lemma token_matches:
  assumes "is_token x"
  shows "tokenGrammarRe (x @ w) \<noteq> None"
proof -
  obtain p v t b where x: "x = p @ ''_'' @ v @ ''_'' @ t @ ''_'' @ b" and p: "p = ''hik'' \<or> p = ''ew''"
    and v: "1 \<le> length v" "length v \<le> 8" "list_all alnum v"
    and t: "2 \<le> length t" "length t \<le> 8" "list_all lower t"
    and b: "16 \<le> length b" "list_all alnum b"
    using assms by (auto simp: is_token_def)
  have "typeAt (t @ CHR ''_'' # b @ w) \<noteq> None"
    using t bodyAt_token [OF b, of w] by (simp add: typeAt_def takeWhile_run after_separator_def Let_def)
  then have "versionAt (v @ CHR ''_'' # t @ CHR ''_'' # b @ w) \<noteq> None"
    using v by (simp add: versionAt_def takeWhile_run after_separator_def Let_def)
  then show ?thesis
    using p by (auto simp: x tokenGrammarRe_def HasPrefix_def)
qed

lemma after_separator_Some: "after_separator s = Some r \<longleftrightarrow> s = CHR ''_'' # r"
  by (auto simp: after_separator_def split: list.splits)

lemma run_split: "\<exists>w. s = takeWhile P s @ w \<and> w = drop (length (takeWhile P s)) s \<and> list_all P (takeWhile P s)"
  by (auto simp: list_all_iff dropWhile_eq_drop [symmetric] dest: set_takeWhileD)

lemma bodyAt_Some:
  "bodyAt s = Some n \<Longrightarrow> \<exists>b w. s = b @ w \<and> n = length b \<and> 16 \<le> length b \<and> list_all alnum b"
  using run_split [of s alnum] by (auto simp: bodyAt_def Let_def split: if_splits)

lemma typeAt_Some:
  assumes "typeAt s = Some n"
  shows "\<exists>t b w. s = t @ ''_'' @ b @ w \<and> n = length t + 1 + length b \<and> 2 \<le> length t \<and> length t \<le> 8 \<and>
    list_all lower t \<and> 16 \<le> length b \<and> list_all alnum b"
proof -
  let ?t = "takeWhile lower s"
  obtain r m where len: "2 \<le> length ?t" "length ?t \<le> 8"
    and r: "drop (length ?t) s = CHR ''_'' # r" and m: "bodyAt r = Some m" "n = length ?t + 1 + m"
    using assms by (auto simp: typeAt_def Let_def after_separator_Some split: if_splits option.splits)
  obtain b w where "r = b @ w" "m = length b" "16 \<le> length b" "list_all alnum b"
    using bodyAt_Some [OF m(1)] by blast
  with len r m(2) run_split [of s lower] show ?thesis
    by (intro exI [of _ ?t] exI [of _ b] exI [of _ w]) auto
qed

lemma versionAt_Some:
  assumes "versionAt s = Some n"
  shows "\<exists>v t b w. s = v @ ''_'' @ t @ ''_'' @ b @ w \<and> n = length v + 1 + (length t + 1 + length b) \<and>
    1 \<le> length v \<and> length v \<le> 8 \<and> list_all alnum v \<and>
    2 \<le> length t \<and> length t \<le> 8 \<and> list_all lower t \<and> 16 \<le> length b \<and> list_all alnum b"
proof -
  let ?v = "takeWhile alnum s"
  obtain r m where len: "1 \<le> length ?v" "length ?v \<le> 8"
    and r: "drop (length ?v) s = CHR ''_'' # r" and m: "typeAt r = Some m" "n = length ?v + 1 + m"
    using assms by (auto simp: versionAt_def Let_def after_separator_Some split: if_splits option.splits)
  obtain t b w where "r = t @ ''_'' @ b @ w" "m = length t + 1 + length b" "2 \<le> length t" "length t \<le> 8"
      "list_all lower t" "16 \<le> length b" "list_all alnum b"
    using typeAt_Some [OF m(1)] by blast
  with len r m(2) run_split [of s alnum] show ?thesis
    by (intro exI [of _ ?v] exI [of _ t] exI [of _ b] exI [of _ w]) auto
qed

lemma match_is_token:
  assumes "tokenGrammarRe s = Some k"
  shows "\<exists>x w. s = x @ w \<and> length x = k \<and> is_token x"
proof -
  obtain p r n where p: "p = ''hik'' \<or> p = ''ew''" and s: "s = p @ ''_'' @ r"
    and n: "versionAt r = Some n" "k = length p + 1 + n"
  proof (cases "HasPrefix s ''hik_''")
    case True
    then obtain r where "s = ''hik'' @ ''_'' @ r" by (auto simp: HasPrefix_prefix prefix_def)
    with assms True that [of "''hik''" r] show ?thesis by (auto simp: tokenGrammarRe_def)
  next
    case False
    then have "HasPrefix s ''ew_''" using assms by (auto simp: tokenGrammarRe_def split: if_splits)
    moreover from this obtain r where "s = ''ew'' @ ''_'' @ r" by (auto simp: HasPrefix_prefix prefix_def)
    ultimately show ?thesis using assms False that [of "''ew''" r] by (auto simp: tokenGrammarRe_def)
  qed
  obtain v t b w where d: "r = v @ ''_'' @ t @ ''_'' @ b @ w"
    and rest: "n = length v + 1 + (length t + 1 + length b)"
    "1 \<le> length v" "length v \<le> 8" "list_all alnum v"
    "2 \<le> length t" "length t \<le> 8" "list_all lower t" "16 \<le> length b" "list_all alnum b"
    using versionAt_Some [OF n(1)] by blast
  let ?x = "p @ ''_'' @ v @ ''_'' @ t @ ''_'' @ b"
  have "is_token ?x" unfolding is_token_def using p rest by blast
  moreover have "s = ?x @ w" using s d by simp
  moreover have "length ?x = k" using n(2) rest(1) by simp
  ultimately show ?thesis by blast
qed

definition token_free :: "go_string \<Rightarrow> bool" where
  "token_free s \<longleftrightarrow> (\<forall>a x b. s = a @ x @ b \<longrightarrow> \<not> is_token x)"

lemma token_chars: "is_token x \<Longrightarrow> c \<in> set x \<Longrightarrow> alnum c \<or> c = CHR ''_''"
  by (auto simp: is_token_def list_all_iff lower_alnum) (auto simp: alnum_def less_eq_char_def)

lemma token_length: "is_token x \<Longrightarrow> 24 \<le> length x"
  by (auto simp: is_token_def)

lemma token_no_bracket: "is_token x \<Longrightarrow> CHR ''['' \<notin> set x \<and> CHR '']'' \<notin> set x"
  using token_chars by fastforce

lemma marker_parts: "RedactionMarker = CHR ''['' # ''REDACTED:hikyo-token'' @ [CHR '']'']"
  by (simp add: RedactionMarker_def)

lemma length_marker: "length RedactionMarker = 22"
  by (simp add: RedactionMarker_def)

lemma redact_prefix:
  "CHR ''['' \<notin> set x \<Longrightarrow> RedactTokens s = x @ b \<Longrightarrow> \<exists>w. s = x @ w"
proof (induction s arbitrary: x rule: RedactTokens.induct)
  case (2 c cs)
  show ?case
  proof (cases "tokenGrammarRe (c # cs)")
    case None
    then have eq: "c # RedactTokens cs = x @ b" using "2.prems" by simp
    show ?thesis
    proof (cases x)
      case (Cons d x')
      with eq have "RedactTokens cs = x' @ b" "d = c" by auto
      with "2.IH"(1) [OF None, of x'] "2.prems" Cons show ?thesis by auto
    qed simp
  next
    case (Some k)
    then have "RedactionMarker @ RedactTokens (drop (k - 1) cs) = x @ b" using "2.prems" by simp
    with "2.prems"(1) have "x = []" by (cases x) (auto simp: marker_parts)
    then show ?thesis by simp
  qed
qed simp

text \<open>A text without brackets inside \<open>marker @ r\<close> lies inside the marker or inside \<open>r\<close>.\<close>

lemma infix_marker:
  assumes "RedactionMarker @ r = a @ x @ b" and "CHR '']'' \<notin> set x" and "22 < length x"
  shows "\<exists>a'. r = a' @ x @ b"
proof (cases "length a < 22")
  case True
  have "(RedactionMarker @ r) ! 21 = CHR '']''"
    by (simp add: nth_append length_marker) (simp add: RedactionMarker_def)
  moreover have i: "21 - length a < length x" using assms(3) by linarith
  ultimately have "x ! (21 - length a) = CHR '']''"
    using True assms(1) by (simp add: nth_append split: if_splits)
  then have "CHR '']'' \<in> set x" using i by (metis nth_mem)
  with assms(2) show ?thesis ..
next
  case False
  then have "take 22 (RedactionMarker @ r) = take 22 a" using assms(1) by simp
  moreover have "drop 22 (RedactionMarker @ r) = drop 22 a @ x @ b" using assms(1) False by simp
  ultimately show ?thesis using length_marker by (metis append_eq_conv_conj)
qed

lemma redact_token_free: "token_free (RedactTokens s)"
proof (induction s rule: RedactTokens.induct)
  case 1
  show ?case by (auto simp: token_free_def dest: token_length)
next
  case (2 c cs)
  show ?case
  proof (cases "tokenGrammarRe (c # cs)")
    case None
    show ?thesis
      unfolding token_free_def
    proof (intro allI impI notI)
      fix a x b
      assume eq: "RedactTokens (c # cs) = a @ x @ b" and x: "is_token x"
      show False
      proof (cases a)
        case Nil
        obtain x' where x': "x = c # x'" "RedactTokens cs = x' @ b"
          using eq Nil None token_length [OF x] by (cases x) auto
        then obtain w where "cs = x' @ w"
          using redact_prefix [of x' cs b] token_no_bracket [OF x] by auto
        then show False using token_matches [OF x, of w] None x' by simp
      next
        case (Cons d a')
        with eq None have "RedactTokens cs = a' @ x @ b" by simp
        with "2.IH"(1) [OF None] x show False by (auto simp: token_free_def)
      qed
    qed
  next
    case (Some k)
    show ?thesis
      unfolding token_free_def
    proof (intro allI impI notI)
      fix a x b
      assume eq: "RedactTokens (c # cs) = a @ x @ b" and x: "is_token x"
      then obtain a' where "RedactTokens (drop (k - 1) cs) = a' @ x @ b"
        using Some infix_marker [of _ a x b] token_no_bracket [OF x] token_length [OF x] by auto
      with "2.IH"(2) [OF Some] x show False by (auto simp: token_free_def)
    qed
  qed
qed

lemma redact_id: "token_free s \<Longrightarrow> RedactTokens s = s"
proof (induction s rule: RedactTokens.induct)
  case (2 c cs)
  have "tokenGrammarRe (c # cs) = None"
  proof (rule ccontr)
    assume "tokenGrammarRe (c # cs) \<noteq> None"
    then obtain x w where "c # cs = [] @ x @ w" "is_token x"
      using match_is_token [of "c # cs"] by force
    with "2.prems" show False unfolding token_free_def by blast
  qed
  moreover have "token_free cs"
    using "2.prems" unfolding token_free_def by (metis append_Cons)
  ultimately show ?case using "2.IH"(1) by simp
qed simp

lemma token_free_prefix: "token_free (s @ t) \<Longrightarrow> token_free s"
  unfolding token_free_def by (metis append_assoc)

section \<open>Sanitized text is valid UTF-8\<close>

definition rune :: "go_string \<Rightarrow> bool" where
  "rune r \<longleftrightarrow> rune_len r = Some (length r)"

text \<open>A rune is one ASCII byte, or a leading byte followed by continuation bytes.\<close>

lemma rune_len_cases:
  assumes "rune_len (c # cs) = Some k"
  obtains (ascii) "k = 1" and "(of_char c :: nat) < 128"
  | (two) a w where "k = 2" and "cs = a # w" and "194 \<le> (of_char c :: nat)"
      and "(of_char c :: nat) \<le> 223" and "cont_byte 128 191 a"
  | (three) a b w where "k = 3" and "cs = a # b # w" and "194 \<le> (of_char c :: nat)" and "(of_char c :: nat) \<le> 239"
      and "cont_byte 128 191 a" and "cont_byte 128 191 b"
  | (four) a b d w where "k = 4" and "cs = a # b # d # w" and "194 \<le> (of_char c :: nat)"
      and "cont_byte 128 191 a" and "cont_byte 128 191 b" and "cont_byte 128 191 d"
  using assms unfolding rune_len_def Let_def cont_byte_def
  by (simp split: if_splits list.splits)

lemma rune_len_local:
  assumes "rune_len s = Some k"
  shows "rune_len (take k s @ w) = Some k"
proof (cases s)
  case (Cons c cs)
  from assms [unfolded Cons] show ?thesis
  proof (cases rule: rune_len_cases)
    case ascii
    then show ?thesis by (simp add: Cons rune_len_def)
  next
    case (two a v)
    then have "rune_len (c # a # v) = rune_len (c # a # w)" by (simp add: rune_len_def Let_def)
    with assms two show ?thesis by (simp add: Cons)
  next
    case (three a b v)
    then have "(of_char c :: nat) \<noteq> 240 \<and> \<not> 241 \<le> (of_char c :: nat) \<and> (of_char c :: nat) \<noteq> 244"
      by auto
    then have "rune_len (c # a # b # v) = rune_len (c # a # b # w)" by (simp add: rune_len_def Let_def)
    with assms three show ?thesis by (simp add: Cons)
  next
    case (four a b d v)
    have "rune_len (c # a # b # d # v) = rune_len (c # a # b # d # w)"
      by (simp add: rune_len_def Let_def)
    with assms four show ?thesis by (simp add: Cons)
  qed
qed (use assms in \<open>simp add: rune_len_def\<close>)

lemma rune_len_bound: "rune_len s = Some k \<Longrightarrow> 1 \<le> k \<and> k \<le> length s"
proof (cases s)
  case (Cons c cs)
  assume "rune_len s = Some k"
  from this [unfolded Cons] show ?thesis
    by (cases rule: rune_len_cases) (simp_all add: Cons)
qed (simp add: rune_len_def)

lemma rune_len_split:
  assumes "rune_len s = Some k"
  shows "s = take k s @ drop k s \<and> rune (take k s) \<and> length (take k s) = k"
  using rune_len_local [OF assms, of "[]"] rune_len_bound [OF assms] by (simp add: rune_def min_def)

text \<open>A rune is one ASCII byte, or a leading byte followed by continuation bytes.\<close>

lemma rune_shape:
  assumes "rune r"
  shows "(\<exists>c. r = [c] \<and> (of_char c :: nat) < 128) \<or>
    (\<exists>c cs. r = c # cs \<and> (\<forall>b \<in> set r. 128 \<le> (of_char b :: nat)) \<and> (\<forall>b \<in> set cs. \<not> RuneStart b))"
proof (cases r)
  case (Cons c cs)
  from assms have "rune_len (c # cs) = Some (length r)" by (simp add: rune_def Cons)
  then show ?thesis
    by (cases rule: rune_len_cases) (auto simp: Cons cont_byte_def RuneStart_def)
qed (use assms in \<open>simp add: rune_def rune_len_def\<close>)

lemma ValidString_rune: "rune r \<Longrightarrow> ValidString (r @ w) \<longleftrightarrow> ValidString w"
proof -
  assume r: "rune r"
  then obtain c cs where rc: "r = c # cs" by (cases r) (auto simp: rune_def rune_len_def)
  have "rune_len (r @ w) = Some (length r)"
    using rune_len_local [of r "length r" w] r by (simp add: rune_def)
  then show ?thesis by (simp add: rc)
qed

declare ValidString.simps(2) [simp del]

lemma valid_induct [consumes 1, case_names Nil rune]:
  assumes "ValidString s" and "P []" and "\<And>r w. rune r \<Longrightarrow> ValidString w \<Longrightarrow> P w \<Longrightarrow> P (r @ w)"
  shows "P s"
  using assms(1)
proof (induction s rule: length_induct)
  case (1 s)
  show ?case
  proof (cases s)
    case Nil
    then show ?thesis using assms(2) by simp
  next
    case (Cons c cs)
    then obtain k where k: "rune_len s = Some k" using 1(2) by (auto simp: ValidString.simps(2) split: option.splits)
    have s: "s = take k s @ drop k s" and r: "rune (take k s)"
      using rune_len_split [OF k] by auto
    have "ValidString (drop k s)" using 1(2) s ValidString_rune [OF r] by metis
    moreover have "length (drop k s) < length s" using rune_len_bound [OF k] Cons by simp
    ultimately show ?thesis using 1(1) assms(3) [OF r] s by metis
  qed
qed

lemma ValidString_append: "ValidString a \<Longrightarrow> ValidString b \<Longrightarrow> ValidString (a @ b)"
  by (induction a rule: valid_induct) (simp_all add: ValidString_rune)

lemma rune_ascii: "(of_char c :: nat) < 128 \<Longrightarrow> rune [c]"
  by (simp add: rune_def rune_len_def)

lemma ValidString_ascii: "\<forall>c \<in> set a. (of_char c :: nat) < 128 \<Longrightarrow> ValidString (a @ w) \<longleftrightarrow> ValidString w"
proof (induction a)
  case (Cons c a)
  then show ?case using ValidString_rune [OF rune_ascii, of c "a @ w"] by simp
qed simp

lemma ValidString_ToValid: "ValidString (ToValidUTF8 p s)"
proof (induction p s rule: ToValidUTF8.induct)
  case (2 p c cs)
  show ?case
  proof (cases "rune_len (c # cs)")
    case None
    have "rune [CHR 0xEF, CHR 0xBF, CHR 0xBD]" by (simp add: rune_def rune_len_def cont_byte_def)
    with "2.IH"(1) [OF None] have "ValidString ([CHR 0xEF, CHR 0xBF, CHR 0xBD] @ ToValidUTF8 True cs)"
      by (simp only: ValidString_rune)
    with None "2.IH"(1) [OF None] show ?thesis by (simp del: ValidString.simps)
  next
    case (Some k)
    then have "ToValidUTF8 p (c # cs) = take k (c # cs) @ ToValidUTF8 False (drop (k - 1) cs)"
      by (simp only: ToValidUTF8.simps option.case)
    with "2.IH"(2) [OF Some] rune_len_split [OF Some] show ?thesis
      by (simp only: ValidString_rune)
  qed
qed simp

lemma ToValid_id: "ValidString s \<Longrightarrow> ToValidUTF8 False s = s"
proof (induction s rule: valid_induct)
  case (rune r w)
  obtain c cs where rc: "r = c # cs" using rune(1) by (cases r) (auto simp: rune_def rune_len_def)
  have "rune_len (r @ w) = Some (length r)"
    using rune_len_local [of r "length r" w] rune(1) by (simp add: rune_def)
  with rune(3) show ?case by (simp add: rc)
qed simp

lemma ValidString_filter: "ValidString s \<Longrightarrow> ValidString (filter (\<lambda>c. \<not> control c) s)"
proof (induction s rule: valid_induct)
  case (rune r w)
  from rune_shape [OF rune(1)] show ?case
  proof
    assume "\<exists>c. r = [c] \<and> (of_char c :: nat) < 128"
    then obtain c where "r = [c]" by blast
    then have "filter (\<lambda>c. \<not> control c) (r @ w) = filter (\<lambda>c. \<not> control c) w \<or>
        filter (\<lambda>c. \<not> control c) (r @ w) = r @ filter (\<lambda>c. \<not> control c) w" by simp
    then show ?thesis using rune(3) ValidString_rune [OF rune(1)] by metis
  next
    assume "\<exists>c cs. r = c # cs \<and> (\<forall>b \<in> set r. 128 \<le> (of_char b :: nat)) \<and> (\<forall>b \<in> set cs. \<not> RuneStart b)"
    then have "\<forall>b \<in> set r. 128 \<le> (of_char b :: nat)" by blast
    then have "filter (\<lambda>c. \<not> control c) r = r" by (auto simp: filter_id_conv control_def)
    then show ?thesis using rune(3) ValidString_rune [OF rune(1)] by simp
  qed
qed simp

lemma redact_high: "\<forall>b \<in> set r. 128 \<le> (of_char b :: nat) \<Longrightarrow> RedactTokens (r @ w) = r @ RedactTokens w"
proof (induction r)
  case (Cons c r)
  have "tokenGrammarRe (c # r @ w) = None"
    using Cons.prems by (auto simp: tokenGrammarRe_def HasPrefix_def)
  with Cons show ?case by simp
qed simp

lemma token_ascii: "is_token x \<Longrightarrow> \<forall>c \<in> set x. (of_char c :: nat) < 128"
proof
  fix c assume "is_token x" "c \<in> set x"
  from token_chars [OF this] show "(of_char c :: nat) < 128"
    by (auto simp: alnum_def less_eq_char_def)
qed

lemma ValidString_redact: "ValidString s \<Longrightarrow> ValidString (RedactTokens s)"
proof (induction s rule: length_induct)
  case (1 s)
  show ?case
  proof (cases s)
    case (Cons c cs)
    show ?thesis
    proof (cases "tokenGrammarRe s")
      case (Some k)
      then obtain x w where s: "s = x @ w" and k: "length x = k" and x: "is_token x"
        using match_is_token by blast
      then have "ValidString w" using 1(2) ValidString_ascii [OF token_ascii [OF x]] by simp
      moreover have "length w < length s" using s token_length [OF x] by auto
      ultimately have "ValidString (RedactTokens w)" using 1(1) by blast
      moreover have "drop (k - 1) cs = w"
      proof -
        have "drop k s = w" using s k by simp
        moreover have "0 < k" using k token_length [OF x] by simp
        ultimately show ?thesis by (simp add: Cons drop_Cons')
      qed
      then have "RedactTokens s = RedactionMarker @ RedactTokens w"
        using Some by (simp add: Cons)
      moreover have "\<forall>c \<in> set RedactionMarker. (of_char c :: nat) < 128"
        by (simp add: RedactionMarker_def)
      ultimately show ?thesis by (simp only: ValidString_ascii)
    next
      case None
      obtain k where k: "rune_len s = Some k"
        using 1(2) Cons by (auto simp: ValidString.simps(2) split: option.splits)
      define r w where "r = take k s" and "w = drop k s"
      have s: "s = r @ w" and r: "rune r"
        using rune_len_split [OF k] by (auto simp: r_def w_def)
      have "ValidString w"
        using 1(2) ValidString_rune [OF r, of w] by (simp only: s [symmetric])
      moreover have "length w < length s"
        using rune_len_bound [OF k] unfolding w_def length_drop by linarith
      ultimately have w: "ValidString (RedactTokens w)" using 1(1) by blast
      have "RedactTokens s = r @ RedactTokens w"
        using rune_shape [OF r]
      proof
        assume "\<exists>c. r = [c] \<and> (of_char c :: nat) < 128"
        then show ?thesis using None s by auto
      qed (use redact_high s in blast)
      with w ValidString_rune [OF r] show ?thesis by simp
    qed
  qed simp
qed

lemma ValidString_take:
  "ValidString s \<Longrightarrow> m < length s \<Longrightarrow> m = 0 \<or> RuneStart (s ! m) \<Longrightarrow> ValidString (take m s)"
proof (induction s arbitrary: m rule: valid_induct)
  case (rune r w)
  show ?case
  proof (cases "m = 0")
    case False
    have "length r \<le> m"
    proof (rule ccontr)
      assume "\<not> length r \<le> m"
      then have "m < length r" by simp
      with False rune_shape [OF rune(1)] obtain c cs where "r = c # cs" "\<forall>b \<in> set cs. \<not> RuneStart b"
        by auto
      with \<open>m < length r\<close> False have "\<not> RuneStart ((r @ w) ! m)"
        by (cases m) (auto simp: nth_append)
      with False rune.prems show False by simp
    qed
    then have "take m (r @ w) = r @ take (m - length r) w" by simp
    moreover have "ValidString (take (m - length r) w)"
      using rune.IH [of "m - length r"] rune.prems \<open>length r \<le> m\<close> False
      by (cases "m = length r") (auto simp: nth_append)
    ultimately show ?thesis using ValidString_rune [OF rune(1)] by simp
  qed simp
qed simp

lemma cutBack_spec: "cutBack s n \<le> n \<and> (cutBack s n = 0 \<or> RuneStart (s ! cutBack s n))"
  by (induction n) auto

lemma set_redact: "set (RedactTokens s) \<subseteq> set s \<union> set RedactionMarker"
  by (induction s rule: RedactTokens.induct) (auto split: option.splits dest: in_set_dropD)

definition clean :: "go_string \<Rightarrow> bool" where
  "clean t \<longleftrightarrow> length t \<le> FreeTextBound \<and> ValidString t \<and> \<not> list_ex control t \<and> token_free t"

lemma sanitize_clean: "clean (SanitizeFreeText s)"
proof -
  define u where "u = RedactTokens (filter (\<lambda>c. \<not> control c) (ToValidUTF8 False s))"
  define t where "t = (if length u > FreeTextBound then take (cutBack u FreeTextBound) u else u)"
  have st: "SanitizeFreeText s = t" by (simp add: SanitizeFreeText_def Let_def u_def t_def)
  have u: "ValidString u"
    unfolding u_def by (intro ValidString_redact ValidString_filter ValidString_ToValid)
  have len: "length t \<le> FreeTextBound"
    using cutBack_spec [of u FreeTextBound] by (auto simp: t_def)
  have valid: "ValidString t"
    using u cutBack_spec [of u FreeTextBound] ValidString_take [of u "cutBack u FreeTextBound"]
    by (auto simp: t_def)
  have "set t \<subseteq> set u" by (auto simp: t_def dest: in_set_takeD)
  moreover have "\<forall>c \<in> set u. \<not> control c"
    using set_redact [of "filter (\<lambda>c. \<not> control c) (ToValidUTF8 False s)"]
    by (auto simp: u_def RedactionMarker_def control_def)
  ultimately have ctl: "\<forall>c \<in> set t. \<not> control c" by blast
  have "token_free u" unfolding u_def by (rule redact_token_free)
  then have "token_free t"
    using token_free_prefix [of "take (cutBack u FreeTextBound) u" "drop (cutBack u FreeTextBound) u"]
    by (simp add: t_def)
  with len valid ctl show ?thesis by (simp add: st clean_def list_ex_iff)
qed

lemma sanitize_fixed: "clean t \<Longrightarrow> SanitizeFreeText t = t"
proof -
  assume t: "clean t"
  then have "filter (\<lambda>c. \<not> control c) t = t"
    by (simp add: clean_def list_ex_iff filter_id_conv)
  with t show ?thesis
    by (simp add: clean_def SanitizeFreeText_def ToValid_id redact_id Let_def)
qed

lemma sanitized_iff: "SanitizeFreeText t = t \<longleftrightarrow> clean t"
  using sanitize_clean [of t] sanitize_fixed [of t] by auto

text \<open>
  C31: sanitizing gives a text of at most \<open>FreeTextBound\<close> bytes that is valid UTF-8, has no control
  byte and contains no bearer token, and that the write boundary accepts because sanitizing it
  again changes nothing.
\<close>

theorem SanitizeFreeText_clean:
  "length (SanitizeFreeText s) \<le> FreeTextBound \<and>
   ValidString (SanitizeFreeText s) \<and>
   \<not> list_ex control (SanitizeFreeText s) \<and>
   token_free (SanitizeFreeText s) \<and>
   SanitizeFreeText (SanitizeFreeText s) = SanitizeFreeText s"
  using sanitize_clean [of s] sanitize_fixed [OF sanitize_clean, of s] by (simp add: clean_def)

end
