(* ===== verification/Domain.thy ===== *)
theory Domain
  imports Go_Prelude
begin

text \<open>
  \<open>internal/domain/domain.go\<close> and \<open>permission.go\<close>: the closed set of capability atoms and the
  deepest level each may be granted at, scopes and grants, role templates, and the machine
  principal classes with their allowlists. Identifiers, capabilities and classes are Go string
  types and are strings here; \<open>Level\<close> is Go's \<open>int\<close> enumeration.
\<close>

section \<open>Capabilities\<close>

type_synonym Capability = go_string
type_synonym Level = int

definition LevelNone :: Level where "LevelNone = 0"
definition LevelOrg :: Level where "LevelOrg = 1"
definition LevelProject :: Level where "LevelProject = 2"
definition LevelEnv :: Level where "LevelEnv = 3"

lemmas level_defs = LevelNone_def LevelOrg_def LevelProject_def LevelEnv_def

definition CapRead :: Capability where "CapRead = ''read''"
definition CapReveal :: Capability where "CapReveal = ''reveal''"
definition CapRevealHistory :: Capability where "CapRevealHistory = ''reveal-history''"
definition CapEdit :: Capability where "CapEdit = ''edit''"
definition CapPublish :: Capability where "CapPublish = ''publish''"
definition CapPin :: Capability where "CapPin = ''pin''"
definition CapDefinitionsEdit :: Capability where "CapDefinitionsEdit = ''definitions-edit''"
definition CapProjectSettings :: Capability where "CapProjectSettings = ''project-settings''"
definition CapManageIdentities :: Capability where "CapManageIdentities = ''manage-identities''"
definition CapManageAdapters :: Capability where "CapManageAdapters = ''manage-adapters''"
definition CapManageMembers :: Capability where "CapManageMembers = ''manage-members''"
definition CapManageProjects :: Capability where "CapManageProjects = ''manage-projects''"
definition CapBackupExport :: Capability where "CapBackupExport = ''backup-export''"
definition CapRestore :: Capability where "CapRestore = ''restore''"
definition CapRotateRootKey :: Capability where "CapRotateRootKey = ''rotate-root-key''"
definition CapRotateMasterKey :: Capability where "CapRotateMasterKey = ''rotate-master-key''"
definition CapRotateDEK :: Capability where "CapRotateDEK = ''rotate-dek''"
definition CapReencrypt :: Capability where "CapReencrypt = ''reencrypt''"
definition CapInstanceConfig :: Capability where "CapInstanceConfig = ''instance-config''"
definition CapInstanceDirector :: Capability where "CapInstanceDirector = ''instance-directory''"
definition CapSCIMProvision :: Capability where "CapSCIMProvision = ''scim-provision''"
definition CapAuditRead :: Capability where "CapAuditRead = ''audit-read''"
definition CapCredentialReset :: Capability where "CapCredentialReset = ''credential-reset''"

lemmas cap_defs = CapRead_def CapReveal_def CapRevealHistory_def CapEdit_def CapPublish_def CapPin_def
  CapDefinitionsEdit_def CapProjectSettings_def CapManageIdentities_def CapManageAdapters_def
  CapManageMembers_def CapManageProjects_def CapBackupExport_def CapRestore_def CapRotateRootKey_def
  CapRotateMasterKey_def CapRotateDEK_def CapReencrypt_def CapInstanceConfig_def
  CapInstanceDirector_def CapSCIMProvision_def CapAuditRead_def CapCredentialReset_def

definition capabilityLevels :: "(Capability \<times> Level) list" where
  "capabilityLevels =
     [(CapRead, LevelEnv), (CapReveal, LevelEnv), (CapRevealHistory, LevelEnv), (CapEdit, LevelEnv),
      (CapPublish, LevelEnv), (CapPin, LevelEnv),
      (CapDefinitionsEdit, LevelProject), (CapProjectSettings, LevelProject),
      (CapManageIdentities, LevelProject), (CapManageAdapters, LevelProject),
      (CapManageMembers, LevelProject),
      (CapManageProjects, LevelOrg), (CapAuditRead, LevelEnv), (CapCredentialReset, LevelOrg),
      (CapSCIMProvision, LevelOrg),
      (CapBackupExport, LevelNone), (CapRestore, LevelNone), (CapRotateRootKey, LevelNone),
      (CapRotateMasterKey, LevelNone), (CapRotateDEK, LevelNone), (CapReencrypt, LevelNone),
      (CapInstanceConfig, LevelNone), (CapInstanceDirector, LevelNone)]"

definition Capabilities :: "Capability list" where
  "Capabilities = sort (map fst capabilityLevels)"

definition IsCapability :: "Capability \<Rightarrow> bool" where
  "IsCapability c \<longleftrightarrow> map_of capabilityLevels c \<noteq> None"

definition DeepestLevel :: "Capability \<Rightarrow> Level option" where
  "DeepestLevel c = map_of capabilityLevels c"

definition OperatorSet :: "Capability list" where
  "OperatorSet = [CapBackupExport, CapRestore, CapRotateRootKey, CapRotateMasterKey, CapRotateDEK,
     CapReencrypt, CapInstanceConfig]"

section \<open>Scopes and grants\<close>

record Scope =
  Org :: go_string
  Project :: go_string
  Env :: go_string

abbreviation no_scope :: Scope where
  "no_scope \<equiv> \<lparr>Org = [], Project = [], Env = []\<rparr>"

text \<open>\<open>Scope.Level\<close>; \<open>None\<close> is the error for a gap in the chain.\<close>

definition scope_Level :: "Scope \<Rightarrow> Level option" where
  "scope_Level s =
     (if Org s = [] \<and> Project s = [] \<and> Env s = [] then Some LevelNone
      else if Org s \<noteq> [] \<and> Project s = [] \<and> Env s = [] then Some LevelOrg
      else if Org s \<noteq> [] \<and> Project s \<noteq> [] \<and> Env s = [] then Some LevelProject
      else if Org s \<noteq> [] \<and> Project s \<noteq> [] \<and> Env s \<noteq> [] then Some LevelEnv
      else None)"

record Grant =
  grant_Cap :: Capability
  grant_Scope :: Scope

section \<open>Role templates\<close>

type_synonym Template = go_string

record templateSpec =
  applicable :: "Level list"
  creates :: "Capability list"
  orgOnly :: "Capability list"

definition tenantLevels :: "Level list" where "tenantLevels = [LevelOrg, LevelProject, LevelEnv]"
definition orgProject :: "Level list" where "orgProject = [LevelOrg, LevelProject]"
definition instanceOnly :: "Level list" where "instanceOnly = [LevelNone]"

definition templates :: "(Template \<times> templateSpec) list" where
  "templates =
     [(''viewer'', \<lparr>applicable = tenantLevels, creates = [CapRead], orgOnly = []\<rparr>),
      (''editor'', \<lparr>applicable = tenantLevels, creates = [CapRead, CapEdit], orgOnly = []\<rparr>),
      (''publisher'', \<lparr>applicable = tenantLevels,
         creates = [CapRead, CapEdit, CapPublish, CapPin], orgOnly = []\<rparr>),
      (''revealer'', \<lparr>applicable = tenantLevels, creates = [CapReveal], orgOnly = []\<rparr>),
      (''historian'', \<lparr>applicable = tenantLevels, creates = [CapRevealHistory], orgOnly = []\<rparr>),
      (''maintainer'', \<lparr>applicable = orgProject,
         creates = [CapRead, CapEdit, CapPublish, CapPin, CapDefinitionsEdit, CapManageIdentities,
                    CapManageAdapters], orgOnly = []\<rparr>),
      (''admin'', \<lparr>applicable = orgProject,
         creates = [CapRead, CapEdit, CapPublish, CapPin, CapDefinitionsEdit, CapManageIdentities,
                    CapManageAdapters, CapProjectSettings, CapManageMembers, CapReveal,
                    CapRevealHistory], orgOnly = [CapManageProjects]\<rparr>),
      (''operator'', \<lparr>applicable = instanceOnly, creates = OperatorSet @ [CapManageMembers],
         orgOnly = []\<rparr>)]"

definition Templates :: "Template list" where
  "Templates = sort (map fst templates)"

datatype template_error = ErrNoSuchTemplate | ErrTemplateScope

definition ExpandTemplate :: "Template \<Rightarrow> Level \<Rightarrow> template_error + Capability list" where
  "ExpandTemplate t at =
     (case map_of templates t of
        None \<Rightarrow> Inl ErrNoSuchTemplate
      | Some spec \<Rightarrow>
          (if at \<notin> set (applicable spec) then Inl ErrTemplateScope
           else Inr (creates spec @ (if at = LevelOrg then orgOnly spec else []))))"

section \<open>Principal classes\<close>

type_synonym PrincipalClass = go_string

definition ClassHuman :: PrincipalClass where "ClassHuman = ''human''"
definition ClassWorkload :: PrincipalClass where "ClassWorkload = ''workload''"
definition ClassAutomation :: PrincipalClass where "ClassAutomation = ''automation''"
definition ClassProvisioning :: PrincipalClass where "ClassProvisioning = ''provisioning-connection''"
definition ClassInstanceConn :: PrincipalClass where "ClassInstanceConn = ''instance-connection''"

lemmas class_defs = ClassHuman_def ClassWorkload_def ClassAutomation_def ClassProvisioning_def
  ClassInstanceConn_def

definition IsServiceAccountKind :: "PrincipalClass \<Rightarrow> bool" where
  "IsServiceAccountKind c \<longleftrightarrow> c = ClassWorkload \<or> c = ClassAutomation"

type_synonym IssuerType = go_string

definition IsIssuerType :: "IssuerType \<Rightarrow> bool" where
  "IsIssuerType t \<longleftrightarrow> t = ''kubernetes'' \<or> t = ''forgejo'' \<or> t = ''github-actions''"

definition IsCIIssuerType :: "IssuerType \<Rightarrow> bool" where
  "IsCIIssuerType t \<longleftrightarrow> t = ''forgejo'' \<or> t = ''github-actions''"

definition machineAllowlists :: "(PrincipalClass \<times> Capability list) list" where
  "machineAllowlists =
     [(ClassWorkload, [CapRead]),
      (ClassAutomation, [CapRead, CapEdit, CapPublish, CapDefinitionsEdit]),
      (ClassProvisioning, [CapSCIMProvision]),
      (ClassInstanceConn, [CapInstanceDirector])]"

definition machineRevealByOptIn :: "PrincipalClass list" where
  "machineRevealByOptIn = [ClassWorkload, ClassAutomation]"

definition MachineMayHoldRevealByOptIn :: "PrincipalClass \<Rightarrow> bool" where
  "MachineMayHoldRevealByOptIn c \<longleftrightarrow> c \<in> set machineRevealByOptIn"

definition MachineMayHoldRevealHistoryByPin :: "PrincipalClass \<Rightarrow> bool" where
  "MachineMayHoldRevealHistoryByPin c \<longleftrightarrow> c = ClassWorkload"

definition MachineClasses :: "PrincipalClass list" where
  "MachineClasses = sort (map fst machineAllowlists)"

definition IsMachineClass :: "PrincipalClass \<Rightarrow> bool" where
  "IsMachineClass c \<longleftrightarrow> map_of machineAllowlists c \<noteq> None"

definition MachineMayHold :: "PrincipalClass \<Rightarrow> Capability \<Rightarrow> bool" where
  "MachineMayHold c cap =
     (case map_of machineAllowlists c of None \<Rightarrow> False | Some caps \<Rightarrow> cap \<in> set caps)"

definition machineDepths :: "(PrincipalClass \<times> Level) list" where
  "machineDepths =
     [(ClassWorkload, LevelEnv), (ClassAutomation, LevelProject), (ClassProvisioning, LevelOrg),
      (ClassInstanceConn, LevelNone)]"

definition MachineScopeDepth :: "PrincipalClass \<Rightarrow> Level option" where
  "MachineScopeDepth c = map_of machineDepths c"

definition IsMintableOrigin :: "go_string \<Rightarrow> bool" where
  "IsMintableOrigin k \<longleftrightarrow> k \<in> {''manual'', ''break-glass''}"

section \<open>The tables fit together\<close>

lemma templates_legal:
  "list_all (\<lambda>(t, spec).
     list_all (\<lambda>at. list_all (\<lambda>c. case DeepestLevel c of None \<Rightarrow> False | Some d \<Rightarrow> at \<le> d)
                     (creates spec @ (if at = LevelOrg then orgOnly spec else [])))
       (applicable spec)) templates"
  by code_simp

lemma machine_legal:
  "list_all (\<lambda>(c, caps). list_all (\<lambda>cap. cap \<noteq> CapReveal \<and> cap \<noteq> CapRevealHistory \<and>
       cap \<noteq> CapManageMembers \<and>
       (case MachineScopeDepth c of None \<Rightarrow> False
        | Some depth \<Rightarrow> (case DeepestLevel cap of None \<Rightarrow> False | Some d \<Rightarrow> depth \<le> d))) caps)
     machineAllowlists"
  by code_simp

text \<open>
  A template expands only into atoms of the closed set that may be granted at the level it is
  applied at, so expanding never writes an unreachable grant.
\<close>

theorem ExpandTemplate_legal:
  assumes "ExpandTemplate t at = Inr caps" and "c \<in> set caps"
  shows "IsCapability c \<and> (\<exists>d. DeepestLevel c = Some d \<and> at \<le> d)"
proof -
  obtain spec where "(t, spec) \<in> set templates" "at \<in> set (applicable spec)"
    and caps: "caps = creates spec @ (if at = LevelOrg then orgOnly spec else [])"
    using assms(1) by (auto simp: ExpandTemplate_def split: option.splits if_splits dest!: map_of_SomeD)
  then have "list_all (\<lambda>c. case DeepestLevel c of None \<Rightarrow> False | Some d \<Rightarrow> at \<le> d) caps"
    using templates_legal by (fastforce simp: list_all_iff)
  with assms(2) show ?thesis
    by (auto simp: list_all_iff IsCapability_def DeepestLevel_def split: option.splits)
qed

theorem ExpandTemplate_legal_witness:
  "ExpandTemplate ''editor'' LevelOrg = Inr [CapRead, CapEdit] \<and> IsCapability CapEdit"
proof -
  have e: "ExpandTemplate ''editor'' LevelOrg = Inr [CapRead, CapEdit]"
    by (simp add: ExpandTemplate_def templates_def tenantLevels_def)
  then show ?thesis using ExpandTemplate_legal [OF e, of CapEdit] by simp
qed

text \<open>
  What a machine class may hold unconditionally never includes a disclosure atom, and every atom
  on its list is grantable at the shallowest level the class may be granted at.
\<close>

theorem MachineMayHold_bounds:
  assumes "MachineMayHold c cap"
  shows "cap \<noteq> CapReveal \<and> cap \<noteq> CapRevealHistory \<and> cap \<noteq> CapManageMembers \<and>
    (\<exists>depth deepest. MachineScopeDepth c = Some depth \<and> DeepestLevel cap = Some deepest \<and>
       (depth \<le> deepest))"
proof -
  obtain caps where "(c, caps) \<in> set machineAllowlists" "cap \<in> set caps"
    using assms by (auto simp: MachineMayHold_def split: option.splits dest!: map_of_SomeD)
  with machine_legal show ?thesis
    by (fastforce simp: list_all_iff split: option.splits)
qed

theorem MachineMayHold_bounds_witness: "MachineMayHold ClassWorkload CapRead \<and> CapRead \<noteq> CapReveal"
proof -
  have "MachineMayHold ClassWorkload CapRead" by (simp add: MachineMayHold_def machineAllowlists_def)
  with MachineMayHold_bounds show ?thesis by blast
qed

end
