(* ===== verification/Audit_Schema.thy ===== *)
theory Audit_Schema
  imports Freetext Domain
begin

text \<open>
  \<open>internal/audit/schema.go\<close> and \<open>sanitize.go\<close>: the closed payload schemas of audit events and the
  check a payload passes at the write boundary. A Go map is its association list. A payload
  value is one of the dynamic types the check distinguishes; \<open>VOther\<close> stands for all others.
  The check answers whether the error is nil: which of several violations Go reports first
  depends on its map iteration order.
\<close>

type_synonym EventType = go_string

datatype FieldKind =
  KindString | KindFreeText | KindInt | KindBool | KindStringList | KindObject | KindFreeTextMap

datatype FieldSpec = FieldSpec
  (Kind: FieldKind) (Required: bool) (ObjectSchema: "(go_string \<times> FieldSpec) list option")
  (Enum: "go_string list") (NonNegative: bool) (AtLeast: int) (MaxLen: int) (MaxBytes: int) (Digest: bool)

type_synonym Schema = "(go_string \<times> FieldSpec) list"

datatype Value =
  VString go_string | VInt int | VBool bool | VStringList "go_string list"
| VStringMap "(go_string \<times> go_string) list" | VObject "(go_string \<times> Value) list" | VOther

type_synonym Payload = "(go_string \<times> Value) list"

definition sha256HexLen :: nat where "sha256HexLen = 64"

definition checkSanitized :: "go_string \<Rightarrow> bool" where
  "checkSanitized s \<longleftrightarrow> s = SanitizeFreeText s"

definition checkInt :: "FieldSpec \<Rightarrow> int \<Rightarrow> bool" where
  "checkInt spec n \<longleftrightarrow>
     \<not> (NonNegative spec \<and> n < 0) \<and> \<not> (AtLeast spec \<noteq> 0 \<and> n < AtLeast spec)"

fun checkKind :: "FieldKind \<Rightarrow> Value \<Rightarrow> bool" where
  "checkKind KindString v = (case v of VString _ \<Rightarrow> True | _ \<Rightarrow> False)"
| "checkKind KindFreeText v = (case v of VString s \<Rightarrow> checkSanitized s | _ \<Rightarrow> False)"
| "checkKind KindInt v = (case v of VInt _ \<Rightarrow> True | _ \<Rightarrow> False)"
| "checkKind KindBool v = (case v of VBool _ \<Rightarrow> True | _ \<Rightarrow> False)"
| "checkKind KindStringList v = (case v of VStringList _ \<Rightarrow> True | _ \<Rightarrow> False)"
| "checkKind KindFreeTextMap v = (case v of VStringMap _ \<Rightarrow> True | _ \<Rightarrow> False)"
| "checkKind KindObject v = False"

text \<open>A failed type assertion leaves the empty string for the enum test.\<close>

definition asString :: "Value \<Rightarrow> go_string" where
  "asString v = (case v of VString s \<Rightarrow> s | _ \<Rightarrow> [])"

definition lowerHex :: "char \<Rightarrow> bool" where
  "lowerHex c \<longleftrightarrow> (CHR ''0'' \<le> c \<and> c \<le> CHR ''9'') \<or> (CHR ''a'' \<le> c \<and> c \<le> CHR ''f'')"

definition checkConstraints :: "FieldSpec \<Rightarrow> Value \<Rightarrow> bool" where
  "checkConstraints spec v \<longleftrightarrow>
     (Enum spec \<noteq> [] \<longrightarrow> asString v \<in> set (Enum spec)) \<and>
     (case v of
        VString t \<Rightarrow>
          (Digest spec \<longrightarrow> length t = sha256HexLen \<and> list_all lowerHex t) \<and>
          \<not> (MaxBytes spec > 0 \<and> int (length t) > MaxBytes spec)
      | VInt n \<Rightarrow> checkInt spec n
      | VStringMap t \<Rightarrow>
          \<not> (MaxLen spec > 0 \<and> int (length t) > MaxLen spec) \<and>
          list_all (\<lambda>(key, val). checkSanitized key \<and> checkSanitized val \<and>
            \<not> (length key > 64 \<or> MaxBytes spec > 0 \<and> int (length val) > MaxBytes spec)) t
      | VStringList t \<Rightarrow>
          \<not> (MaxLen spec > 0 \<and> int (length t) > MaxLen spec) \<and>
          list_all (\<lambda>entry. \<not> (MaxBytes spec > 0 \<and> int (length entry) > MaxBytes spec) \<and>
            checkSanitized entry) t
      | _ \<Rightarrow> True)"

definition objectPayload :: "Value \<Rightarrow> Payload option" where
  "objectPayload v = (case v of VObject o' \<Rightarrow> Some o' | _ \<Rightarrow> None)"

abbreviation schema_size :: "Schema \<Rightarrow> nat" where
  "schema_size \<equiv> size_list (size_prod (\<lambda>_. 0) size)"

lemma size_inner: "ObjectSchema spec = Some inner \<Longrightarrow> schema_size inner < size spec"
  by (cases spec) auto

text \<open>The second loop of \<open>Schema.validate\<close> is \<open>validateFields\<close>.\<close>

function validate :: "Schema \<Rightarrow> Payload \<Rightarrow> bool"
  and validateFields :: "Schema \<Rightarrow> Payload \<Rightarrow> bool" where
  "validate s p \<longleftrightarrow> list_all (\<lambda>(name, _). map_of s name \<noteq> None) p \<and> validateFields s p"
| "validateFields [] p = True"
| "validateFields ((name, spec) # s) p \<longleftrightarrow>
     (case map_of p name of None \<Rightarrow> \<not> Required spec
      | Some v \<Rightarrow>
          (if Kind spec = KindObject then
             (case objectPayload v of None \<Rightarrow> False
              | Some obj \<Rightarrow>
                  (case ObjectSchema spec of None \<Rightarrow> False | Some inner \<Rightarrow> validate inner obj))
           else checkKind (Kind spec) v \<and> checkConstraints spec v)) \<and>
     validateFields s p"
  by pat_completeness auto

termination validate
  by (relation "measure (case_sum (\<lambda>(s, _). 2 * schema_size s + 1) (\<lambda>(s, _). 2 * schema_size s))")
     (auto dest: size_inner)

lemma validateFields_iff:
  "validateFields s p \<longleftrightarrow>
   (\<forall>(name, spec) \<in> set s.
      case map_of p name of None \<Rightarrow> \<not> Required spec
      | Some v \<Rightarrow>
          (if Kind spec = KindObject then
             (case objectPayload v of None \<Rightarrow> False
              | Some obj \<Rightarrow>
                  (case ObjectSchema spec of None \<Rightarrow> False | Some inner \<Rightarrow> validate inner obj))
           else checkKind (Kind spec) v \<and> checkConstraints spec v))"
proof (induction s)
  case (Cons x s)
  then show ?case by (cases x) (simp del: validate.simps split del: if_split)
qed simp

declare validate.simps [simp del]

section \<open>What an accepted payload looks like\<close>

text \<open>The caller-influenced texts of a payload, at any depth.\<close>

inductive text_in :: "Schema \<Rightarrow> Payload \<Rightarrow> go_string \<Rightarrow> bool" where
  scalar: "(n, spec) \<in> set s \<Longrightarrow> Kind spec = KindFreeText \<Longrightarrow> map_of p n = Some (VString t) \<Longrightarrow> text_in s p t"
| entry: "(n, spec) \<in> set s \<Longrightarrow> Kind spec = KindStringList \<Longrightarrow> map_of p n = Some (VStringList ts) \<Longrightarrow>
    t \<in> set ts \<Longrightarrow> text_in s p t"
| pair: "(n, spec) \<in> set s \<Longrightarrow> Kind spec = KindFreeTextMap \<Longrightarrow> map_of p n = Some (VStringMap kvs) \<Longrightarrow>
    (k, v) \<in> set kvs \<Longrightarrow> t = k \<or> t = v \<Longrightarrow> text_in s p t"
| nested: "(n, spec) \<in> set s \<Longrightarrow> Kind spec = KindObject \<Longrightarrow> map_of p n = Some (VObject obj) \<Longrightarrow>
    ObjectSchema spec = Some inner \<Longrightarrow> text_in inner obj t \<Longrightarrow> text_in s p t"

lemma validate_field:
  assumes "validate s p" "(n, spec) \<in> set s" "map_of p n = Some v"
  shows "if Kind spec = KindObject
    then (\<exists>obj inner. v = VObject obj \<and> ObjectSchema spec = Some inner \<and> validate inner obj)
    else checkKind (Kind spec) v \<and> checkConstraints spec v"
proof -
  have "validateFields s p"
    using assms(1) by (simp add: validate.simps)
  then have "if Kind spec = KindObject
      then (case objectPayload v of None \<Rightarrow> False
            | Some obj \<Rightarrow> (case ObjectSchema spec of None \<Rightarrow> False | Some inner \<Rightarrow> validate inner obj))
      else checkKind (Kind spec) v \<and> checkConstraints spec v"
    unfolding validateFields_iff using assms(2,3) by fastforce
  then show ?thesis
    by (cases v) (auto simp: objectPayload_def split: if_splits option.splits)
qed

lemma checkSanitized_iff: "checkSanitized t \<longleftrightarrow> clean t"
  by (auto simp: checkSanitized_def sanitized_iff [symmetric])

lemma text_in_clean: "text_in s p t \<Longrightarrow> validate s p \<Longrightarrow> clean t"
proof (induction rule: text_in.induct)
  case (scalar n spec s p t)
  then show ?case using validate_field [OF scalar(4,1,3)] by (simp add: checkSanitized_iff)
next
  case (entry n spec s p ts t)
  then show ?case using validate_field [OF entry(5,1,3)]
    by (simp add: checkSanitized_iff checkConstraints_def list_all_iff)
next
  case (pair n spec s p kvs k v t)
  then show ?case using validate_field [OF pair(6,1,3)]
    by (fastforce simp: checkSanitized_iff checkConstraints_def list_all_iff)
next
  case (nested n spec s p obj inner t)
  then show ?case using validate_field [OF nested(7,1,3)] by auto
qed

text \<open>
  C30: a payload that passes its schema has only declared fields, has every required field, and every
  caller-influenced text in it, at any depth, is bounded, valid UTF-8, free of control bytes and free of
  bearer tokens.
\<close>

theorem validate_closed:
  assumes "validate s p"
  shows "fst ` set p \<subseteq> fst ` set s \<and>
    (\<forall>(n, spec) \<in> set s. Required spec \<longrightarrow> n \<in> fst ` set p) \<and>
    (\<forall>t. text_in s p t \<longrightarrow> clean t)"
proof (intro conjI allI impI)
  show "fst ` set p \<subseteq> fst ` set s"
    using assms by (force simp: validate.simps [of s p] list_all_iff map_of_eq_None_iff)
  show "\<forall>(n, spec) \<in> set s. Required spec \<longrightarrow> n \<in> fst ` set p"
    using assms
    by (auto simp: validate.simps [of s p] validateFields_iff list_all_iff map_of_eq_None_iff
        split: option.splits)
  show "clean t" if "text_in s p t" for t
    using text_in_clean [OF that assms] .
qed

theorem validate_closed_witness:
  "validate [(''display_name'', FieldSpec KindFreeText True None [] False 0 0 256 False)]
     [(''display_name'', VString ''ops team'')] \<and> clean ''ops team''"
proof -
  let ?s = "[(''display_name'', FieldSpec KindFreeText True None [] False 0 0 256 False)]"
  let ?p = "[(''display_name'', VString ''ops team'')]"
  have "ToValidUTF8 False ''ops team'' = ''ops team'' \<and> list_all (\<lambda>c. \<not> control c) ''ops team'' \<and>
      RedactTokens ''ops team'' = ''ops team''"
    by code_simp
  then have "SanitizeFreeText ''ops team'' = ''ops team''"
    by (simp add: SanitizeFreeText_def FreeTextBound_def Let_def)
  then have v: "validate ?s ?p"
    by (simp add: validate.simps checkSanitized_def checkConstraints_def)
  have "text_in ?s ?p ''ops team''"
    by (rule scalar [of "''display_name''" "FieldSpec KindFreeText True None [] False 0 0 256 False"]) simp_all
  with v validate_closed [OF v] show ?thesis by blast
qed

end
