(* ===== verification/Audit_Registry.thy ===== *)
theory Audit_Registry
  imports Audit_Schema Delivery
begin

text \<open>
  \<open>internal/audit/registry.go\<close> and \<open>privacy.go\<close>: the closed catalogue of audit event types, row by
  row. The Go map literal is split into consecutive parts, in source order; a map to \<open>bool\<close> whose
  values are all true is the list of its keys. Event type constants are written as their string
  values.
\<close>

datatype Trail = TrailTenant | TrailInstance

datatype Outcome =
  OutcomeIntent | OutcomeSuccess | OutcomeDenied | OutcomeFailure | OutcomeUnknown | OutcomeDisconnected

datatype RetentionClass = RetentionAccess | RetentionSecurity

record TypeSpec =
  ts_SchemaVersion :: int
  ts_Retention :: RetentionClass
  ts_Outcomes :: "Outcome list"
  ts_Trails :: "Trail list"
  ts_Schema :: Schema

abbreviation TypeSpec_of :: "int \<Rightarrow> RetentionClass \<Rightarrow> Outcome list \<Rightarrow> Trail list \<Rightarrow> Schema \<Rightarrow> TypeSpec" where
  "TypeSpec_of v r os ts s \<equiv>
     \<lparr>ts_SchemaVersion = v, ts_Retention = r, ts_Outcomes = os, ts_Trails = ts, ts_Schema = s\<rparr>"

abbreviation field_req :: "FieldKind \<Rightarrow> FieldSpec" where
  "field_req k \<equiv> FieldSpec k True None [] False 0 0 0 False"

abbreviation field_opt :: "FieldKind \<Rightarrow> FieldSpec" where
  "field_opt k \<equiv> FieldSpec k False None [] False 0 0 0 False"

abbreviation field_enum :: "bool \<Rightarrow> go_string list \<Rightarrow> FieldSpec" where
  "field_enum required values \<equiv> FieldSpec KindString required None values False 0 0 0 False"

abbreviation field_nonneg :: "bool \<Rightarrow> FieldSpec" where
  "field_nonneg required \<equiv> FieldSpec KindInt required None [] True 0 0 0 False"

section \<open>Shared schemas and row shapes\<close>

definition merged :: "Schema \<Rightarrow> Schema \<Rightarrow> Schema" where
  "merged a b = filter (\<lambda>(k, _). map_of b k = None) a @ b"

definition filterSchema :: Schema where
  "filterSchema = [(''filter_from'', field_opt KindString), (''filter_to'', field_opt KindString),
     (''filter_after_seq'', field_opt KindInt), (''filter_to_seq'', field_opt KindInt), (''filter_limit'',
     field_req KindInt), (''filter_actor'', field_opt KindString), (''filter_type'', field_opt KindString),
     (''filter_outcome'', field_opt KindString), (''filter_object_type'', field_opt KindString),
     (''filter_object_id'', field_opt KindString), (''filter_correlation_id'', field_opt KindString)]"

definition pinMutationSchema :: Schema where
  "pinMutationSchema = [(''workload_principal_id'', field_req KindString), (''revision'',
     field_req KindInt), (''expires_at'', field_req KindString), (''schema_override'', field_req KindBool),
     (''history_authorized'', field_req KindBool)]"

definition grantSchema :: Schema where
  "grantSchema = [(''target_principal'', field_req KindString), (''capability'', field_req KindString),
     (''scope'', field_req KindString), (''origin_kind'', field_req KindString), (''self_grant'',
     field_req KindBool), (''unheld'', field_req KindBool), (''target_class'', field_req KindString),
     (''template'', field_opt KindString), (''origin_binding'', field_opt KindString),
     (''origin_mapping_row'', field_opt KindString), (''origin_group'', field_opt KindString)]"

definition scimScopeSchema :: Schema where
  "scimScopeSchema = [(''level'', field_enum True [''org'', ''project'', ''environment'']), (''scope_id'',
     field_req KindString)]"

definition scimMappingSchema :: Schema where
  "scimMappingSchema = [(''binding'', field_req KindString), (''group_id'', field_req KindString),
     (''template'', field_req KindString), (''scope'', FieldSpec KindObject True (Some scimScopeSchema) []
     False 0 0 0 False), (''actor'', field_req KindString)]"

definition scimBindingSchema :: Schema where
  "scimBindingSchema = [(''org'', field_req KindString), (''provider_ref'', field_req KindString),
     (''actor'', field_req KindString)]"

definition scimCredentialSchema :: Schema where
  "scimCredentialSchema = [(''binding'', field_req KindString), (''credential_id'', field_req KindString),
     (''actor'', field_req KindString)]"

definition scimGroupSchema :: Schema where
  "scimGroupSchema = [(''binding'', field_req KindString), (''group_id'', field_req KindString),
     (''display_name'', FieldSpec KindFreeText True None [] False 0 0 256 False)]"

definition scimDeprovisionSchema :: Schema where
  "scimDeprovisionSchema = [(''binding'', field_req KindString), (''resource_id'', field_req KindString),
     (''account_id'', field_req KindString), (''released_origin_count'', field_nonneg True),
     (''manual_grants_remain'', field_req KindBool)]"

definition scimAttentionSchema :: Schema where
  "scimAttentionSchema = [(''binding'', field_req KindString), (''state'',
     field_enum True [''provider_unavailable'', ''lockout_retention'', ''manual_grants_remain'',
     ''inert_mapping'', ''stale'', ''post_restore'']), (''cause'', field_enum True ['''', ''deprovision'',
     ''user_deleted'', ''member_removed'', ''group_deleted'', ''mapping_deleted'', ''binding_deleted'',
     ''reactivation''])]"

definition scimPageSchema :: Schema where
  "scimPageSchema = [(''start_index'', FieldSpec KindInt True None [] False 1 0 0 False), (''count'',
     field_nonneg True)]"

definition renameSchema :: "go_string \<Rightarrow> Schema" where
  "renameSchema name =
     [(''previous_'' @ name, field_req KindFreeText), (name, field_req KindFreeText)]"

definition privacySubjectSpec :: TypeSpec where
  "privacySubjectSpec = TypeSpec_of 1 RetentionSecurity [OutcomeSuccess] [TrailInstance]
     [(''target_principal'', field_req KindString), (''authority'', field_enum True [''local-host''])]"

definition adapterLifecycleEvent :: "Schema \<Rightarrow> TypeSpec" where
  "adapterLifecycleEvent schema =
     TypeSpec_of 1 RetentionSecurity [OutcomeSuccess, OutcomeDenied, OutcomeFailure] [TrailTenant] schema"

definition scimAdminEvent :: "Schema \<Rightarrow> TypeSpec" where
  "scimAdminEvent schema = TypeSpec_of 1 RetentionSecurity [OutcomeSuccess] [TrailTenant] schema"

definition scimWireEvent :: "Schema \<Rightarrow> TypeSpec" where
  "scimWireEvent schema = TypeSpec_of 1 RetentionSecurity [OutcomeSuccess] [TrailTenant] schema"

definition scimLockoutEvent :: "Schema \<Rightarrow> TypeSpec" where
  "scimLockoutEvent schema =
     TypeSpec_of 1 RetentionSecurity [OutcomeSuccess] [TrailTenant, TrailInstance] schema"

definition samlCeremonyEvent :: TypeSpec where
  "samlCeremonyEvent =
     TypeSpec_of 1 RetentionSecurity [OutcomeSuccess, OutcomeFailure] [TrailInstance]
       [(''provider_id'', field_req KindString), (''entity_id'', field_req KindString),
        (''purpose'', field_req KindString), (''transaction_id'', field_req KindString),
        (''pinned_certificate_expired'', field_opt KindBool), (''cause'', field_opt KindString),
        (''name_id_format'', field_opt KindString), (''authn_context_class_ref'', field_opt KindString)]"

definition samlProviderEvent :: TypeSpec where
  "samlProviderEvent =
     (let diffSchema =
        [(''endpoints_added'', field_req KindStringList), (''endpoints_removed'', field_req KindStringList),
         (''certs_added_fps'', field_req KindStringList), (''certs_removed_fps'', field_req KindStringList),
         (''valid_until'', field_opt KindString)]
      in TypeSpec_of 1 RetentionSecurity [OutcomeSuccess, OutcomeFailure] [TrailInstance]
       [(''provider_id'', field_req KindString), (''entity_id'', field_req KindString),
        (''source'', field_req KindString), (''signed'', field_req KindBool),
        (''diff'', FieldSpec KindObject True (Some diffSchema) [] False 0 0 0 False),
        (''confirmed_fps'', field_req KindStringList), (''cause'', field_opt KindString)])"

definition hierarchyEvent :: "Schema \<Rightarrow> TypeSpec" where
  "hierarchyEvent schema = TypeSpec_of 1 RetentionSecurity [OutcomeSuccess] [TrailTenant] schema"

definition hierarchyFailureEvent :: "Schema \<Rightarrow> TypeSpec" where
  "hierarchyFailureEvent schema = TypeSpec_of 1 RetentionSecurity [OutcomeFailure] [TrailTenant] schema"

section \<open>The catalogue\<close>

definition registry_part1 :: "(EventType \<times> TypeSpec) list" where
  "registry_part1 =
     [(''self_config.recovered'', TypeSpec_of 1 RetentionSecurity [OutcomeSuccess, OutcomeFailure]
         [TrailTenant] [(''owner_instance_id'', field_req KindString), (''revision'', field_nonneg True),
         (''generation'', field_nonneg True)]),
      (''self_config.status_read'', TypeSpec_of 1 RetentionSecurity [OutcomeSuccess, OutcomeFailure]
         [TrailInstance] [(''owner_instance_id'', field_req KindString), (''revision'', field_nonneg False),
         (''generation'', field_nonneg False), (''job_id'', field_opt KindString), (''node_id'',
         field_opt KindString), (''error_code'', field_enum False [''invalid_config'',
         ''incompatible_schema'', ''preparation_failed'', ''preparation_timeout'', ''convergence_timeout'',
         ''restored'', ''transport_failed'', ''none''])]),
      (''self_config.adopted'', TypeSpec_of 1 RetentionSecurity [OutcomeSuccess, OutcomeFailure]
         [TrailInstance] [(''owner_instance_id'', field_req KindString), (''revision'', field_nonneg False),
         (''generation'', field_nonneg False), (''job_id'', field_opt KindString), (''node_id'',
         field_opt KindString), (''error_code'', field_enum False [''invalid_config'',
         ''incompatible_schema'', ''preparation_failed'', ''preparation_timeout'', ''convergence_timeout'',
         ''restored'', ''transport_failed'', ''none''])]),
      (''self_config.target_committed'', TypeSpec_of 1 RetentionSecurity [OutcomeSuccess, OutcomeFailure]
         [TrailTenant] [(''owner_instance_id'', field_req KindString), (''revision'', field_nonneg False),
         (''generation'', field_nonneg False), (''job_id'', field_opt KindString), (''node_id'',
         field_opt KindString), (''error_code'', field_enum False [''invalid_config'',
         ''incompatible_schema'', ''preparation_failed'', ''preparation_timeout'', ''convergence_timeout'',
         ''restored'', ''transport_failed'', ''none''])]),
      (''self_config.resumed'', TypeSpec_of 1 RetentionSecurity [OutcomeSuccess, OutcomeFailure]
         [TrailTenant] [(''owner_instance_id'', field_req KindString), (''revision'', field_nonneg False),
         (''generation'', field_nonneg False), (''job_id'', field_opt KindString), (''node_id'',
         field_opt KindString), (''error_code'', field_enum False [''invalid_config'',
         ''incompatible_schema'', ''preparation_failed'', ''preparation_timeout'', ''convergence_timeout'',
         ''restored'', ''transport_failed'', ''none''])]),
      (''self_config.deployment_restore_requested'', TypeSpec_of 1 RetentionSecurity [OutcomeSuccess]
         [TrailTenant] [(''owner_instance_id'', field_req KindString), (''revision'', field_nonneg True),
         (''generation'', field_nonneg True), (''job_id'', field_req KindString), (''plan_digest'',
         field_req KindString)]),
      (''self_config.apply_requested'', TypeSpec_of 1 RetentionSecurity [OutcomeSuccess, OutcomeFailure]
         [TrailTenant] [(''owner_instance_id'', field_req KindString), (''revision'', field_nonneg False),
         (''generation'', field_nonneg False), (''job_id'', field_opt KindString), (''node_id'',
         field_opt KindString), (''error_code'', field_enum False [''invalid_config'',
         ''incompatible_schema'', ''preparation_failed'', ''preparation_timeout'', ''convergence_timeout'',
         ''restored'', ''transport_failed'', ''none''])]),
      (''self_config.test_requested'', TypeSpec_of 1 RetentionSecurity [OutcomeSuccess, OutcomeFailure]
         [TrailTenant] [(''owner_instance_id'', field_req KindString), (''revision'', field_nonneg False),
         (''generation'', field_nonneg False), (''job_id'', field_opt KindString), (''node_id'',
         field_opt KindString), (''error_code'', field_enum False [''invalid_config'',
         ''incompatible_schema'', ''preparation_failed'', ''preparation_timeout'', ''convergence_timeout'',
         ''restored'', ''transport_failed'', ''none''])]),
      (''self_config.test_completed'', TypeSpec_of 1 RetentionSecurity [OutcomeSuccess, OutcomeFailure]
         [TrailTenant] [(''owner_instance_id'', field_req KindString), (''revision'', field_nonneg False),
         (''generation'', field_nonneg False), (''job_id'', field_opt KindString), (''node_id'',
         field_opt KindString), (''error_code'', field_enum False [''invalid_config'',
         ''incompatible_schema'', ''preparation_failed'', ''preparation_timeout'', ''convergence_timeout'',
         ''restored'', ''transport_failed'', ''none''])]),
      (''self_config.project_prepared'', TypeSpec_of 1 RetentionSecurity [OutcomeSuccess, OutcomeFailure]
         [TrailTenant] [(''owner_instance_id'', field_req KindString), (''revision'', field_nonneg False),
         (''generation'', field_nonneg False), (''job_id'', field_opt KindString), (''node_id'',
         field_opt KindString), (''error_code'', field_enum False [''invalid_config'',
         ''incompatible_schema'', ''preparation_failed'', ''preparation_timeout'', ''convergence_timeout'',
         ''restored'', ''transport_failed'', ''none''])]),
      (''self_config.applied'', TypeSpec_of 1 RetentionSecurity [OutcomeSuccess, OutcomeFailure]
         [TrailTenant] [(''owner_instance_id'', field_req KindString), (''revision'', field_nonneg False),
         (''generation'', field_nonneg False), (''job_id'', field_opt KindString), (''node_id'',
         field_opt KindString), (''error_code'', field_enum False [''invalid_config'',
         ''incompatible_schema'', ''preparation_failed'', ''activation_failed'', ''preparation_timeout'',
         ''convergence_timeout'', ''restored'', ''transport_failed'', ''none''])]),
      (''self_config.recovery_fenced'', TypeSpec_of 1 RetentionSecurity [OutcomeSuccess, OutcomeFailure]
         [TrailTenant] [(''owner_instance_id'', field_req KindString), (''revision'', field_nonneg False),
         (''generation'', field_nonneg False), (''job_id'', field_opt KindString), (''node_id'',
         field_opt KindString), (''error_code'', field_enum False [''invalid_config'',
         ''incompatible_schema'', ''preparation_failed'', ''preparation_timeout'', ''convergence_timeout'',
         ''restored'', ''transport_failed'', ''none''])]),
      (''auth.profile_updated'', TypeSpec_of 1 RetentionSecurity [OutcomeSuccess] [TrailInstance]
         [(''account_id'', field_req KindString)]),
      (''privacy.subject_corrected'', privacySubjectSpec),
      (''privacy.subject_released'', privacySubjectSpec),
      (''privacy.subject_exported'', privacySubjectSpec),
      (''privacy.subject_restricted'', privacySubjectSpec),
      (''privacy.subject_erased'', privacySubjectSpec),
      (''grant.denied'', TypeSpec_of 1 RetentionAccess [OutcomeDenied] [TrailTenant, TrailInstance]
         [(''operation'', field_req KindString), (''formula'', field_req KindString), (''resolution'',
         field_enum True [''resolvable'', ''unresolvable'']), (''claimed_org'', field_opt KindFreeText),
         (''claimed_project'', field_opt KindFreeText), (''claimed_env'', field_opt KindFreeText)]),
      (''audit.query'', TypeSpec_of 1 RetentionSecurity [OutcomeSuccess] [TrailTenant, TrailInstance]
         (merged filterSchema [(''row_count'', field_req KindInt)])),
      (''audit.export_started'', TypeSpec_of 1 RetentionSecurity [OutcomeIntent] [TrailTenant,
         TrailInstance] filterSchema),
      (''audit.export_completed'', TypeSpec_of 1 RetentionSecurity [OutcomeSuccess, OutcomeFailure,
         OutcomeDisconnected] [TrailTenant, TrailInstance] [(''rows_streamed'', field_req KindInt),
         (''cause'', field_opt KindString)]),
      (''auth.login'', TypeSpec_of 1 RetentionSecurity [OutcomeSuccess, OutcomeFailure] [TrailInstance]
         [(''method'', field_req KindString), (''artifact'', field_enum True [''cli'', ''browser'']),
         (''subject_resolved'', field_req KindBool), (''account_id'', field_opt KindString), (''assurance'',
         field_enum False [''single-factor'', ''multi-factor'']), (''cause'', field_opt KindString)]),
      (''auth.logout'', TypeSpec_of 1 RetentionSecurity [OutcomeSuccess] [TrailInstance] [(''session_id'',
         field_req KindString), (''artifact'', field_req KindString)]),
      (''auth.artifact_class_refused'', TypeSpec_of 1 RetentionSecurity [OutcomeFailure] [TrailInstance]
         [(''operation'', field_req KindString), (''artifact_class'', field_req KindString), (''cause'',
         field_enum True [''class-mismatch''])])]"

definition registry_part2 :: "(EventType \<times> TypeSpec) list" where
  "registry_part2 =
     [(''auth.session_created'', TypeSpec_of 1 RetentionSecurity [OutcomeSuccess] [TrailInstance]
         [(''session_id'', field_req KindString), (''artifact'', field_req KindString), (''method'',
         field_req KindString), (''assurance'', field_req KindString)]),
      (''auth.credential_authority_minted'', TypeSpec_of 1 RetentionSecurity [OutcomeSuccess]
         [TrailInstance] [(''authority_id'', field_req KindString), (''account_id'', field_req KindString),
         (''issued_by'', field_enum True [''bootstrap'', ''credential-reset'', ''break-glass'',
         ''recovery'', ''invitation'']), (''delivery'', field_enum True [''file'', ''terminal'', ''stdout'',
         ''response''])]),
      (''auth.credential_established'', TypeSpec_of 1 RetentionSecurity [OutcomeSuccess] [TrailInstance]
         [(''authority_id'', field_req KindString), (''account_id'', field_req KindString), (''credential'',
         field_req KindString)]),
      (''auth.credential_authority_refused'', TypeSpec_of 1 RetentionSecurity [OutcomeFailure]
         [TrailInstance] [(''cause'', field_req KindString)]),
      (''auth.throttle_crossed'', TypeSpec_of 1 RetentionSecurity [OutcomeFailure] [TrailInstance]
         [(''scope'', field_enum True [''account'', ''source-ip'', ''instance'']), (''subject_resolved'',
         field_req KindBool), (''account_id'', field_opt KindString)]),
      (''auth.factor_enrolled'', TypeSpec_of 1 RetentionSecurity [OutcomeSuccess] [TrailInstance]
         [(''factor'', field_req KindString), (''account_id'', field_req KindString),
         (''authorizing_credential'', field_req KindString)]),
      (''auth.factor_removed'', TypeSpec_of 1 RetentionSecurity [OutcomeSuccess] [TrailInstance]
         [(''factor'', field_req KindString), (''account_id'', field_req KindString),
         (''authorizing_credential'', field_req KindString)]),
      (''auth.recovery_codes_generated'', TypeSpec_of 1 RetentionSecurity [OutcomeSuccess] [TrailInstance]
         [(''account_id'', field_req KindString), (''count'', field_req KindInt),
         (''authorizing_credential'', field_req KindString)]),
      (''auth.recovery_code_consumed'', TypeSpec_of 1 RetentionSecurity [OutcomeSuccess, OutcomeFailure]
         [TrailInstance] [(''subject_resolved'', field_req KindBool), (''account_id'',
         field_opt KindString), (''authority_id'', field_opt KindString), (''cause'',
         field_opt KindString)]),
      (''auth.reauthenticated'', TypeSpec_of 1 RetentionSecurity [OutcomeSuccess] [TrailInstance]
         [(''session_id'', field_req KindString), (''factor'', field_req KindString)]),
      (''auth.cli_reauth_handoff'', TypeSpec_of 1 RetentionSecurity [OutcomeSuccess, OutcomeFailure]
         [TrailInstance] [(''phase'', field_enum True [''start'', ''inspect'', ''approve'', ''redeem'']),
         (''handoff_id'', field_opt KindString), (''operation'', field_opt KindString),
         (''environment_ids'', field_opt KindStringList), (''cause'', field_enum False [''invalid_request'',
         ''unauthenticated'', ''unauthorized'', ''invalid_or_expired'', ''reauth_required'',
         ''pkce_mismatch'', ''already_consumed''])])]"

definition registry_part3 :: "(EventType \<times> TypeSpec) list" where
  "registry_part3 =
     [(''auth.passkey_added'', TypeSpec_of 1 RetentionSecurity [OutcomeSuccess] [TrailInstance]
         [(''account_id'', field_req KindString), (''credential_id'', field_req KindString),
         (''authorizing_credential'', field_req KindString), (''discoverable'', field_req KindBool)]),
      (''auth.passkey_removed'', TypeSpec_of 1 RetentionSecurity [OutcomeSuccess] [TrailInstance]
         [(''account_id'', field_req KindString), (''credential_id'', field_req KindString),
         (''authorizing_credential'', field_req KindString)]),
      (''auth.passkey_cloned'', TypeSpec_of 1 RetentionSecurity [OutcomeFailure] [TrailInstance]
         [(''account_id'', field_req KindString), (''credential_id'', field_req KindString),
         (''sessions_swept'', field_req KindInt)]),
      (''auth.oidc_login'', TypeSpec_of 1 RetentionSecurity [OutcomeSuccess] [TrailInstance] [(''method'',
         field_req KindString), (''purpose'', field_enum True [''login'', ''reauth'']), (''account_id'',
         field_req KindString), (''assurance'', field_enum True [''single-factor'', ''multi-factor'']),
         (''provider_id'', field_req KindString), (''acr'', field_opt KindString), (''amr'',
         field_opt KindString), (''provider_row_version'', field_req KindInt)]),
      (''auth.oidc_refused'', TypeSpec_of 1 RetentionSecurity [OutcomeFailure] [TrailInstance] [(''cause'',
         field_enum True [''mixup'', ''nonce'', ''purpose'', ''state'', ''issuer'', ''audience'',
         ''signature'', ''epoch'', ''idp-error'', ''expired'', ''unknown-identity'',
         ''no-assurance-policy'', ''no-auth-time'', ''binding'', ''reconciliation'', ''window-zero'',
         ''no-possession'', ''downgrade'']), (''provider_id'', field_opt KindString)]),
      (''auth.identity_linked'', TypeSpec_of 1 RetentionSecurity [OutcomeSuccess] [TrailInstance]
         [(''kind'', field_req KindString), (''account_id'', field_req KindString), (''identity_id'',
         field_req KindString), (''provider_id'', field_req KindString), (''authorizing_credential'',
         field_req KindString)]),
      (''auth.identity_unlinked'', TypeSpec_of 1 RetentionSecurity [OutcomeSuccess] [TrailInstance]
         [(''kind'', field_req KindString), (''account_id'', field_req KindString), (''identity_id'',
         field_req KindString), (''authorizing_credential'', field_req KindString)]),
      (''auth.provider_changed'', TypeSpec_of 1 RetentionSecurity [OutcomeSuccess] [TrailInstance]
         [(''provider_id'', field_req KindString), (''change'', field_enum True [''created'', ''updated'',
         ''deleted'']), (''sessions_swept'', field_req KindInt)]),
      (''auth.provider_read'', TypeSpec_of 1 RetentionAccess [OutcomeSuccess] [TrailInstance] [(''query'',
         field_enum True [''get'', ''list'']), (''row_count'', field_req KindInt)]),
      (''auth.saml_login'', samlCeremonyEvent),
      (''auth.saml_reauth'', samlCeremonyEvent),
      (''auth.saml_provider_configure'', samlProviderEvent),
      (''auth.saml_provider_refresh'', samlProviderEvent),
      (''auth.saml_provider_remove'', samlProviderEvent),
      (''auth.saml_cert_change'', TypeSpec_of 1 RetentionSecurity [OutcomeSuccess] [TrailInstance]
         [(''provider_id'', field_req KindString), (''entity_id'', field_req KindString), (''change'',
         field_req KindString), (''fingerprint'', field_req KindString)]),
      (''auth.saml_nameid_email_optin'', TypeSpec_of 1 RetentionSecurity [OutcomeSuccess] [TrailInstance]
         [(''provider_id'', field_req KindString), (''entity_id'', field_req KindString), (''state'',
         field_req KindString)])]"

definition registry_part4 :: "(EventType \<times> TypeSpec) list" where
  "registry_part4 =
     [(''auth.saml_sp_key'', TypeSpec_of 1 RetentionSecurity [OutcomeSuccess] [TrailInstance] [(''action'',
         field_req KindString), (''key_fingerprint'', field_req KindString), (''prior_key_fingerprint'',
         field_opt KindString)]),
      (''auth.saml_metadata_expiry_warning'', TypeSpec_of 1 RetentionSecurity [OutcomeSuccess]
         [TrailInstance] [(''provider_id'', field_req KindString), (''entity_id'', field_req KindString),
         (''valid_until'', field_req KindString), (''threshold'', field_req KindString)]),
      (''auth.credential_reset_issued'', TypeSpec_of 1 RetentionSecurity [OutcomeSuccess, OutcomeFailure]
         [TrailInstance] [(''target_principal'', field_req KindString), (''issued_by'',
         field_enum True [''credential-reset'', ''break-glass'']), (''authority'',
         field_enum True [''network'', ''local-host'']), (''target_account'', field_opt KindString),
         (''authority_id'', field_opt KindString), (''delivery'', field_opt KindString),
         (''sessions_revoked'', field_opt KindBool), (''cause'', field_opt KindString)]),
      (''auth.effective_window_lowered'', TypeSpec_of 1 RetentionSecurity [OutcomeSuccess] [TrailInstance]
         [(''environment_id'', field_req KindString), (''new_window_seconds'', field_req KindInt),
         (''windows_invalidated'', field_req KindInt), (''stranded_count'', field_req KindInt),
         (''stranded_principals'', field_opt KindString)]),
      (''settings.org_read'', TypeSpec_of 1 RetentionAccess [OutcomeSuccess] [TrailInstance] [(''query'',
         field_enum True [''get'', ''list'', ''count'']), (''row_count'', field_req KindInt)]),
      (''settings.org_created'', TypeSpec_of 1 RetentionSecurity [OutcomeSuccess] [TrailInstance]
         [(''org_id'', field_req KindString), (''org_name'', field_req KindFreeText)]),
      (''settings.project_created'', TypeSpec_of 1 RetentionSecurity [OutcomeSuccess] [TrailTenant]
         [(''name'', field_req KindFreeText)]),
      (''settings.environment_created'', TypeSpec_of 1 RetentionSecurity [OutcomeSuccess] [TrailTenant]
         [(''name'', field_req KindFreeText)]),
      (''settings.environment_note_changed'', TypeSpec_of 1 RetentionSecurity [OutcomeSuccess] [TrailTenant]
         []),
      (''settings.org_renamed'', hierarchyEvent (renameSchema ''name'')),
      (''settings.org_deleted'', hierarchyEvent [(''name'', field_req KindFreeText)]),
      (''settings.project_renamed'', hierarchyEvent (renameSchema ''name'')),
      (''settings.project_deleted'', hierarchyEvent [(''name'', field_req KindFreeText)]),
      (''settings.environment_parameter_changed'', hierarchyEvent [(''name'', field_req KindFreeText),
         (''pattern'', field_opt KindFreeText), (''action'', field_enum True [''add'', ''delete''])]),
      (''settings.environment_renamed'', hierarchyEvent (renameSchema ''name'')),
      (''settings.environment_deleted'', hierarchyEvent [(''name'', field_req KindFreeText)]),
      (''settings.environment_reordered'', hierarchyEvent [(''environment_count'', field_req KindInt),
         (''environment_order'', field_req KindString)]),
      (''settings.folder_created'', hierarchyEvent [(''namespace'', field_req KindFreeText)]),
      (''settings.folder_renamed'', hierarchyEvent (renameSchema ''namespace'')),
      (''settings.folder_deleted'', hierarchyEvent [(''namespace'', field_req KindFreeText)])]"

definition registry_part5 :: "(EventType \<times> TypeSpec) list" where
  "registry_part5 =
     [(''settings.key_created'', hierarchyEvent [(''name'', field_req KindFreeText), (''classification'',
         field_req KindString), (''namespace'', field_req KindFreeText)]),
      (''settings.key_renamed'', hierarchyEvent (renameSchema ''name'')),
      (''settings.key_deleted'', hierarchyEvent [(''name'', field_req KindFreeText)]),
      (''settings.key_declaration_changed'', hierarchyEvent [(''name'', field_req KindFreeText),
         (''schema_revision'', field_req KindInt), (''rules_changed'', field_req KindBool),
         (''presence_changed'', field_req KindBool)]),
      (''settings.key_metadata_changed'', hierarchyEvent [(''name'', field_req KindFreeText),
         (''namespace'', field_req KindFreeText)]),
      (''settings.key_reclassified'', hierarchyEvent [(''name'', field_req KindFreeText),
         (''previous_classification'', field_req KindString), (''classification'', field_req KindString)]),
      (''settings.key_reveal_gate_attempt'', TypeSpec_of 1 RetentionSecurity [OutcomeSuccess, OutcomeDenied,
         OutcomeFailure] [TrailTenant] [(''key_id'', field_req KindString), (''name'',
         field_req KindFreeText), (''gate'', field_req KindString)]),
      (''definitions.plan_created'', hierarchyEvent [(''plan_id'', field_req KindString), (''additive'',
         field_req KindBool), (''deletions_present'', field_req KindBool)]),
      (''definitions.applied'', hierarchyEvent [(''plan_id'', field_req KindString), (''revision'',
         field_req KindInt), (''commit'', field_opt KindFreeText), (''ref'', field_opt KindFreeText),
         (''actor'', field_opt KindFreeText)]),
      (''definitions.apply_rejected_stale'', TypeSpec_of 1 RetentionSecurity [OutcomeDenied] [TrailTenant]
         [(''plan_id'', field_req KindString), (''moved'', field_req KindString)]),
      (''definitions.deletion_refused'', TypeSpec_of 1 RetentionSecurity [OutcomeDenied] [TrailTenant]
         [(''plan_id'', field_req KindString)]),
      (''definitions.additive_modification_refused'', TypeSpec_of 1 RetentionSecurity [OutcomeDenied]
         [TrailTenant] [(''name'', field_req KindFreeText)]),
      (''settings.definitions_source_changed'', hierarchyEvent [(''previous_source'', field_req KindString),
         (''source'', field_req KindString)]),
      (''settings.machine_reveal_changed'', hierarchyEvent [(''previous_enabled'', field_req KindBool),
         (''enabled'', field_req KindBool)]),
      (''value.set'', hierarchyEvent [(''key_id'', field_req KindString), (''name'',
         field_req KindFreeText), (''classification'', field_req KindString)]),
      (''value.cleared'', hierarchyEvent [(''key_id'', field_req KindString), (''name'',
         field_req KindFreeText), (''classification'', field_req KindString)]),
      (''disclosure.value_revealed'', hierarchyEvent [(''parameters'', FieldSpec KindFreeTextMap
         False None [] False 0 32 256 False), (''key_id'', field_req KindString), (''name'',
         field_req KindFreeText), (''surface'', field_req KindString), (''revision'', field_opt KindInt),
         (''classification'', field_opt KindString), (''served_credential_id'', field_opt KindString),
         (''generation'', field_opt KindString), (''served_from'', field_opt KindString)]),
      (''disclosure.values_exported'', hierarchyEvent [(''parameters'', FieldSpec KindFreeTextMap
         True None [] False 0 32 256 False), (''revision'', field_req KindInt)]),
      (''value.staged'', hierarchyEvent [(''key_id'', field_req KindString), (''name'',
         field_req KindFreeText), (''classification'', field_req KindString), (''operation'',
         field_req KindString), (''version_id'', field_req KindString)]),
      (''revision.published'', hierarchyEvent [(''revision'', field_req KindInt), (''schema_revision'',
         field_req KindInt), (''changed_keys'', field_req KindInt), (''pending_count'', field_req KindInt),
         (''trigger'', field_req KindString)])]"

definition registry_part6 :: "(EventType \<times> TypeSpec) list" where
  "registry_part6 =
     [(''revision.restore_staged'', hierarchyEvent [(''revision'', field_req KindInt), (''key_count'',
         field_req KindInt), (''key'', field_opt KindString)]),
      (''pin.created'', hierarchyEvent pinMutationSchema),
      (''pin.reassigned'', hierarchyEvent pinMutationSchema),
      (''pin.renewed'', hierarchyEvent pinMutationSchema),
      (''pin.released'', hierarchyEvent [(''workload_principal_id'', field_req KindString), (''revision'',
         field_req KindInt)]),
      (''pin.expiry_refused'', hierarchyFailureEvent [(''workload_principal_id'', field_req KindString),
         (''requested_expires_at'', field_req KindString), (''max_days'', field_req KindInt), (''cause'',
         field_req KindString)]),
      (''crypto.token_key_rotated'', TypeSpec_of 1 RetentionSecurity [OutcomeSuccess] [TrailInstance]
         [(''key_version'', field_req KindInt)]),
      (''crypto.scanning_key_rotated'', TypeSpec_of 1 RetentionSecurity [OutcomeSuccess] [TrailInstance]
         [(''key_version'', field_req KindInt)]),
      (''scanning.finding_warned'', hierarchyEvent [(''rule_id'', field_req KindString), (''surface'',
         field_enum True [''value_write'', ''declassification'', ''import_value''])]),
      (''scanning.finding_dismissed'', hierarchyEvent [(''rule_id'', field_req KindString),
         (''dismissal_id'', field_req KindString)]),
      (''scanning.finding_blocked'', hierarchyEvent [(''rule_id'', field_req KindString), (''ingress'',
         field_enum True [''edit'', ''plan'', ''apply''])]),
      (''scanning.finding_overridden'', hierarchyEvent [(''rule_id'', field_req KindString), (''ingress'',
         field_enum True [''edit'', ''plan'', ''apply'']), (''acknowledgement_ref'', field_req KindString)]),
      (''crypto.dek_rotated'', TypeSpec_of 1 RetentionSecurity [OutcomeSuccess] [TrailInstance] [(''scope'',
         field_req KindString), (''org_id'', field_opt KindString), (''project_id'', field_opt KindString),
         (''key_version'', field_req KindInt)]),
      (''crypto.master_key_rotated'', TypeSpec_of 1 RetentionSecurity [OutcomeSuccess] [TrailInstance]
         [(''key_version'', field_req KindInt)]),
      (''crypto.reencrypt_completed'', TypeSpec_of 1 RetentionSecurity [OutcomeSuccess] [TrailTenant,
         TrailInstance] [(''scope'', field_req KindString), (''rows_moved'', field_req KindInt)]),
      (''crypto.root_escrow_verified'', TypeSpec_of 1 RetentionSecurity [OutcomeSuccess] [TrailInstance]
         [(''root_key_epoch'', field_req KindInt), (''separate_custody_asserted'', field_req KindBool)]),
      (''crypto.root_key_rotation_prepared'', TypeSpec_of 1 RetentionSecurity [OutcomeSuccess]
         [TrailInstance] [(''root_key_epoch'', field_req KindInt)]),
      (''crypto.root_key_rotation_verified'', TypeSpec_of 1 RetentionSecurity [OutcomeSuccess]
         [TrailInstance] [(''root_key_epoch'', field_req KindInt)])]"

definition registry_part7 :: "(EventType \<times> TypeSpec) list" where
  "registry_part7 =
     [(''crypto.root_key_rotation_finalized'', TypeSpec_of 1 RetentionSecurity [OutcomeSuccess]
         [TrailInstance] [(''root_key_epoch'', field_req KindInt)]),
      (''disclosure.value_copied'', hierarchyEvent [(''key_id'', field_req KindString), (''name'',
         field_req KindFreeText), (''classification'', field_req KindString), (''source_environment_id'',
         field_req KindString), (''operation'', field_req KindString)]),
      (''value.imported'', hierarchyEvent [(''imported_count'', field_req KindInt), (''skipped_count'',
         field_req KindInt), (''manifest_bound'', field_req KindBool)]),
      (''settings.key_group_created'', hierarchyEvent [(''name'', field_req KindFreeText)]),
      (''settings.key_group_renamed'', hierarchyEvent (renameSchema ''name'')),
      (''settings.key_group_deleted'', hierarchyEvent [(''name'', field_req KindFreeText),
         (''members_released'', field_req KindInt)]),
      (''settings.key_group_membership_changed'', hierarchyEvent [(''name'', field_req KindFreeText),
         (''previous_group_id'', field_opt KindString), (''group_id'', field_opt KindString)]),
      (''grant.created'', TypeSpec_of 1 RetentionSecurity [OutcomeSuccess] [TrailTenant, TrailInstance]
         grantSchema),
      (''grant.modified'', TypeSpec_of 1 RetentionSecurity [OutcomeSuccess] [TrailTenant, TrailInstance]
         grantSchema),
      (''grant.revoked'', TypeSpec_of 1 RetentionSecurity [OutcomeSuccess] [TrailTenant, TrailInstance]
         (merged grantSchema [(''origins_remaining'', field_req KindInt), (''sessions_revoked'',
         field_req KindBool)])),
      (''member.invited'', TypeSpec_of 1 RetentionSecurity [OutcomeSuccess] [TrailTenant, TrailInstance]
         [(''principal_id'', field_req KindString), (''account_id'', field_req KindString), (''username'',
         field_req KindFreeText), (''scope'', field_req KindString), (''template'', field_opt KindString),
         (''grants_created'', field_req KindInt), (''authority_id'', field_req KindString), (''delivery'',
         field_enum True [''file'', ''terminal'', ''stdout'', ''response''])]),
      (''grant.template_applied'', TypeSpec_of 1 RetentionSecurity [OutcomeSuccess] [TrailTenant,
         TrailInstance] [(''template'', field_req KindString), (''target_principal'', field_req KindString),
         (''scope'', field_req KindString), (''capability_count'', field_req KindInt), (''grants_created'',
         field_req KindInt), (''grants_deduped'', field_req KindInt), (''grants_joined'',
         field_req KindInt), (''grants_unchanged'', field_req KindInt), (''self_grant'',
         field_req KindBool), (''capabilities'', field_req KindString)])]"

definition registry_part8 :: "(EventType \<times> TypeSpec) list" where
  "registry_part8 =
     [(''settings.reauthentication_window_changed'', TypeSpec_of 1 RetentionSecurity [OutcomeSuccess]
         [TrailTenant] [(''previous_window_seconds'', field_req KindInt), (''window_seconds'',
         field_req KindInt), (''previous_configured_seconds'', field_req KindInt), (''configured_seconds'',
         field_req KindInt), (''previous_inherited'', field_req KindBool), (''inherited'',
         field_req KindBool), (''widened'', field_req KindBool), (''protected'', field_req KindBool)]),
      (''settings.protected_flag_changed'', TypeSpec_of 1 RetentionSecurity [OutcomeSuccess] [TrailTenant]
         [(''protected'', field_req KindBool), (''window_seconds'', field_req KindInt)]),
      (''settings.org_retention_changed'', TypeSpec_of 1 RetentionSecurity [OutcomeSuccess] [TrailTenant]
         [(''previous_policy'', field_req KindString), (''policy'', field_req KindString)]),
      (''settings.project_retention_changed'', TypeSpec_of 1 RetentionSecurity [OutcomeSuccess]
         [TrailTenant] [(''previous_policy'', field_req KindString), (''policy'', field_req KindString),
         (''previous_inherited'', field_req KindBool), (''inherited'', field_req KindBool)]),
      (''retention.health_read'', TypeSpec_of 1 RetentionAccess [OutcomeSuccess] [TrailInstance]
         [(''recorded'', field_req KindBool), (''stale'', field_req KindBool), (''stale_after_seconds'',
         field_req KindInt), (''peak_project_bytes'', field_req KindInt), (''storage_warn'',
         field_req KindBool)]),
      (''system.update_status_read'', TypeSpec_of 1 RetentionAccess [OutcomeSuccess] [TrailInstance]
         [(''channel'', field_enum True [''stable'', ''nightly'', ''off'']), (''current_version'',
         field_req KindString)]),
      (''system.update_requested'', TypeSpec_of 1 RetentionSecurity [OutcomeIntent] [TrailInstance]
         [(''version'', field_req KindString), (''backend'', field_enum True [''flux'', ''compose'',
         ''systemd'', ''disabled''])]),
      (''system.update_outcome'', TypeSpec_of 1 RetentionSecurity [OutcomeSuccess, OutcomeFailure]
         [TrailInstance] [(''version'', field_req KindString), (''backend'', field_enum True [''flux'',
         ''compose'', ''systemd'', ''disabled'']), (''state'', field_enum True [''succeeded'', ''failed'',
         ''rolled-back'', ''rollback-failed'']), (''failure_code'', field_opt KindString)]),
      (''retention.payload_gc'', TypeSpec_of 1 RetentionSecurity [OutcomeSuccess] [TrailTenant] [(''org'',
         field_req KindString), (''project'', field_req KindString), (''environment'',
         field_req KindString), (''revision'', field_req KindInt), (''snapshot_id'', field_req KindString),
         (''policy'', field_req KindString), (''collected_at'', field_req KindString)]),
      (''retention.audit_policy_changed'', TypeSpec_of 1 RetentionSecurity [OutcomeSuccess] [TrailInstance]
         [(''previous_access_days'', field_req KindInt), (''previous_security_days'', field_req KindInt),
         (''access_days'', field_req KindInt), (''security_days'', field_req KindInt)])]"

definition registry_part9 :: "(EventType \<times> TypeSpec) list" where
  "registry_part9 =
     [(''retention.audit_pruned'', TypeSpec_of 1 RetentionSecurity [OutcomeSuccess] [TrailInstance]
         [(''trail'', field_enum True [''tenant'', ''instance'']), (''category'', field_req KindString),
         (''deleted'', field_nonneg True), (''from_time'', field_req KindString), (''through_time'',
         field_req KindString), (''access_days'', field_req KindInt), (''security_days'',
         field_req KindInt)]),
      (''retention.prune_run'', TypeSpec_of 1 RetentionSecurity [OutcomeSuccess, OutcomeFailure]
         [TrailInstance] [(''started_at'', field_req KindString), (''finished_at'', field_req KindString),
         (''candidates'', field_req KindInt), (''collected'', FieldSpec KindObject True (Some
         [(''revision_payloads'', field_req KindInt)]) [] False 0 0 0 False), (''error_class'',
         field_opt KindString)]),
      (''recovery.break_glass_grant'', TypeSpec_of 1 RetentionSecurity [OutcomeSuccess] [TrailInstance]
         [(''target_principal'', field_req KindString), (''capability'', field_req KindString), (''scope'',
         field_req KindString), (''authority'', field_req KindString), (''grant_created'',
         field_req KindBool)]),
      (''approval.policy_changed'', TypeSpec_of 1 RetentionSecurity [OutcomeSuccess] [TrailTenant]
         [(''action'', field_enum True [''created'', ''updated'', ''disabled'', ''deleted'']),
         (''environment'', field_req KindString), (''min_approvals'', field_nonneg True),
         (''self_approval'', field_req KindBool), (''enabled'', field_req KindBool), (''approver_count'',
         field_nonneg True), (''bypasser_count'', field_nonneg True)]),
      (''approval.policy_read'', TypeSpec_of 1 RetentionSecurity [OutcomeSuccess] [TrailTenant]
         [(''policy_count'', field_nonneg True)]),
      (''approval.requested'', TypeSpec_of 1 RetentionSecurity [OutcomeSuccess] [TrailTenant]
         [(''policy_id'', field_req KindString), (''policy_version'', field_nonneg True), (''change_count'',
         field_nonneg True), (''base_revision'', field_nonneg True), (''preview_digest'', FieldSpec
         KindString True None [] False 0 0 0 True)]),
      (''approval.voted'', TypeSpec_of 1 RetentionSecurity [OutcomeSuccess] [TrailTenant] [(''decision'',
         field_enum True [''approve'', ''reject'']), (''self_approval'', field_req KindBool)]),
      (''approval.merged'', TypeSpec_of 1 RetentionSecurity [OutcomeSuccess] [TrailTenant] [(''revision'',
         field_nonneg True), (''approvals'', field_nonneg True), (''preview_digest'', FieldSpec KindString
         True None [] False 0 0 0 True)]),
      (''approval.invalidated'', TypeSpec_of 1 RetentionSecurity [OutcomeSuccess] [TrailTenant] [(''cause'',
         field_enum True [''policy_changed'', ''draft_edited'', ''env_advanced'', ''approver_removed''])]),
      (''approval.expired'', TypeSpec_of 1 RetentionSecurity [OutcomeSuccess] [TrailTenant] [(''policy_id'',
         field_req KindString), (''expired_at'', field_req KindString)])]"

definition registry_part10 :: "(EventType \<times> TypeSpec) list" where
  "registry_part10 =
     [(''approval.bypassed'', TypeSpec_of 1 RetentionSecurity [OutcomeSuccess] [TrailTenant] [(''reason'',
         FieldSpec KindFreeText True None [] False 0 0 512 False), (''revision'', field_nonneg True),
         (''preview_digest'', FieldSpec KindString True None [] False 0 0 0 True)]),
      (''backup.exported'', TypeSpec_of 1 RetentionSecurity [OutcomeSuccess] [TrailInstance] [(''trigger'',
         field_req KindString), (''recipient_mode'', field_req KindString), (''recipient_count'',
         field_req KindInt), (''engine'', field_req KindString), (''schema_version'', field_req KindInt),
         (''artifact_bytes'', field_req KindInt), (''destination'', field_req KindFreeText)]),
      (''backup.export_skipped'', TypeSpec_of 1 RetentionSecurity [OutcomeFailure] [TrailInstance]
         [(''trigger'', field_req KindString), (''reason'', field_req KindString)]),
      (''restore.completed'', TypeSpec_of 1 RetentionSecurity [OutcomeSuccess] [TrailInstance] [(''engine'',
         field_req KindString), (''schema_version'', field_req KindInt), (''credential_epoch'',
         field_req KindInt), (''restore_epoch'', field_req KindInt), (''pending_principals'',
         field_req KindInt), (''authority'', field_req KindString)]),
      (''restore.principal_reconciled'', TypeSpec_of 1 RetentionSecurity [OutcomeSuccess] [TrailInstance]
         [(''target_principal'', field_req KindString), (''restore_epoch'', field_req KindInt),
         (''pending_principals'', field_req KindInt), (''authority'', field_req KindString)]),
      (''backup.export_failed'', TypeSpec_of 1 RetentionSecurity [OutcomeFailure] [TrailInstance]
         [(''trigger'', field_req KindString), (''error_class'', field_req KindString)]),
      (''restore.drill_completed'', TypeSpec_of 1 RetentionSecurity [OutcomeSuccess, OutcomeFailure]
         [TrailInstance] [(''archive'', field_req KindString), (''archive_digest'', field_req KindString),
         (''engine'', field_req KindString), (''schema_version'', field_req KindInt), (''binary_version'',
         field_req KindString), (''elapsed_ms'', field_req KindInt), (''rto_target_ms'', field_req KindInt),
         (''rto_met'', field_req KindBool), (''values_readable'', field_req KindBool),
         (''reconciled_principal'', field_req KindString), (''credential_minted'', field_req KindBool),
         (''failed_step'', field_req KindString), (''authority'', field_req KindString)]),
      (''grant.membership_read'', TypeSpec_of 1 RetentionAccess [OutcomeSuccess] [TrailTenant,
         TrailInstance] [(''scope'', field_req KindString), (''row_count'', field_req KindInt)])]"

definition registry_part11 :: "(EventType \<times> TypeSpec) list" where
  "registry_part11 =
     [(''identity.service_account_created'', TypeSpec_of 1 RetentionSecurity [OutcomeSuccess] [TrailTenant]
         [(''service_account_id'', field_req KindString), (''target_principal'', field_req KindString),
         (''principal_class'', field_req KindString), (''name'', field_req KindFreeText)]),
      (''identity.service_account_deleted'', TypeSpec_of 1 RetentionSecurity [OutcomeSuccess] [TrailTenant]
         [(''service_account_id'', field_req KindString), (''target_principal'', field_req KindString),
         (''principal_class'', field_req KindString), (''credentials_revoked'', field_req KindInt)]),
      (''identity.credential_minted'', TypeSpec_of 1 RetentionSecurity [OutcomeSuccess] [TrailTenant]
         [(''service_account_id'', field_req KindString), (''target_principal'', field_req KindString),
         (''principal_class'', field_req KindString), (''credential_id'', field_req KindString),
         (''credential_kind'', field_req KindString), (''lifetime'', field_req KindString), (''expires_at'',
         field_opt KindString), (''clamped'', field_req KindBool), (''reveal_environments'',
         field_req KindStringList), (''reveal_history_environments'', field_req KindStringList)]),
      (''identity.credential_revoked'', TypeSpec_of 1 RetentionSecurity [OutcomeSuccess] [TrailTenant]
         [(''service_account_id'', field_req KindString), (''target_principal'', field_req KindString),
         (''principal_class'', field_req KindString), (''credential_id'', field_req KindString), (''cause'',
         field_req KindString), (''credential_kind'', field_opt KindString)]),
      (''identity.grant_widened'', TypeSpec_of 1 RetentionSecurity [OutcomeSuccess] [TrailTenant]
         [(''target_principal'', field_req KindString), (''principal_class'', field_req KindString),
         (''capability'', field_req KindString), (''scope'', field_req KindString),
         (''newly_reachable_current'', field_req KindStringList), (''newly_reachable_historical'',
         field_req KindStringList)]),
      (''identity.lifetime_policy_changed'', TypeSpec_of 1 RetentionSecurity [OutcomeSuccess]
         [TrailInstance] [(''max_finite_lifetime_seconds'', field_req KindInt), (''allow_indefinite'',
         field_req KindBool), (''max_live_credentials'', field_req KindInt), (''affected_credentials'',
         field_req KindStringList), (''clamped_count'', field_req KindInt)]),
      (''identity.credentials_listed'', TypeSpec_of 1 RetentionAccess [OutcomeSuccess] [TrailTenant]
         [(''scope'', field_req KindString), (''row_count'', field_req KindInt)]),
      (''identity.lifetime_policy_read'', TypeSpec_of 1 RetentionAccess [OutcomeSuccess] [TrailInstance] [])]"

definition registry_part12 :: "(EventType \<times> TypeSpec) list" where
  "registry_part12 =
     [(''identity.binding_created'', TypeSpec_of 1 RetentionSecurity [OutcomeSuccess] [TrailTenant]
         [(''service_account_id'', field_req KindString), (''target_principal'', field_req KindString),
         (''principal_class'', field_req KindString), (''credential_id'', field_req KindString),
         (''issuer_id'', field_req KindString), (''issuer'', field_req KindFreeText), (''issuer_type'',
         field_req KindString), (''subject'', field_req KindFreeText), (''audience'',
         field_req KindFreeText), (''pinned_claims'', field_req KindStringList), (''lifetime'',
         field_req KindString), (''expires_at'', field_opt KindString), (''clamped'', field_req KindBool),
         (''replaces'', field_req KindString), (''reveal_environments'', field_req KindStringList),
         (''reveal_history_environments'', field_req KindStringList)]),
      (''identity.binding_reactivated'', TypeSpec_of 1 RetentionSecurity [OutcomeSuccess] [TrailTenant]
         [(''service_account_id'', field_req KindString), (''target_principal'', field_req KindString),
         (''principal_class'', field_req KindString), (''credential_id'', field_req KindString),
         (''reactivated_at'', field_req KindString), (''skew_seconds'', field_req KindInt)]),
      (''identity.federation_issuer_changed'', TypeSpec_of 1 RetentionSecurity [OutcomeSuccess]
         [TrailInstance] [(''issuer_id'', field_req KindString), (''issuer'', field_req KindFreeText),
         (''issuer_type'', field_req KindString), (''change'', field_req KindString), (''jwks_mode'',
         field_req KindString), (''ca_bundle_sha256'', field_opt KindString), (''refused_audiences'',
         field_req KindStringList)]),
      (''identity.federation_issuer_read'', TypeSpec_of 1 RetentionAccess [OutcomeSuccess] [TrailInstance]
         [(''row_count'', field_req KindInt)]),
      (''identity.federation_refused'', TypeSpec_of 1 RetentionSecurity [OutcomeFailure] [TrailInstance]
         [(''issuer'', field_req KindFreeText), (''cause'', field_req KindString)]),
      (''identity.jwks_refresh_failed'', TypeSpec_of 1 RetentionSecurity [OutcomeFailure] [TrailInstance]
         [(''issuer'', field_req KindFreeText), (''age_seconds'', field_req KindInt), (''served_stale'',
         field_req KindBool), (''staleness_breached'', field_req KindBool), (''refresh_throttled'',
         field_req KindBool)]),
      (''remote.added'', TypeSpec_of 1 RetentionSecurity [OutcomeSuccess] [TrailInstance] [(''remote_id'',
         field_req KindString), (''name'', field_req KindFreeText), (''url'', field_req KindString),
         (''spki_pin'', field_req KindString), (''remote_identity'', field_req KindString)]),
      (''remote.removed'', TypeSpec_of 1 RetentionSecurity [OutcomeSuccess] [TrailInstance] [(''remote_id'',
         field_req KindString), (''name'', field_req KindFreeText), (''url'', field_req KindString)])]"

definition registry_part13 :: "(EventType \<times> TypeSpec) list" where
  "registry_part13 =
     [(''remote.renamed'', TypeSpec_of 1 RetentionSecurity [OutcomeSuccess] [TrailInstance] [(''remote_id'',
         field_req KindString), (''old_name'', field_req KindFreeText), (''new_name'',
         field_req KindFreeText)]),
      (''remote.fetch_failed'', TypeSpec_of 1 RetentionSecurity [OutcomeFailure] [TrailInstance]
         [(''remote_id'', field_req KindString), (''name'', field_req KindFreeText), (''fetch_outcome'',
         field_req KindString)]),
      (''remote.directory_viewed'', TypeSpec_of 1 RetentionAccess [OutcomeSuccess] [TrailInstance]
         [(''remote_count'', field_req KindInt), (''stale_count'', field_req KindInt)]),
      (''remote.credential_minted'', TypeSpec_of 1 RetentionSecurity [OutcomeSuccess] [TrailInstance]
         [(''connection_id'', field_req KindString), (''target_principal'', field_req KindString),
         (''label'', field_req KindFreeText), (''credential_kind'', field_req KindString), (''lifetime'',
         field_req KindString), (''expires_at'', field_opt KindString), (''clamped'', field_req KindBool)]),
      (''remote.credential_revoked'', TypeSpec_of 1 RetentionSecurity [OutcomeSuccess] [TrailInstance]
         [(''connection_id'', field_req KindString), (''target_principal'', field_req KindString),
         (''label'', field_req KindFreeText)]),
      (''remote.credentials_listed'', TypeSpec_of 1 RetentionAccess [OutcomeSuccess] [TrailInstance]
         [(''row_count'', field_req KindInt)]),
      (''remote.directory_served'', TypeSpec_of 1 RetentionAccess [OutcomeSuccess] [TrailInstance]
         [(''connection_id'', field_req KindString), (''label'', field_req KindFreeText),
         (''principal_class'', field_req KindString), (''org_count'', field_req KindInt),
         (''project_count'', field_req KindInt)]),
      (''remote.origin_allowlist_changed'', TypeSpec_of 1 RetentionSecurity [OutcomeSuccess] [TrailInstance]
         [(''origin'', field_req KindString), (''change'', field_enum True [''added'', ''removed'']),
         (''sessions_revoked'', field_req KindInt)]),
      (''remote.origin_allowlist_read'', TypeSpec_of 1 RetentionAccess [OutcomeSuccess] [TrailInstance]
         [(''row_count'', field_req KindInt)])]"

definition registry_part14 :: "(EventType \<times> TypeSpec) list" where
  "registry_part14 =
     [(''remote.workspace_handoff_read'', TypeSpec_of 1 RetentionAccess [OutcomeSuccess] [TrailInstance]
         [(''handoff_id'', field_req KindString), (''origin'', field_req KindString)]),
      (''remote.workspace_session_issued'', TypeSpec_of 1 RetentionSecurity [OutcomeSuccess] [TrailInstance]
         [(''session_id'', field_req KindString), (''origin'', field_req KindString), (''handoff_id'',
         field_req KindString), (''purpose'', field_req KindString)]),
      (''remote.workspace_session_revoked'', TypeSpec_of 1 RetentionSecurity [OutcomeSuccess]
         [TrailInstance] [(''session_id'', field_req KindString), (''origin'', field_req KindString),
         (''cause'', field_req KindString)]),
      (''remote.handoff_failed'', TypeSpec_of 1 RetentionSecurity [OutcomeFailure] [TrailInstance]
         [(''handoff_id'', field_req KindString), (''origin'', field_req KindString), (''stage'',
         field_enum True [''start'', ''callback'', ''redeem'']), (''cause'', field_req KindString)]),
      (''identity.delivery_fetched'', TypeSpec_of 1 RetentionAccess [OutcomeSuccess] [TrailTenant]
         [(''parameters'', FieldSpec KindFreeTextMap False None [] False 0 32 256 False), (''disposition'',
         field_req KindString), (''credential_id'', field_req KindString), (''credential_kind'',
         field_req KindString), (''principal_class'', field_req KindString), (''scope'',
         field_req KindString), (''key_count'', field_req KindInt), (''projection'',
         field_enum True [''full'', ''config-only'']), (''acknowledged_keys'', FieldSpec KindStringList
         True None [] False 0 (int MaxAcknowledgedKeys) 128 False), (''delivered_count'',
         field_req KindInt), (''change_token_version'', field_req KindString), (''cursor_presented'',
         field_req KindBool)]),
      (''identity.offline_records_reconciled'', TypeSpec_of 1 RetentionAccess [OutcomeSuccess] [TrailTenant]
         [(''accepted'', field_req KindInt), (''duplicates'', field_req KindInt), (''credential_id'',
         field_req KindString), (''scope'', field_req KindString)])]"

definition registry_part15 :: "(EventType \<times> TypeSpec) list" where
  "registry_part15 =
     [(''identity.disclosure'', TypeSpec_of 1 RetentionAccess [OutcomeSuccess] [TrailTenant] [(''key'',
         field_req KindFreeText), (''classification'', field_req KindString), (''revision'',
         field_req KindInt), (''credential_id'', field_req KindString), (''credential_kind'',
         field_req KindString), (''principal_class'', field_req KindString), (''scope'',
         field_req KindString), (''projection'', field_enum True [''full'', ''config-only''])]),
      (''scim.binding_created'', scimAdminEvent scimBindingSchema),
      (''scim.binding_deleted'', scimAdminEvent scimBindingSchema),
      (''scim.mapping_created'', scimAdminEvent scimMappingSchema),
      (''scim.mapping_updated'', scimAdminEvent scimMappingSchema),
      (''scim.mapping_deleted'', scimAdminEvent scimMappingSchema),
      (''scim.credential_minted'', scimAdminEvent scimCredentialSchema),
      (''scim.credential_rotated'', scimAdminEvent scimCredentialSchema),
      (''scim.credential_revoked'', scimAdminEvent scimCredentialSchema),
      (''scim.user_provisioned'', scimWireEvent [(''binding'', field_req KindString), (''resource_id'',
         field_req KindString), (''account_id'', field_req KindString), (''disposition'',
         field_enum True [''create'', ''attach'']), (''subject_digest'', FieldSpec KindString True None []
         False 0 0 0 True)]),
      (''scim.user_updated'', scimWireEvent [(''binding'', field_req KindString), (''resource_id'',
         field_req KindString), (''changed_attributes'', FieldSpec KindStringList True None []
         False 0 50 256 False)]),
      (''scim.user_deprovisioned'', scimWireEvent scimDeprovisionSchema),
      (''scim.user_deleted'', scimWireEvent (merged scimDeprovisionSchema [(''member_references_removed'',
         field_nonneg True)])),
      (''scim.group_created'', scimWireEvent scimGroupSchema),
      (''scim.group_updated'', scimWireEvent scimGroupSchema),
      (''scim.group_deleted'', scimWireEvent scimGroupSchema),
      (''scim.group_membership_changed'', scimWireEvent [(''binding'', field_req KindString), (''group_id'',
         field_req KindString), (''added_accounts'', FieldSpec KindStringList True None []
         False 0 200 256 False), (''removed_accounts'', FieldSpec KindStringList True None []
         False 0 200 256 False)]),
      (''scim.lockout_retention'', scimLockoutEvent [(''binding'', field_req KindString), (''principal'',
         field_req KindString), (''grant_id'', field_req KindString), (''cause'',
         field_enum True [''deprovision'', ''user_deleted'', ''member_removed'', ''group_deleted'',
         ''mapping_deleted'', ''binding_deleted''])]),
      (''scim.lockout_retention_released'', scimLockoutEvent [(''binding'', field_req KindString),
         (''principal'', field_req KindString), (''grant_id'', field_req KindString), (''cause'',
         field_enum True [''deprovision'', ''user_deleted'', ''member_removed'', ''group_deleted'',
         ''mapping_deleted'', ''binding_deleted'']), (''curing_grant_id'', field_req KindString)]),
      (''scim.attention_entered'', scimWireEvent scimAttentionSchema),
      (''scim.attention_cleared'', scimWireEvent scimAttentionSchema),
      (''scim.directory_read'', TypeSpec_of 1 RetentionAccess [OutcomeSuccess] [TrailTenant] [(''binding'',
         field_req KindString), (''resource_type'', field_enum True [''user'', ''group'', ''discovery'']),
         (''filter_shape'', field_enum True [''none'', ''userName_eq'', ''externalId_eq'',
         ''displayName_eq'']), (''page'', FieldSpec KindObject True (Some scimPageSchema) []
         False 0 0 0 False)])]"

definition registry_part16 :: "(EventType \<times> TypeSpec) list" where
  "registry_part16 =
     [(''scim.credential_refused'', TypeSpec_of 1 RetentionSecurity [OutcomeFailure] [TrailInstance]
         [(''binding'', field_req KindString), (''credential_id'', field_req KindString), (''cause'',
         field_enum True [''binding-mismatch''])]),
      (''scim.admin_read'', TypeSpec_of 1 RetentionAccess [OutcomeSuccess] [TrailTenant] [(''org'',
         field_req KindString), (''binding'', field_opt KindString), (''resource_type'',
         field_enum True [''binding'', ''mapping'', ''credential'', ''directory'']), (''row_count'',
         field_req KindInt)]),
      (''adapter.push_intent'', TypeSpec_of 1 RetentionSecurity [OutcomeIntent] [TrailTenant] [(''surface'',
         field_enum True [''secret'', ''variable'', ''environment'']), (''effective_name'',
         field_req KindString), (''disposition'', field_enum True [''create'', ''update'', ''delete''])]),
      (''adapter.push_outcome'', TypeSpec_of 1 RetentionSecurity [OutcomeSuccess, OutcomeFailure,
         OutcomeUnknown] [TrailTenant] [(''surface'', field_enum True [''secret'', ''variable'',
         ''environment'']), (''effective_name'', field_req KindString), (''disposition'',
         field_enum True [''create'', ''update'', ''delete''])]),
      (''adapter.configure'', adapterLifecycleEvent [(''mutation'', field_req KindString),
         (''previous_authority'', field_opt KindString), (''authority'', field_req KindString)]),
      (''adapter.credential_replace'', adapterLifecycleEvent [(''credential_present'', field_req KindBool),
         (''previous_authority'', field_req KindString), (''authority'', field_req KindString)]),
      (''adapter.credential_revoke'', adapterLifecycleEvent [(''credential_present'', field_req KindBool)]),
      (''adapter.adopt'', adapterLifecycleEvent [(''artifact_id'', field_req KindString),
         (''target_generation'', field_req KindInt), (''entries'', field_req KindStringList)]),
      (''adapter.inspect'', TypeSpec_of 1 RetentionAccess [OutcomeSuccess, OutcomeDenied] [TrailTenant]
         [(''row_count'', field_req KindInt)]),
      (''dynamic.provider_configured'', adapterLifecycleEvent [(''kind'', field_enum True [''postgres'']),
         (''authority'', field_req KindString)]),
      (''dynamic.provider_credential_replace'', adapterLifecycleEvent [(''credential_present'',
         field_req KindBool)]),
      (''dynamic.provider_credential_revoke'', adapterLifecycleEvent [(''credential_present'',
         field_req KindBool)]),
      (''dynamic.provider_deleted'', adapterLifecycleEvent [(''revoked_lease_count'', field_req KindInt)]),
      (''dynamic.provider_inspected'', TypeSpec_of 1 RetentionAccess [OutcomeSuccess, OutcomeDenied]
         [TrailTenant] [(''row_count'', field_req KindInt)]),
      (''dynamic.lease_transition_intent'', TypeSpec_of 1 RetentionSecurity [OutcomeIntent] [TrailTenant]
         [(''kind'', field_enum True [''mint'', ''renew'', ''revoke'', ''expire'']), (''provider_handle'',
         field_req KindString)]),
      (''dynamic.lease_transition_outcome'', TypeSpec_of 1 RetentionSecurity [OutcomeSuccess,
         OutcomeFailure, OutcomeUnknown] [TrailTenant] [(''kind'', field_enum True [''mint'', ''renew'',
         ''revoke'', ''expire'']), (''provider_handle'', field_req KindString)]),
      (''dynamic.lease_disclosed'', TypeSpec_of 1 RetentionAccess [OutcomeSuccess] [TrailTenant]
         [(''provider_handle'', field_req KindString), (''principal_class'', field_req KindString),
         (''expires_at'', field_opt KindString)]),
      (''dynamic.lease_settle_requested'', TypeSpec_of 1 RetentionSecurity [OutcomeSuccess] [TrailTenant]
         [(''provider_handle'', field_req KindString)])]"

definition registry_part17 :: "(EventType \<times> TypeSpec) list" where
  "registry_part17 =
     [(''adapter.plan'', adapterLifecycleEvent [(''changes'', field_req KindStringList)]),
      (''adapter.test'', adapterLifecycleEvent [(''version'', field_opt KindString), (''destination_id'',
         field_opt KindInt)]),
      (''adapter.sync_requested'', TypeSpec_of 1 RetentionSecurity [OutcomeSuccess, OutcomeDenied]
         [TrailTenant] [(''trigger'', field_enum True [''manual'', ''on-publish'', ''resume''])]),
      (''adapter.key_delivered'', TypeSpec_of 1 RetentionSecurity [OutcomeSuccess] [TrailTenant]
         [(''key_id'', field_req KindString), (''surface'', field_enum True [''secret'', ''variable'']),
         (''effective_name'', field_req KindString)]),
      (''adapter.abort'', TypeSpec_of 1 RetentionSecurity [OutcomeFailure] [TrailTenant] [(''cause'',
         field_enum True [''authority'', ''generation''])]),
      (''adapter.scrub'', TypeSpec_of 1 RetentionSecurity [OutcomeSuccess, OutcomeFailure] [TrailTenant]
         [(''orphaned'', field_req KindStringList)]),
      (''adapter.superseded'', TypeSpec_of 1 RetentionSecurity [OutcomeSuccess] [TrailTenant]
         [(''previous_job_id'', field_req KindString), (''job_id'', field_req KindString)])]"

definition registry :: "(EventType \<times> TypeSpec) list" where
  "registry = registry_part1 @ registry_part2 @ registry_part3 @ registry_part4 @ registry_part5 @
     registry_part6 @ registry_part7 @ registry_part8 @ registry_part9 @ registry_part10 @ registry_part11 @
     registry_part12 @ registry_part13 @ registry_part14 @ registry_part15 @ registry_part16 @
     registry_part17"

definition Category :: "EventType \<Rightarrow> go_string" where
  "Category t = (if CHR ''.'' \<in> set t then takeWhile (\<lambda>c. c \<noteq> CHR ''.'') t else [])"

definition Spec :: "EventType \<Rightarrow> TypeSpec option" where
  "Spec t = map_of registry t"

definition Types :: "EventType list" where
  "Types = sort (remdups (map fst registry))"

end
