(* ===== verification/Authz_Registry.thy ===== *)
theory Authz_Registry
  imports Audit_Registry
begin

text \<open>
  \<open>internal/authz/registry.go\<close>: formulas, operation rows, the validation that builds the
  immutable registry, and its read-only lookups. A Go map is its association list, in any
  iteration order; \<open>audit.Spec\<close>, the closed event registry of \<open>internal/audit\<close>, enters the
  validation as the predicate \<open>registered\<close>, and the pinned read-only store operations as
  \<open>readOnly\<close>.
\<close>

type_synonym Operation = go_string
type_synonym StoreOp = go_string

datatype Class = ClassTenant | ClassInstance | ClassUnauthenticated | ClassSystem | ClassStub

record Atom =
  atom_Cap :: Capability
  atom_At :: Level

type_synonym Formula = "Atom list"

abbreviation atom :: "Capability \<Rightarrow> Level \<Rightarrow> Atom" where
  "atom c l \<equiv> \<lparr>atom_Cap = c, atom_At = l\<rparr>"

record opSpec =
  os_class :: Class
  os_level :: Level
  os_formula :: Formula
  os_storeOps :: "(StoreOp \<times> bool) list"
  os_postGrantForbidden :: bool
  os_events :: "EventType list"
  os_auditedNone :: bool
  os_reviewExempt :: bool

record Registry =
  reg_ops :: "Operation \<Rightarrow> opSpec option"

record authorizationSpec =
  as_class :: Class
  as_level :: Level
  as_formula :: Formula

datatype registry_error =
  UnregisterableClass | NonTenantLevel | InstanceLevel | EmptyFormula | UnknownCapability
| InvalidLevel | DeeperThanCapability | DeeperThanOperation | FalseStoreOp | DispositionCount nat
| UnreviewedExemption | EmptyEvent | UnregisteredEvent | DuplicateEvent | NoneOnNonTenant
| NoneNonRead | NoneMutates | EmptyOperationKey

definition OpDefinitionsPlanGet :: Operation where "OpDefinitionsPlanGet = ''definitions.plan.get''"
definition OpSCIMDiscovery :: Operation where "OpSCIMDiscovery = ''scim-discovery.read''"

section \<open>Lookups\<close>

definition authorization_spec :: "Registry \<Rightarrow> Operation \<Rightarrow> authorizationSpec option" where
  "authorization_spec r op =
     (case reg_ops r op of None \<Rightarrow> None
      | Some spec \<Rightarrow> Some \<lparr>as_class = os_class spec, as_level = os_level spec, as_formula = os_formula spec\<rparr>)"

definition permitsStoreOp :: "Registry \<Rightarrow> Operation \<Rightarrow> StoreOp \<Rightarrow> bool" where
  "permitsStoreOp r op storeOp =
     (case reg_ops r op of None \<Rightarrow> False
      | Some spec \<Rightarrow> map_of (os_storeOps spec) storeOp = Some True)"

definition permitsEvent :: "Registry \<Rightarrow> Operation \<Rightarrow> EventType \<Rightarrow> bool" where
  "permitsEvent r op event =
     (case reg_ops r op of None \<Rightarrow> False | Some spec \<Rightarrow> event \<in> set (os_events spec))"

section \<open>Validation\<close>

definition registrableClasses :: "Class list" where
  "registrableClasses = [ClassTenant, ClassInstance]"

definition tenantLevel :: "Level \<Rightarrow> bool" where
  "tenantLevel l \<longleftrightarrow> l = LevelOrg \<or> l = LevelProject \<or> l = LevelEnv"

definition validLevel :: "Level \<Rightarrow> bool" where
  "validLevel l \<longleftrightarrow> l = LevelNone \<or> tenantLevel l"

text \<open>The loop over the atoms of a formula. A missing deepest level reads as Go's zero value.\<close>

fun validateAtoms :: "Level \<Rightarrow> Formula \<Rightarrow> registry_error option" where
  "validateAtoms level [] = None"
| "validateAtoms level (a # as) =
     (if \<not> IsCapability (atom_Cap a) then Some UnknownCapability
      else if \<not> validLevel (atom_At a) then Some InvalidLevel
      else if atom_At a > (case DeepestLevel (atom_Cap a) of None \<Rightarrow> LevelNone | Some d \<Rightarrow> d)
        then Some DeeperThanCapability
      else if atom_At a > level then Some DeeperThanOperation
      else validateAtoms level as)"

fun validateEvents :: "(EventType \<Rightarrow> bool) \<Rightarrow> EventType set \<Rightarrow> EventType list \<Rightarrow> registry_error option" where
  "validateEvents registered seen [] = None"
| "validateEvents registered seen (et # ets) =
     (if et = [] then Some EmptyEvent
      else if \<not> registered et then Some UnregisteredEvent
      else if et \<in> seen then Some DuplicateEvent
      else validateEvents registered (insert et seen) ets)"

definition validateAuditDisposition ::
  "(EventType \<Rightarrow> bool) \<Rightarrow> (StoreOp \<Rightarrow> bool) \<Rightarrow> Operation \<Rightarrow> opSpec \<Rightarrow> registry_error option" where
  "validateAuditDisposition registered readOnly op spec =
     (let n = of_bool (os_events spec \<noteq> []) + of_bool (os_auditedNone spec) + of_bool (os_reviewExempt spec) in
      if n \<noteq> (1 :: nat) then Some (DispositionCount n)
      else if os_reviewExempt spec \<and> op \<noteq> OpDefinitionsPlanGet \<and> op \<noteq> OpSCIMDiscovery
        then Some UnreviewedExemption
      else (case validateEvents registered {} (os_events spec) of Some e \<Rightarrow> Some e
        | None \<Rightarrow>
          (if os_auditedNone spec then
             (if os_class spec \<noteq> ClassTenant then Some NoneOnNonTenant
              else if list_ex (\<lambda>a. atom_Cap a \<noteq> CapRead) (os_formula spec) then Some NoneNonRead
              else if list_ex (\<lambda>(so, _). \<not> readOnly so) (os_storeOps spec) then Some NoneMutates
              else None)
           else None)))"

definition validateSpec ::
  "(EventType \<Rightarrow> bool) \<Rightarrow> (StoreOp \<Rightarrow> bool) \<Rightarrow> Operation \<Rightarrow> opSpec \<Rightarrow> registry_error option" where
  "validateSpec registered readOnly op spec =
     (if os_class spec \<notin> set registrableClasses then Some UnregisterableClass
      else if os_class spec = ClassTenant \<and> \<not> tenantLevel (os_level spec) then Some NonTenantLevel
      else if os_class spec = ClassInstance \<and> os_level spec \<noteq> LevelNone then Some InstanceLevel
      else if os_formula spec = [] then Some EmptyFormula
      else (case validateAtoms (os_level spec) (os_formula spec) of Some e \<Rightarrow> Some e
        | None \<Rightarrow>
          (if list_ex (\<lambda>(_, licensed). \<not> licensed) (os_storeOps spec) then Some FalseStoreOp
           else validateAuditDisposition registered readOnly op spec)))"

fun newRegistryLoop ::
  "(EventType \<Rightarrow> bool) \<Rightarrow> (StoreOp \<Rightarrow> bool) \<Rightarrow> (Operation \<times> opSpec) list
     \<Rightarrow> (Operation \<Rightarrow> opSpec option) \<Rightarrow> registry_error + (Operation \<Rightarrow> opSpec option)" where
  "newRegistryLoop registered readOnly [] ops = Inr ops"
| "newRegistryLoop registered readOnly ((op, spec) # table) ops =
     (if op = [] then Inl EmptyOperationKey
      else (case validateSpec registered readOnly op spec of Some e \<Rightarrow> Inl e
        | None \<Rightarrow> newRegistryLoop registered readOnly table (ops(op \<mapsto> spec))))"

definition newRegistry ::
  "(EventType \<Rightarrow> bool) \<Rightarrow> (StoreOp \<Rightarrow> bool) \<Rightarrow> (Operation \<times> opSpec) list \<Rightarrow> registry_error + Registry" where
  "newRegistry registered readOnly table =
     (case newRegistryLoop registered readOnly table (\<lambda>_. None) of
        Inl e \<Rightarrow> Inl e | Inr ops \<Rightarrow> Inr \<lparr>reg_ops = ops\<rparr>)"

section \<open>What a built registry guarantees\<close>

lemma validateAtoms_None:
  "validateAtoms l as = None \<Longrightarrow> a \<in> set as \<Longrightarrow>
     IsCapability (atom_Cap a) \<and> validLevel (atom_At a) \<and> atom_At a \<le> l \<and>
     (\<exists>d. DeepestLevel (atom_Cap a) = Some d \<and> atom_At a \<le> d)"
  by (induction "as") (auto simp: IsCapability_def DeepestLevel_def split: if_splits option.splits)

lemma validateEvents_registered:
  "validateEvents registered seen ets = None \<Longrightarrow> list_all registered ets"
  by (induction ets arbitrary: seen) (auto split: if_splits)

text \<open>The invariant of the loop: every row installed so far is valid.\<close>

definition valid_ops :: "(EventType \<Rightarrow> bool) \<Rightarrow> (StoreOp \<Rightarrow> bool) \<Rightarrow> (Operation \<Rightarrow> opSpec option) \<Rightarrow> bool" where
  "valid_ops g ro ops \<longleftrightarrow> (\<forall>op spec. ops op = Some spec \<longrightarrow> op \<noteq> [] \<and> validateSpec g ro op spec = None)"

lemma valid_ops_upd:
  "valid_ops g ro ops \<Longrightarrow> op \<noteq> [] \<Longrightarrow> validateSpec g ro op spec = None \<Longrightarrow> valid_ops g ro (ops(op \<mapsto> spec))"
  by (simp add: valid_ops_def)

lemma newRegistryLoop_valid:
  "newRegistryLoop g ro table ops = Inr ops' \<Longrightarrow> valid_ops g ro ops \<Longrightarrow> valid_ops g ro ops'"
  by (induction g ro table ops rule: newRegistryLoop.induct)
    (simp_all add: valid_ops_upd split: if_splits option.splits)

lemma newRegistry_valid:
  assumes "newRegistry g ro table = Inr r"
  shows "valid_ops g ro (reg_ops r)"
proof -
  obtain ops where "newRegistryLoop g ro table (\<lambda>_. None) = Inr ops" "r = \<lparr>reg_ops = ops\<rparr>"
    using assms by (auto simp: newRegistry_def split: sum.splits)
  with newRegistryLoop_valid [of g ro table "\<lambda>_. None" ops] show ?thesis
    by (simp add: valid_ops_def)
qed

text \<open>
  An operation of a built registry has a non-empty formula over known capabilities, each at a
  level the capability may be granted at and no deeper than the operation addresses; an instance
  operation therefore has instance-level atoms only. An operation that leaves no audit event has a
  read-only formula at a tenant level and calls read-only store operations only, unless it is one of
  the two named exemptions.
\<close>

theorem newRegistry_sound:
  assumes "newRegistry registered readOnly table = Inr r" and "reg_ops r op = Some spec"
  shows "os_formula spec \<noteq> [] \<and>
    (\<forall>a \<in> set (os_formula spec). IsCapability (atom_Cap a) \<and> atom_At a \<le> os_level spec \<and>
       (\<exists>d. DeepestLevel (atom_Cap a) = Some d \<and> atom_At a \<le> d)) \<and>
    (os_class spec = ClassInstance \<longrightarrow> (\<forall>a \<in> set (os_formula spec). atom_At a = LevelNone)) \<and>
    (os_events spec = [] \<longrightarrow> os_reviewExempt spec \<and> op \<in> {OpDefinitionsPlanGet, OpSCIMDiscovery} \<or>
       os_class spec = ClassTenant \<and> (\<forall>a \<in> set (os_formula spec). atom_Cap a = CapRead) \<and>
       (\<forall>(so, b) \<in> set (os_storeOps spec). readOnly so))"
proof -
  have v: "validateSpec registered readOnly op spec = None"
    using newRegistry_valid [OF assms(1)] assms(2) by (simp add: valid_ops_def)
  then have ne: "os_formula spec \<noteq> []"
    and atoms: "validateAtoms (os_level spec) (os_formula spec) = None"
    and inst: "os_class spec = ClassInstance \<longrightarrow> os_level spec = LevelNone"
    and audit: "validateAuditDisposition registered readOnly op spec = None"
    by (auto simp: validateSpec_def split: if_splits option.splits)
  note a = validateAtoms_None [OF atoms]
  have "\<forall>a \<in> set (os_formula spec). atom_At a = LevelNone" if "os_class spec = ClassInstance"
    using a inst that by (force simp: validLevel_def tenantLevel_def level_defs)
  moreover have "os_reviewExempt spec \<and> op \<in> {OpDefinitionsPlanGet, OpSCIMDiscovery} \<or>
       os_class spec = ClassTenant \<and> (\<forall>a \<in> set (os_formula spec). atom_Cap a = CapRead) \<and>
       (\<forall>(so, b) \<in> set (os_storeOps spec). readOnly so)" if "os_events spec = []"
    using audit that
    by (cases "os_auditedNone spec"; cases "os_reviewExempt spec")
      (auto simp: validateAuditDisposition_def Let_def list_ex_iff split: if_splits)
  ultimately show ?thesis using ne a by blast
qed

theorem newRegistry_sound_witness:
  "\<exists>r. newRegistry (\<lambda>e. e = ''org.created'') (\<lambda>s. False)
        [(''org.create'', \<lparr>os_class = ClassInstance, os_level = LevelNone,
            os_formula = [atom CapInstanceConfig LevelNone], os_storeOps = [(''orgs.create'', True)],
            os_postGrantForbidden = False, os_events = [''org.created''], os_auditedNone = False,
            os_reviewExempt = False\<rparr>)] = Inr r \<and>
     (\<forall>spec. reg_ops r ''org.create'' = Some spec \<longrightarrow> os_formula spec \<noteq> [])"
proof -
  let ?t = "[(''org.create'', \<lparr>os_class = ClassInstance, os_level = LevelNone,
            os_formula = [atom CapInstanceConfig LevelNone], os_storeOps = [(''orgs.create'', True)],
            os_postGrantForbidden = False, os_events = [''org.created''], os_auditedNone = False,
            os_reviewExempt = False\<rparr>)]"
  have "IsCapability CapInstanceConfig" "DeepestLevel CapInstanceConfig = Some LevelNone"
    by code_simp+
  then obtain r where r: "newRegistry (\<lambda>e. e = ''org.created'') (\<lambda>s. False) ?t = Inr r"
    by (simp add: newRegistry_def validateSpec_def validateAuditDisposition_def registrableClasses_def
        validLevel_def Let_def)
  then show ?thesis using newRegistry_sound [OF r] by blast
qed

section \<open>Exactly the well-formed tables are installed\<close>

text \<open>
  The policy that the validation stands for, stated without its order of checks: an operation addresses a
  tenant depth or the instance, asks for at least one capability that can be granted where it is asked for,
  licenses what it lists, and has exactly one audit disposition.
\<close>

definition grantable :: "Level \<Rightarrow> Atom \<Rightarrow> bool" where
  "grantable level a \<longleftrightarrow> validLevel (atom_At a) \<and> atom_At a \<le> level \<and>
     (\<exists>d. DeepestLevel (atom_Cap a) = Some d \<and> atom_At a \<le> d)"

definition disposed :: "(EventType \<Rightarrow> bool) \<Rightarrow> (StoreOp \<Rightarrow> bool) \<Rightarrow> Operation \<Rightarrow> opSpec \<Rightarrow> bool" where
  "disposed registered readOnly op spec \<longleftrightarrow>
     (os_events spec \<noteq> [] \<and> \<not> os_auditedNone spec \<and> \<not> os_reviewExempt spec \<and> distinct (os_events spec) \<and>
       (\<forall>et \<in> set (os_events spec). et \<noteq> [] \<and> registered et)) \<or>
     (os_events spec = [] \<and> os_auditedNone spec \<and> \<not> os_reviewExempt spec \<and> os_class spec = ClassTenant \<and>
       (\<forall>a \<in> set (os_formula spec). atom_Cap a = CapRead) \<and> (\<forall>(so, b) \<in> set (os_storeOps spec). readOnly so)) \<or>
     (os_events spec = [] \<and> \<not> os_auditedNone spec \<and> os_reviewExempt spec \<and>
       op \<in> {OpDefinitionsPlanGet, OpSCIMDiscovery})"

definition well_formed :: "(EventType \<Rightarrow> bool) \<Rightarrow> (StoreOp \<Rightarrow> bool) \<Rightarrow> Operation \<Rightarrow> opSpec \<Rightarrow> bool" where
  "well_formed registered readOnly op spec \<longleftrightarrow> op \<noteq> [] \<and>
     (os_class spec = ClassTenant \<and> os_level spec \<in> {LevelOrg, LevelProject, LevelEnv} \<or>
      os_class spec = ClassInstance \<and> os_level spec = LevelNone) \<and>
     os_formula spec \<noteq> [] \<and> (\<forall>a \<in> set (os_formula spec). grantable (os_level spec) a) \<and>
     (\<forall>(so, licensed) \<in> set (os_storeOps spec). licensed) \<and> disposed registered readOnly op spec"

lemma validateAtoms_iff: "validateAtoms level as = None \<longleftrightarrow> (\<forall>a \<in> set as. grantable level a)"
  by (induction "as") (auto simp: grantable_def IsCapability_def DeepestLevel_def split: option.splits)

lemma validateEvents_iff:
  "validateEvents registered seen ets = None \<longleftrightarrow>
     distinct ets \<and> set ets \<inter> seen = {} \<and> (\<forall>et \<in> set ets. et \<noteq> [] \<and> registered et)"
  by (induction ets arbitrary: seen) auto

lemma validateAuditDisposition_iff:
  "validateAuditDisposition registered readOnly op spec = None \<longleftrightarrow> disposed registered readOnly op spec"
proof -
  have ex: "list_ex (\<lambda>a. atom_Cap a \<noteq> CapRead) (os_formula spec) \<longleftrightarrow>
      \<not> (\<forall>a \<in> set (os_formula spec). atom_Cap a = CapRead)"
    "list_ex (\<lambda>(so, _). \<not> readOnly so) (os_storeOps spec) \<longleftrightarrow> \<not> (\<forall>(so, b) \<in> set (os_storeOps spec). readOnly so)"
    by (auto simp: list_ex_iff)
  show ?thesis
    unfolding validateAuditDisposition_def disposed_def Let_def ex
    using validateEvents_iff [of registered "{}" "os_events spec"]
    by (cases "os_events spec = []"; cases "os_auditedNone spec"; cases "os_reviewExempt spec";
        cases "validateEvents registered {} (os_events spec)")
       simp_all
qed

lemma validateSpec_iff:
  "op \<noteq> [] \<and> validateSpec registered readOnly op spec = None \<longleftrightarrow> well_formed registered readOnly op spec"
proof -
  have ex: "list_ex (\<lambda>(_, licensed). \<not> licensed) (os_storeOps spec) \<longleftrightarrow>
      \<not> (\<forall>(so, licensed) \<in> set (os_storeOps spec). licensed)"
    by (auto simp: list_ex_iff)
  show ?thesis
    unfolding validateSpec_def well_formed_def validateAtoms_iff [symmetric] validateAuditDisposition_iff [symmetric] ex
    by (cases "os_class spec"; cases "os_formula spec = []"; cases "validateAtoms (os_level spec) (os_formula spec)")
       (auto simp: registrableClasses_def tenantLevel_def)
qed

lemma newRegistryLoop_iff:
  "newRegistryLoop registered readOnly table ops = Inr ops' \<longleftrightarrow>
     (\<forall>(op, spec) \<in> set table. well_formed registered readOnly op spec) \<and> ops' = ops ++ map_of (rev table)"
proof (induction table arbitrary: ops)
  case (Cons row table)
  obtain op spec where row: "row = (op, spec)" by (cases row)
  have upd: "ops(op \<mapsto> spec) ++ map_of (rev table) = ops ++ map_of (rev (row # table))"
    by (simp add: row fun_eq_iff map_add_def split: option.split)
  show ?case
  proof (cases "well_formed registered readOnly op spec")
    case True
    then have "op \<noteq> []" "validateSpec registered readOnly op spec = None" using validateSpec_iff by blast+
    then have run: "newRegistryLoop registered readOnly (row # table) ops =
        newRegistryLoop registered readOnly table (ops(op \<mapsto> spec))" by (simp add: row)
    have "(\<forall>(op, spec) \<in> set (row # table). well_formed registered readOnly op spec) \<longleftrightarrow>
        (\<forall>(op, spec) \<in> set table. well_formed registered readOnly op spec)" using True by (simp add: row)
    then show ?thesis unfolding run Cons.IH upd by (simp only:)
  next
    case False
    then show ?thesis using validateSpec_iff [of op registered readOnly spec] by (auto simp: row split: option.splits)
  qed
qed auto

text \<open>
  C7: the registry builder accepts exactly the tables all of whose rows are well formed, and then installs
  every row under its operation and nothing else, so no operation can be installed without a capability,
  at a depth it does not have, with an unlicensed store operation or without its audit disposition.
\<close>

theorem newRegistry_iff:
  "newRegistry registered readOnly table = Inr r \<longleftrightarrow>
     (\<forall>(op, spec) \<in> set table. well_formed registered readOnly op spec) \<and> reg_ops r = map_of (rev table)"
proof -
  have "newRegistry registered readOnly table = Inr r \<longleftrightarrow>
      newRegistryLoop registered readOnly table (\<lambda>_. None) = Inr (reg_ops r)"
    by (cases r) (auto simp: newRegistry_def split: sum.splits)
  then show ?thesis by (simp add: newRegistryLoop_iff)
qed

text \<open>A row whose only capability is asked for deeper than it can be granted is refused.\<close>

theorem newRegistry_iff_witness:
  "(\<nexists>r. newRegistry (\<lambda>e. True) (\<lambda>s. False)
      [(''org.create'', \<lparr>os_class = ClassTenant, os_level = LevelOrg, os_formula = [atom CapInstanceConfig LevelOrg],
          os_storeOps = [(''orgs.create'', True)], os_postGrantForbidden = False, os_events = [''org.created''],
          os_auditedNone = False, os_reviewExempt = False\<rparr>)] = Inr r)"
proof -
  have "DeepestLevel CapInstanceConfig = Some LevelNone" by code_simp
  then have "\<not> grantable LevelOrg (atom CapInstanceConfig LevelOrg)" by (simp add: grantable_def level_defs)
  then show ?thesis by (simp add: newRegistry_iff well_formed_def)
qed

end
