(* ===== verification/Audit_Events.thy ===== *)
theory Audit_Events
  imports Audit_Registry
begin

text \<open>
  \<open>internal/audit/audit.go\<close> and the request context of \<open>row.go\<close>: the event envelope and the check
  every event passes before it is written. A point in time is the number of nanoseconds since
  Go's zero time. Actor classes and origins are open strings, as in the source, because the check
  itself refuses the unknown ones.
\<close>

record Actor =
  ac_ID :: go_string
  ac_Class :: go_string
  ac_CredentialID :: go_string

record Object =
  ob_Type :: go_string
  ob_ID :: go_string

record Event =
  ev_ID :: go_string
  ev_Type :: EventType
  ev_SchemaVersion :: int
  ev_OccurredAt :: int
  ev_OccurredAsserted :: bool
  ev_Actor :: Actor
  ev_AuthorityID :: go_string
  ev_Object :: Object
  ev_Outcome :: Outcome
  ev_CorrelationID :: go_string
  ev_SourceIP :: go_string
  ev_UserAgent :: go_string
  ev_Origin :: go_string
  ev_Payload :: Payload

definition ActorHuman :: go_string where "ActorHuman = ''human''"
definition ActorMachine :: go_string where "ActorMachine = ''machine''"
definition ActorSystem :: go_string where "ActorSystem = ''system''"
definition ActorBreakGlass :: go_string where "ActorBreakGlass = ''break-glass''"
definition ActorUnauthenticated :: go_string where "ActorUnauthenticated = ''unauthenticated''"

definition OriginSystem :: go_string where "OriginSystem = ''system''"

definition origins :: "go_string list" where
  "origins = [''web'', ''cli'', ''api'', ''mcp'', ''operator-fetch'', ''adapter-job'', ''offline-reconciled'',
     OriginSystem]"

datatype audit_error =
  Unregistered | NoEventID | WrongSchemaVersion | OutcomeNotLicensed | TrailNotRegistered | ZeroOccurredAt
| ActorWithoutID | UnauthenticatedWithID | UnknownActorClass | UnknownOrigin | BadScope | NoOrgChain
| InstanceWithChain | UnsanitizedEnvelope | BadPayload

definition NewEventID :: "go_string option \<Rightarrow> go_string option" where
  "NewEventID uuid = map_option (\<lambda>u. ''evt_'' @ u) uuid"

definition checkActor :: "Actor \<Rightarrow> audit_error option" where
  "checkActor a =
     (if ac_Class a = ActorHuman \<or> ac_Class a = ActorMachine then
        (if ac_ID a = [] then Some ActorWithoutID else None)
      else if ac_Class a = ActorSystem \<or> ac_Class a = ActorBreakGlass then None
      else if ac_Class a = ActorUnauthenticated then
        (if ac_ID a \<noteq> [] \<or> ac_CredentialID a \<noteq> [] then Some UnauthenticatedWithID else None)
      else Some UnknownActorClass)"

definition checkTrailScope :: "Trail \<Rightarrow> Scope \<Rightarrow> audit_error option" where
  "checkTrailScope trail scope =
     (case trail of
        TrailTenant \<Rightarrow>
          (if scope_Level scope = None then Some BadScope else if Org scope = [] then Some NoOrgChain else None)
      | TrailInstance \<Rightarrow> (if scope \<noteq> no_scope then Some InstanceWithChain else None))"

definition Validate :: "Event \<Rightarrow> Trail \<Rightarrow> Scope \<Rightarrow> audit_error option" where
  "Validate e trail scope =
     (case Spec (ev_Type e) of None \<Rightarrow> Some Unregistered
      | Some spec \<Rightarrow>
        (if ev_ID e = [] then Some NoEventID
         else if ev_SchemaVersion e \<noteq> ts_SchemaVersion spec then Some WrongSchemaVersion
         else if ev_Outcome e \<notin> set (ts_Outcomes spec) then Some OutcomeNotLicensed
         else if trail \<notin> set (ts_Trails spec) then Some TrailNotRegistered
         else if ev_OccurredAt e = 0 then Some ZeroOccurredAt
         else (case checkActor (ev_Actor e) of Some err \<Rightarrow> Some err
           | None \<Rightarrow>
             (if ev_Origin e \<notin> set origins then Some UnknownOrigin
              else (case checkTrailScope trail scope of Some err \<Rightarrow> Some err
                | None \<Rightarrow>
                  (if \<not> checkSanitized (ev_UserAgent e) \<or> \<not> checkSanitized (ev_SourceIP e)
                   then Some UnsanitizedEnvelope
                   else if \<not> validate (ts_Schema spec) (ev_Payload e) then Some BadPayload
                   else None))))))"

definition ScopeClass :: "Trail \<Rightarrow> Scope \<Rightarrow> go_string option" where
  "ScopeClass trail s =
     (if trail = TrailInstance then Some ''instance''
      else (case scope_Level s of None \<Rightarrow> None
        | Some l \<Rightarrow> (if l = LevelOrg then Some ''org'' else if l = LevelProject then Some ''project''
                    else if l = LevelEnv then Some ''env'' else None)))"

section \<open>Wire metadata\<close>

record Context =
  cx_SourceIP :: go_string
  cx_UserAgent :: go_string
  cx_Origin :: go_string
  cx_RequestOrigin :: go_string

definition WithContext :: "Context \<Rightarrow> Context" where
  "WithContext c = c\<lparr>cx_SourceIP := SanitizeFreeText (cx_SourceIP c),
     cx_UserAgent := SanitizeFreeText (cx_UserAgent c),
     cx_RequestOrigin := SanitizeFreeText (cx_RequestOrigin c)\<rparr>"

definition FromContext :: "Context option \<Rightarrow> Context" where
  "FromContext attached =
     (case attached of Some c \<Rightarrow> c
      | None \<Rightarrow> \<lparr>cx_SourceIP = [], cx_UserAgent = [], cx_Origin = OriginSystem, cx_RequestOrigin = []\<rparr>)"

section \<open>Properties of the write boundary\<close>

lemma Validate_None:
  "Validate e trail scope = None \<longleftrightarrow>
   (\<exists>spec. Spec (ev_Type e) = Some spec \<and> ev_ID e \<noteq> [] \<and> ev_SchemaVersion e = ts_SchemaVersion spec \<and>
      ev_Outcome e \<in> set (ts_Outcomes spec) \<and> trail \<in> set (ts_Trails spec) \<and> ev_OccurredAt e \<noteq> 0 \<and>
      checkActor (ev_Actor e) = None \<and> ev_Origin e \<in> set origins \<and> checkTrailScope trail scope = None \<and>
      clean (ev_UserAgent e) \<and> clean (ev_SourceIP e) \<and> validate (ts_Schema spec) (ev_Payload e))"
  by (auto simp: Validate_def checkSanitized_iff split: option.splits if_splits)

lemma scope_Level_org: "scope_Level s = Some l \<Longrightarrow> Org s \<noteq> [] \<Longrightarrow> l = LevelOrg \<or> l = LevelProject \<or> l = LevelEnv"
  by (auto simp: scope_Level_def split: if_splits)

text \<open>
  C29: an accepted event has a registered type, lands in a trail its type is registered for with an outcome
  its type licenses, a tenant event names an organisation and an instance event none, so that the scope
  column of its row exists; and no caller-influenced text of its envelope or payload carries a bearer
  token or a control byte.
\<close>

theorem Validate_sound:
  assumes "Validate e trail scope = None"
  shows "\<exists>spec. Spec (ev_Type e) = Some spec \<and> ev_Outcome e \<in> set (ts_Outcomes spec) \<and>
    trail \<in> set (ts_Trails spec) \<and> (trail = TrailTenant \<longleftrightarrow> Org scope \<noteq> []) \<and> ScopeClass trail scope \<noteq> None \<and>
    (\<forall>t. t = ev_UserAgent e \<or> t = ev_SourceIP e \<or> text_in (ts_Schema spec) (ev_Payload e) t \<longrightarrow>
       token_free t \<and> \<not> list_ex control t \<and> length t \<le> FreeTextBound)"
proof -
  obtain spec where spec: "Spec (ev_Type e) = Some spec" "ev_Outcome e \<in> set (ts_Outcomes spec)"
      "trail \<in> set (ts_Trails spec)" "checkTrailScope trail scope = None" "clean (ev_UserAgent e)"
      "clean (ev_SourceIP e)" "validate (ts_Schema spec) (ev_Payload e)"
    using assms by (auto simp: Validate_None)
  have "(trail = TrailTenant \<longleftrightarrow> Org scope \<noteq> []) \<and> ScopeClass trail scope \<noteq> None"
    using spec(4) scope_Level_org [of scope]
    by (cases trail) (auto simp: checkTrailScope_def ScopeClass_def level_defs split: if_splits option.splits)
  moreover have "clean t" if "text_in (ts_Schema spec) (ev_Payload e) t" for t
    using text_in_clean [OF that spec(7)] .
  ultimately show ?thesis
    using spec by (auto simp: clean_def)
qed

lemma Spec_grant_denied:
  "Spec ''grant.denied'' = Some (TypeSpec_of 1 RetentionAccess [OutcomeDenied] [TrailTenant, TrailInstance]
     [(''operation'', field_req KindString), (''formula'', field_req KindString),
      (''resolution'', field_enum True [''resolvable'', ''unresolvable'']),
      (''claimed_org'', field_opt KindFreeText), (''claimed_project'', field_opt KindFreeText),
      (''claimed_env'', field_opt KindFreeText)])"
  by (simp add: Spec_def registry_def registry_part1_def)

lemma clean_Nil [simp]: "clean []"
  by (simp add: clean_def token_free_def is_token_def)

definition sample_event :: Event where
  "sample_event = \<lparr>ev_ID = ''evt_1'', ev_Type = ''grant.denied'', ev_SchemaVersion = 1, ev_OccurredAt = 7,
     ev_OccurredAsserted = False,
     ev_Actor = \<lparr>ac_ID = ''u'', ac_Class = ActorHuman, ac_CredentialID = []\<rparr>, ev_AuthorityID = [],
     ev_Object = \<lparr>ob_Type = [], ob_ID = []\<rparr>, ev_Outcome = OutcomeDenied, ev_CorrelationID = [],
     ev_SourceIP = [], ev_UserAgent = [], ev_Origin = OriginSystem,
     ev_Payload = [(''operation'', VString ''org.get''), (''formula'', VString ''read@org''),
       (''resolution'', VString ''resolvable'')]\<rparr>"

theorem Validate_sound_witness:
  "Validate sample_event TrailTenant \<lparr>Org = ''o'', Project = [], Env = []\<rparr> = None \<and>
   ScopeClass TrailTenant \<lparr>Org = ''o'', Project = [], Env = []\<rparr> \<noteq> None"
proof -
  have v: "Validate sample_event TrailTenant \<lparr>Org = ''o'', Project = [], Env = []\<rparr> = None"
    by (simp add: Validate_None sample_event_def Spec_grant_denied checkActor_def checkTrailScope_def
        scope_Level_def origins_def validate.simps checkConstraints_def asString_def)
  show ?thesis using Validate_sound [OF v] v by blast
qed

end
