(* ===== verification/Authz.thy ===== *)
theory Authz
  imports Authz_Registry Audit_Events
begin

text \<open>
  \<open>internal/authz\<close>: the authorization chokepoint (\<open>authorize.go\<close>, \<open>self_config.go\<close>,
  \<open>denial.go\<close>), the proofs it mints and the check the store applies to them (\<open>proof.go\<close>,
  \<open>verify.go\<close>). The database answers of the resolution surface inside one transaction are the
  fields of the record \<open>Resolver\<close>; the request context (network provenance, the attached
  audit metadata, the clock, the identifier the UUID library returns, the embedded API contract) is the record
  \<open>Ctx\<close>. A transaction token is an address, and the set of dead tokens is the part of the
  heap that \<open>Invalidate\<close> writes.
\<close>

section \<open>Formula evaluation\<close>

text \<open>\<open>truncate_at\<close>; \<open>None\<close> is its panic on an unknown level.\<close>

definition truncate_at :: "Scope \<Rightarrow> Level \<Rightarrow> Scope option" where
  "truncate_at s l =
     (if l = LevelNone then Some no_scope
      else if l = LevelOrg then Some \<lparr>Org = Org s, Project = [], Env = []\<rparr>
      else if l = LevelProject then Some \<lparr>Org = Org s, Project = Project s, Env = []\<rparr>
      else if l = LevelEnv then Some s
      else None)"

definition covers :: "Scope \<Rightarrow> Scope \<Rightarrow> bool" where
  "covers g target =
     (if Org g = [] then True
      else if Org g \<noteq> Org target then False
      else if Project g = [] then True
      else if Project g \<noteq> Project target then False
      else if Env g = [] then True
      else Env g = Env target)"

fun evaluate :: "Formula \<Rightarrow> Scope \<Rightarrow> Grant list \<Rightarrow> bool option" where
  "evaluate [] chain grants = Some True"
| "evaluate (a # as) chain grants =
     (case truncate_at chain (atom_At a) of None \<Rightarrow> None
      | Some target \<Rightarrow>
          (if list_ex (\<lambda>g. grant_Cap g = atom_Cap a \<and> covers (grant_Scope g) target) grants
           then evaluate as chain grants else Some False))"

section \<open>Identities, proofs and the environment of a call\<close>

type_synonym PrincipalID = go_string
type_synonym SystemSite = go_string
type_synonym TxToken = nat

record Identity =
  id_Principal :: PrincipalID
  id_Class :: PrincipalClass
  id_SessionID :: go_string
  id_CredentialID :: go_string
  id_Factors :: "go_string list"

datatype proofKind = kindTenant | kindInstance | kindSystem

record Proof =
  pf_kind :: proofKind
  pf_op :: Operation
  pf_site :: SystemSite
  pf_chain :: Scope
  pf_tok :: TxToken
  pf_selfConfig :: bool
  pf_selfConfigAdmin :: bool
  pf_runtimeSnapshotID :: go_string

abbreviation blank_proof :: "proofKind \<Rightarrow> Operation \<Rightarrow> TxToken \<Rightarrow> Proof" where
  "blank_proof k op tok \<equiv> \<lparr>pf_kind = k, pf_op = op, pf_site = [], pf_chain = no_scope, pf_tok = tok,
     pf_selfConfig = False, pf_selfConfigAdmin = False, pf_runtimeSnapshotID = []\<rparr>"

datatype authz_error =
  ErrNotFound | ErrUnauthorized | ErrInvalid
| UnknownOperation | EmptyPrincipal | ScopeGap | ScopeDepth | InstanceWithScope | NotMintable
| UnknownLevelPanic | NotInstanceScoped | NotASystemSite | NoTransaction | NeedsTenantScope
| NeedsBoundResolver | NetworkForbidden | Database go_string

record Resolver =
  ResolveChain :: "Scope \<Rightarrow> authz_error + Scope"
  Grants :: "PrincipalID \<Rightarrow> authz_error + Grant list"
  EnvironmentProtected :: "go_string \<Rightarrow> authz_error + bool"
  IsSelfConfigScope :: "Scope \<Rightarrow> authz_error + bool"
  ProjectMachineReveal :: "go_string \<Rightarrow> authz_error + bool \<times> int"
  SelfConfigBinding :: "authz_error + Scope \<times> go_string"
  SelfConfigRetained :: "go_string \<Rightarrow> authz_error + bool"
  SelfConfigRecoverySnapshot :: "Scope \<times> go_string \<Rightarrow> int \<Rightarrow> authz_error + go_string"

record Denial =
  dn_Trail :: Trail
  dn_Scope :: Scope
  dn_Event :: Event

record TxAuthorizer =
  ta_tok :: TxToken
  ta_denials :: "Denial list"
  ta_captureErr :: bool
  ta_object :: Object

record Ctx =
  ctx_network :: bool
  ctx_uuid :: "go_string option"
  ctx_now :: int
  ctx_attached :: "Context option"
  ctx_admits :: "Operation \<Rightarrow> go_string \<Rightarrow> bool \<times> bool"

section \<open>Assurance\<close>

definition AdequateAssurance :: "go_string list \<Rightarrow> bool" where
  "AdequateAssurance factors \<longleftrightarrow> ''webauthn'' \<in> set factors \<or> card (set factors) \<ge> 2"

definition AssuranceRank :: "go_string list \<Rightarrow> nat" where
  "AssuranceRank factors =
     (if ''webauthn'' \<in> set factors then 2 else if AdequateAssurance factors then 1 else 0)"

definition MFAMandatory :: "Capability list" where
  "MFAMandatory = [CapReveal, CapRevealHistory, CapManageMembers, CapCredentialReset, CapInstanceConfig,
     CapInstanceDirector]"

definition FormulaDemandsMFA :: "Registry \<Rightarrow> Operation \<Rightarrow> bool" where
  "FormulaDemandsMFA reg op =
     (case authorization_spec reg op of None \<Rightarrow> False
      | Some spec \<Rightarrow> list_ex (\<lambda>a. atom_Cap a \<in> set MFAMandatory) (as_formula spec))"

definition assuranceInadequate :: "Registry \<Rightarrow> Identity \<Rightarrow> Operation \<Rightarrow> bool" where
  "assuranceInadequate reg caller op \<longleftrightarrow>
     id_SessionID caller \<noteq> [] \<and> FormulaDemandsMFA reg op \<and> \<not> AdequateAssurance (id_Factors caller)"

section \<open>Denials\<close>

datatype resolution = resolutionResolvable | resolutionUnresolvable

definition levelNames :: "Level \<Rightarrow> go_string" where
  "levelNames l = (if l = LevelNone then ''instance'' else if l = LevelOrg then ''org''
     else if l = LevelProject then ''project'' else if l = LevelEnv then ''environment'' else [])"

definition formulaName :: "Formula \<Rightarrow> go_string" where
  "formulaName f = Join (map (\<lambda>a. atom_Cap a @ ''@'' @ levelNames (atom_At a)) f) ''+''"

definition claimedPayload :: "Scope \<Rightarrow> Payload" where
  "claimedPayload claimed =
     (if Org claimed \<noteq> [] then [(''claimed_org'', VString (SanitizeFreeText (Org claimed)))] else []) @
     (if Project claimed \<noteq> [] then [(''claimed_project'', VString (SanitizeFreeText (Project claimed)))]
      else []) @
     (if Env claimed \<noteq> [] then [(''claimed_env'', VString (SanitizeFreeText (Env claimed)))] else [])"

definition resolutionName :: "resolution \<Rightarrow> go_string" where
  "resolutionName res =
     (case res of resolutionResolvable \<Rightarrow> ''resolvable'' | resolutionUnresolvable \<Rightarrow> ''unresolvable'')"

definition captureDenial ::
  "Ctx \<Rightarrow> PrincipalID \<Rightarrow> Operation \<Rightarrow> authorizationSpec \<Rightarrow> resolution \<Rightarrow> Scope \<Rightarrow> Scope
     \<Rightarrow> TxAuthorizer \<Rightarrow> TxAuthorizer" where
  "captureDenial ctx who op spec res resolvedChain claimed a =
     (case NewEventID (ctx_uuid ctx) of None \<Rightarrow> a\<lparr>ta_captureErr := True\<rparr>
      | Some eid \<Rightarrow>
         (let wire = FromContext (ctx_attached ctx);
              tenant = (res = resolutionResolvable \<and> resolvedChain \<noteq> no_scope);
              payload = [(''operation'', VString op), (''formula'', VString (formulaName (as_formula spec))),
                 (''resolution'', VString (resolutionName res))] @
                (if res = resolutionUnresolvable then claimedPayload claimed else []);
              event = \<lparr>ev_ID = eid, ev_Type = ''grant.denied'', ev_SchemaVersion = 1,
                 ev_OccurredAt = ctx_now ctx, ev_OccurredAsserted = False,
                 ev_Actor = \<lparr>ac_ID = who, ac_Class = [], ac_CredentialID = []\<rparr>, ev_AuthorityID = [],
                 ev_Object = ta_object a, ev_Outcome = OutcomeDenied, ev_CorrelationID = [],
                 ev_SourceIP = cx_SourceIP wire, ev_UserAgent = cx_UserAgent wire,
                 ev_Origin = cx_Origin wire, ev_Payload = payload\<rparr>
          in a\<lparr>ta_denials := ta_denials a @
               [\<lparr>dn_Trail = (if tenant then TrailTenant else TrailInstance),
                 dn_Scope = (if tenant then resolvedChain else no_scope), dn_Event = event\<rparr>]\<rparr>))"

definition AttributeDenials :: "Object \<Rightarrow> TxAuthorizer \<Rightarrow> TxAuthorizer" where
  "AttributeDenials obj a = a\<lparr>ta_object := obj\<rparr>"

definition CaptureAudit :: "Trail \<Rightarrow> Scope \<Rightarrow> Event \<Rightarrow> TxAuthorizer \<Rightarrow> TxAuthorizer" where
  "CaptureAudit trail scope e a =
     a\<lparr>ta_denials := ta_denials a @ [\<lparr>dn_Trail = trail, dn_Scope = scope, dn_Event = e\<rparr>]\<rparr>"

section \<open>The self-config profile\<close>

definition OpSelfConfigStatus :: Operation where "OpSelfConfigStatus = ''self-config.status''"
definition OpSelfConfigAdopt :: Operation where "OpSelfConfigAdopt = ''self-config.adopt''"
definition OpSelfConfigPreview :: Operation where "OpSelfConfigPreview = ''self-config.preview''"
definition OpSelfConfigApply :: Operation where "OpSelfConfigApply = ''self-config.apply''"
definition OpSelfConfigTest :: Operation where "OpSelfConfigTest = ''self-config.test''"
definition OpEnvDelete :: Operation where "OpEnvDelete = ''environment.delete''"

definition selfConfigOperations :: "Operation list" where
  "selfConfigOperations =
     [''org.get'', ''org.rename'', ''project.get'', ''project.list'', ''project.rename'',
      ''environment.read'', ''environment.list'', ''environment.rename'', ''environment.reorder'',
      ''environment.update-note'', ''key.get'', ''key.list'', ''key-group.get'', ''key-group.list'',
      ''folder.get'', ''folder.list'', ''value.read'', ''value.list'', ''value.reveal'',
      ''reveal.window_read'', ''value.stage'', ''value.pending-list'', ''value.publish'',
      ''value.export'', ''value.export-reveal'', ''value.export-reveal-history'', ''revision.list'',
      ''revision.show'', ''revision.signals'', ''revision.restore'',
      ''revision.restore-reveal-history'', ''revision.restore-reveal-current'', ''pin.set'',
      ''pin.set-reveal-history'', ''pin.list'', ''pin.release'', ''approval.policy-read'',
      ''approval.request-read'', ''approval.vote'', ''approval.bypass'', ''definitions.export'',
      ''definitions.check'', ''definitions.settings.get'', ''project.machine-reveal.get'',
      ''environment.settings-read'', ''retention.org-read'', ''retention.org-update'',
      ''retention.project-read'', ''retention.project-update'', ''audit.query-org'',
      ''audit.query-project'', ''audit.query-env'', ''audit.export-org'', ''audit.export-project'',
      ''audit.export-env'', ''grant.create-org'', ''grant.create-project'', ''grant.create-env'',
      ''grant.revoke-org'', ''grant.revoke-project'', ''grant.revoke-env'', ''grant.list-org'',
      ''grant.list-project'', ''grant.template-org'', ''grant.template-project'',
      ''grant.template-env'', ''member.invite-org'', ''self-config.apply'', ''self-config.test'',
      ''crypto.reencrypt-project'']"

definition memberOperations :: "Operation list" where
  "memberOperations =
     [''grant.create-org'', ''grant.create-project'', ''grant.create-env'', ''grant.revoke-org'',
      ''grant.revoke-project'', ''grant.revoke-env'', ''grant.list-org'', ''grant.list-project'',
      ''grant.template-org'', ''grant.template-project'', ''grant.template-env'', ''member.invite-org'']"

definition selfConfigSessionEligible :: "Identity \<Rightarrow> bool" where
  "selfConfigSessionEligible caller \<longleftrightarrow>
     (id_Class caller = [] \<or> id_Class caller = ClassHuman) \<and>
     (id_SessionID caller = [] \<or> AdequateAssurance (id_Factors caller))"

text \<open>The results are whether the scope is protected and whether the profile permits the call.\<close>

definition selfConfigProfile ::
  "Resolver \<Rightarrow> Identity \<Rightarrow> Operation \<Rightarrow> Scope \<Rightarrow> Grant list \<Rightarrow> authz_error + bool \<times> bool" where
  "selfConfigProfile r caller op chain grants =
     (case IsSelfConfigScope r chain of Inl e \<Rightarrow> Inl e
      | Inr protected \<Rightarrow>
          (if \<not> protected then Inr (False, op \<noteq> OpSelfConfigApply \<and> op \<noteq> OpSelfConfigTest)
           else if id_Class caller \<noteq> [] \<and> id_Class caller \<noteq> ClassHuman then Inr (True, False)
           else if op \<notin> set selfConfigOperations then Inr (True, False)
           else (let f = [atom CapInstanceConfig LevelNone] @
                         (if op \<in> set memberOperations then [atom CapManageMembers LevelNone] else [])
                 in case evaluate f chain grants of None \<Rightarrow> Inl UnknownLevelPanic
                    | Some b \<Rightarrow> Inr (True, b))))"

section \<open>Authorize\<close>

text \<open>
  \<open>machineRevealWithdrawn\<close>: a service account reaching for a disclosure atom in a project whose
  opt-in is off (or unknown).
\<close>

definition machineRevealWithdrawn :: "Resolver \<Rightarrow> Identity \<Rightarrow> Formula \<Rightarrow> Scope \<Rightarrow> authz_error + bool" where
  "machineRevealWithdrawn r caller f chain =
     (if \<not> IsServiceAccountKind (id_Class caller) \<or> Project chain = [] then Inr False
      else if \<not> list_ex (\<lambda>a. atom_Cap a = CapReveal \<or> atom_Cap a = CapRevealHistory) f then Inr False
      else (case ProjectMachineReveal r (Project chain) of
              Inl e \<Rightarrow> (if e = ErrNotFound then Inr True else Inl e)
            | Inr (enabled, _) \<Rightarrow> Inr (\<not> enabled)))"

definition MachineRevealOptIn :: "Resolver \<Rightarrow> Identity \<Rightarrow> go_string \<Rightarrow> authz_error + bool \<times> int" where
  "MachineRevealOptIn r caller project =
     (if \<not> IsServiceAccountKind (id_Class caller) then Inr (True, 0)
      else (case ProjectMachineReveal r project of
              Inl e \<Rightarrow> (if e = ErrNotFound then Inr (False, 0) else Inl e)
            | Inr (enabled, generation) \<Rightarrow> Inr (enabled, generation)))"

text \<open>A refusal that is first captured for the durable denial record.\<close>

definition refuse ::
  "Ctx \<Rightarrow> PrincipalID \<Rightarrow> Operation \<Rightarrow> authorizationSpec \<Rightarrow> resolution \<Rightarrow> Scope \<Rightarrow> Scope \<Rightarrow> authz_error
     \<Rightarrow> TxAuthorizer \<Rightarrow> (authz_error + Proof) \<times> TxAuthorizer" where
  "refuse ctx who op spec res chain claimed e a =
     (Inl e, captureDenial ctx who op spec res chain claimed a)"

text \<open>The checks of \<open>authorizeTenant\<close> after the formula has been found to hold.\<close>

definition tenantConjuncts ::
  "Registry \<Rightarrow> Resolver \<Rightarrow> Ctx \<Rightarrow> Identity \<Rightarrow> Operation \<Rightarrow> authorizationSpec \<Rightarrow> Scope \<Rightarrow> Grant list
     \<Rightarrow> TxAuthorizer \<Rightarrow> (authz_error + Proof) \<times> TxAuthorizer" where
  "tenantConjuncts reg r ctx caller op spec chain grants a =
     (let deny = (\<lambda>e. refuse ctx (id_Principal caller) op spec resolutionResolvable chain no_scope e a) in
      case selfConfigProfile r caller op chain grants of Inl e \<Rightarrow> (Inl e, a)
      | Inr (protected, permitted) \<Rightarrow>
          (if \<not> permitted then deny ErrNotFound
           else (case machineRevealWithdrawn r caller (as_formula spec) chain of Inl e \<Rightarrow> (Inl e, a)
             | Inr denied \<Rightarrow>
                 (if denied then deny ErrNotFound
                  else if assuranceInadequate reg caller op \<or>
                     protected \<and> id_SessionID caller \<noteq> [] \<and> \<not> AdequateAssurance (id_Factors caller)
                    then deny ErrUnauthorized
                  else (Inr ((blank_proof kindTenant op (ta_tok a))
                          \<lparr>pf_chain := chain, pf_selfConfig := protected\<rparr>), a)))))"

definition authorizeTenant ::
  "Registry \<Rightarrow> Resolver \<Rightarrow> Ctx \<Rightarrow> Identity \<Rightarrow> Operation \<Rightarrow> authorizationSpec \<Rightarrow> Scope
     \<Rightarrow> TxAuthorizer \<Rightarrow> (authz_error + Proof) \<times> TxAuthorizer" where
  "authorizeTenant reg r ctx caller op spec scope a =
     (case scope_Level scope of None \<Rightarrow> (Inl ScopeGap, a)
      | Some level \<Rightarrow>
        (if level \<noteq> as_level spec then (Inl ScopeDepth, a)
         else (case ResolveChain r scope of
            Inl e \<Rightarrow>
              (if e = ErrNotFound
               then refuse ctx (id_Principal caller) op spec resolutionUnresolvable no_scope scope e a
               else (Inl e, a))
          | Inr chain \<Rightarrow>
            (case Grants r (id_Principal caller) of Inl e \<Rightarrow> (Inl e, a)
             | Inr grants \<Rightarrow>
               (case evaluate (as_formula spec) chain grants of
                  None \<Rightarrow> (Inl UnknownLevelPanic, a)
                | Some False \<Rightarrow>
                    refuse ctx (id_Principal caller) op spec resolutionResolvable chain no_scope ErrNotFound a
                | Some True \<Rightarrow>
                    (if IsServiceAccountKind (id_Class caller) \<and> op = OpEnvDelete
                     then (case EnvironmentProtected r (Env chain) of Inl e \<Rightarrow> (Inl e, a)
                       | Inr protected \<Rightarrow>
                           (if protected
                            then refuse ctx (id_Principal caller) op spec resolutionResolvable chain scope
                                   ErrNotFound a
                            else tenantConjuncts reg r ctx caller op spec chain grants a))
                     else tenantConjuncts reg r ctx caller op spec chain grants a))))))"

definition authorizeInstance ::
  "Registry \<Rightarrow> Resolver \<Rightarrow> Ctx \<Rightarrow> Identity \<Rightarrow> Operation \<Rightarrow> authorizationSpec
     \<Rightarrow> TxAuthorizer \<Rightarrow> (authz_error + Proof) \<times> TxAuthorizer" where
  "authorizeInstance reg r ctx caller op spec a =
     (let deny = refuse ctx (id_Principal caller) op spec resolutionResolvable no_scope no_scope ErrUnauthorized a in
      if op \<in> {OpSelfConfigStatus, OpSelfConfigAdopt, OpSelfConfigPreview} \<and> id_Class caller \<noteq> [] \<and>
         id_Class caller \<noteq> ClassHuman then deny
      else (case Grants r (id_Principal caller) of Inl e \<Rightarrow> (Inl e, a)
        | Inr grants \<Rightarrow>
          (case evaluate (as_formula spec) no_scope grants of
             None \<Rightarrow> (Inl UnknownLevelPanic, a)
           | Some False \<Rightarrow> deny
           | Some True \<Rightarrow>
               (if assuranceInadequate reg caller op then deny
                else (case evaluate [atom CapInstanceConfig LevelNone] no_scope grants of
                        None \<Rightarrow> (Inl UnknownLevelPanic, a)
                      | Some admin \<Rightarrow>
                          (Inr ((blank_proof kindInstance op (ta_tok a))
                             \<lparr>pf_selfConfigAdmin := selfConfigSessionEligible caller \<and> admin\<rparr>), a))))))"

definition ArtifactInstanceCredential :: go_string where
  "ArtifactInstanceCredential = ''instance-credential''"

definition Authorize ::
  "Registry \<Rightarrow> Resolver \<Rightarrow> Ctx \<Rightarrow> Identity \<Rightarrow> Operation \<Rightarrow> Scope
     \<Rightarrow> TxAuthorizer \<Rightarrow> (authz_error + Proof) \<times> TxAuthorizer" where
  "Authorize reg r ctx caller op scope a =
     (case authorization_spec reg op of None \<Rightarrow> (Inl UnknownOperation, a)
      | Some spec \<Rightarrow>
        (if id_Principal caller = [] then (Inl EmptyPrincipal, a)
         else if \<not> ctx_network ctx \<and> id_Class caller = ClassInstanceConn \<and>
              ctx_admits ctx op ArtifactInstanceCredential \<noteq> (True, True)
           then refuse ctx (id_Principal caller) op spec resolutionUnresolvable no_scope scope
                  (if as_class spec = ClassTenant then ErrNotFound else ErrUnauthorized) a
         else (case as_class spec of
             ClassTenant \<Rightarrow> authorizeTenant reg r ctx caller op spec scope a
           | ClassInstance \<Rightarrow>
               (if scope \<noteq> no_scope then (Inl InstanceWithScope, a)
                else authorizeInstance reg r ctx caller op spec a)
           | _ \<Rightarrow> (Inl NotMintable, a))))"

definition ContractArtifactClass :: "Identity \<Rightarrow> go_string" where
  "ContractArtifactClass caller =
     (if id_Class caller = [] then ''local''
      else if id_Class caller = ClassHuman then ''human-session''
      else if id_Class caller = ClassInstanceConn then ''instance-credential''
      else if id_Class caller = ClassProvisioning then ''scim-credential''
      else if IsServiceAccountKind (id_Class caller) then ''machine-credential''
      else [])"

section \<open>Affordance questions\<close>

definition principalFormulaEvaluation ::
  "Registry \<Rightarrow> Resolver \<Rightarrow> PrincipalID \<Rightarrow> Operation \<Rightarrow> Scope \<Rightarrow> authz_error + authorizationSpec \<times> Scope \<times> bool" where
  "principalFormulaEvaluation reg r who op scope =
     (case authorization_spec reg op of None \<Rightarrow> Inl UnknownOperation
      | Some spec \<Rightarrow>
        (case ResolveChain r scope of
           Inl e \<Rightarrow> (if e = ErrNotFound then Inr (spec, no_scope, False) else Inl e)
         | Inr chain \<Rightarrow>
           (case Grants r who of Inl e \<Rightarrow> Inl e
            | Inr grants \<Rightarrow>
              (case selfConfigProfile r
                      \<lparr>id_Principal = who, id_Class = [], id_SessionID = [], id_CredentialID = [],
                       id_Factors = []\<rparr> op chain grants of
                 Inl e \<Rightarrow> Inl e
               | Inr (_, permitted) \<Rightarrow>
                   (if \<not> permitted then Inr (spec, chain, False)
                    else (case evaluate (as_formula spec) chain grants of
                            None \<Rightarrow> Inl UnknownLevelPanic | Some b \<Rightarrow> Inr (spec, chain, b)))))))"

definition CallerHolds :: "Registry \<Rightarrow> Resolver \<Rightarrow> Identity \<Rightarrow> Operation \<Rightarrow> Scope \<Rightarrow> authz_error + bool" where
  "CallerHolds reg r caller op scope =
     (if id_Principal caller = [] then Inl EmptyPrincipal
      else (case principalFormulaEvaluation reg r (id_Principal caller) op scope of
          Inl e \<Rightarrow> Inl e
        | Inr (_, chain, holds) \<Rightarrow>
            (if \<not> holds then Inr False
             else (case IsSelfConfigScope r chain of Inl e \<Rightarrow> Inl e
               | Inr protected \<Rightarrow>
                   (if protected \<and> \<not> selfConfigSessionEligible caller then Inr False
                    else Inr (\<not> assuranceInadequate reg caller op))))))"

definition HoldsInstanceCapability :: "Registry \<Rightarrow> Resolver \<Rightarrow> Identity \<Rightarrow> Operation \<Rightarrow> authz_error + bool" where
  "HoldsInstanceCapability reg r caller op =
     (if id_Principal caller = [] then Inl EmptyPrincipal
      else (case authorization_spec reg op of None \<Rightarrow> Inl UnknownOperation
        | Some spec \<Rightarrow>
          (if as_class spec \<noteq> ClassInstance then Inl NotInstanceScoped
           else if op \<in> {OpSelfConfigStatus, OpSelfConfigAdopt, OpSelfConfigPreview} \<and>
                \<not> selfConfigSessionEligible caller then Inr False
           else (case Grants r (id_Principal caller) of Inl e \<Rightarrow> Inl e
             | Inr grants \<Rightarrow>
               (case evaluate (as_formula spec) no_scope grants of None \<Rightarrow> Inl UnknownLevelPanic
                | Some False \<Rightarrow> Inr False
                | Some True \<Rightarrow> Inr (\<not> assuranceInadequate reg caller op))))))"

text \<open>The caller and the authority of a captured delegation denial are written into its event.\<close>

definition attributeLast :: "Identity \<Rightarrow> PrincipalID \<Rightarrow> nat \<Rightarrow> TxAuthorizer \<Rightarrow> TxAuthorizer" where
  "attributeLast caller who before a =
     (if length (ta_denials a) > before then
        (let d = last (ta_denials a);
             e = (dn_Event d)\<lparr>ev_Actor := (ev_Actor (dn_Event d))\<lparr>ac_CredentialID := id_CredentialID caller\<rparr>,
                   ev_AuthorityID := who\<rparr>
         in a\<lparr>ta_denials := butlast (ta_denials a) @ [d\<lparr>dn_Event := e\<rparr>]\<rparr>)
      else a)"

definition RecordedPrincipalHolds ::
  "Registry \<Rightarrow> Resolver \<Rightarrow> Ctx \<Rightarrow> Identity \<Rightarrow> PrincipalID \<Rightarrow> Operation \<Rightarrow> Scope \<Rightarrow> TxAuthorizer
     \<Rightarrow> (authz_error + bool) \<times> TxAuthorizer" where
  "RecordedPrincipalHolds reg r ctx caller who op scope a =
     (if id_Principal caller = [] \<or> who = [] then (Inl EmptyPrincipal, a)
      else (case principalFormulaEvaluation reg r who op scope of
          Inl e \<Rightarrow> (Inl e, a)
        | Inr (spec, chain, holds) \<Rightarrow>
            (if holds then (Inr True, a)
             else (let a' = (if chain = no_scope
                     then captureDenial ctx (id_Principal caller) op spec resolutionUnresolvable no_scope scope a
                     else captureDenial ctx (id_Principal caller) op spec resolutionResolvable chain no_scope a)
                   in (Inr False, attributeLast caller who (length (ta_denials a)) a')))))"

section \<open>System authority\<close>

definition bootKeyringOps :: "StoreOp list" where
  "bootKeyringOps =
     [''keys.ActiveMasterWrappers'', ''keys.ActiveTier3'', ''keys.Tier3Versions'',
      ''keys.AllOpenableTier3'', ''keys.AcquireHierarchyGeneration'', ''keys.InsertMaster'',
      ''keys.InsertTier3'', ''keys.InsertScopeGeneration'']"

definition systemSites :: "(SystemSite \<times> StoreOp list) list" where
  "systemSites =
     [(''self-config-seed'', [''selfconfig.SeedInputs'', ''selfconfig.HostSeedInputs'', ''selfconfig.PutSeedInput'']),
      (''self-config-recovery'', [''selfconfig.Binding'', ''selfconfig.Jobs'', ''selfconfig.Nodes'',
         ''selfconfig.Retained'', ''selfconfig.RecoverTarget'', ''snapshots.AtRevision'',
         ''snapshots.Entries'', ''snapshots.ParameterContract'', ''catalogue.List'',
         ''catalogue.SchemaRevision'', ''audit.InsertTenant'']),
      (''self-config-runtime'', [''selfconfig.Binding'', ''selfconfig.PreviousRevision'', ''selfconfig.Rollout'',
         ''selfconfig.PutRollout'', ''selfconfig.NextRolloutSequence'', ''selfconfig.Jobs'',
         ''selfconfig.Job'', ''selfconfig.Nodes'', ''selfconfig.Retained'', ''selfconfig.PutNode'',
         ''selfconfig.FinishJob'', ''selfconfig.FenceRestored'', ''snapshots.AtRevision'',
         ''snapshots.Entries'', ''snapshots.ParameterContract'', ''catalogue.List'',
         ''catalogue.SchemaRevision'', ''audit.InsertTenant'']),
      (''local-escrow-verification'', [''keys.ActiveMasterWrappers'', ''keys.AllOpenableTier3'',
         ''keys.AcquireHierarchyGeneration'', ''retention.RecordEscrow'', ''audit.InsertInstance'']),
      (''boot'', bootKeyringOps),
      (''migration'', []),
      (''recovery-mode-reconciliation'', []),
      (''break-glass'', []),
      (''scheduler'', [''retention.Diagnostics'', ''retention.Eligible'', ''retention.MarkCollected'',
         ''retention.DeleteCollectedEntries'', ''retention.LastPruneSuccess'',
         ''retention.SetLastPruneSuccess'', ''audit.InsertTenant'', ''retention.AuditPolicy'',
         ''retention.SetAuditPolicy'', ''retention.PruneAudit'', ''audit.InsertInstance'',
         ''definitions.PruneExpiredPlans'', ''approvals.SelectExpired'', ''approvals.MarkExpired'',
         ''approvals.OperationalCounts'', ''values.InstancePayloadByProject'',
         ''snapshots.InstancePayloadByProject'', ''backupstate.Get'',
         ''backupstate.SetExportSuccess'', ''backupstate.SetExportFailure'',
         ''backupstate.SetPruneSuccess'', ''backupstate.SetDrill'', ''values.SampleSecretEntry'',
         ''adapters.HealthCounts''])]"

definition systemSiteEvents :: "(SystemSite \<times> EventType list) list" where
  "systemSiteEvents =
     [(''self-config-recovery'', [''self_config.recovered'']),
      (''self-config-runtime'', [''self_config.applied'', ''self_config.recovery_fenced'', ''self_config.test_completed'']),
      (''local-escrow-verification'', [''crypto.root_escrow_verified'']),
      (''scheduler'', [''retention.audit_policy_changed'', ''retention.audit_pruned'', ''retention.payload_gc'',
         ''retention.prune_run'', ''system.update_outcome'', ''approval.expired'',
         ''backup.export_failed''])]"

definition SiteSelfConfigSeed :: SystemSite where "SiteSelfConfigSeed = ''self-config-seed''"
definition SiteSelfConfigRecovery :: SystemSite where "SiteSelfConfigRecovery = ''self-config-recovery''"
definition SiteSelfConfigRuntime :: SystemSite where "SiteSelfConfigRuntime = ''self-config-runtime''"

definition SystemAuthority :: "SystemSite \<Rightarrow> TxToken option \<Rightarrow> authz_error + Proof" where
  "SystemAuthority site tok =
     (if site \<in> {SiteSelfConfigRuntime, SiteSelfConfigRecovery, SiteSelfConfigSeed} then Inl NeedsBoundResolver
      else if map_of systemSites site = None then Inl NotASystemSite
      else (case tok of None \<Rightarrow> Inl NoTransaction
        | Some t \<Rightarrow> Inr ((blank_proof kindSystem (''system:'' @ site) t)\<lparr>pf_site := site\<rparr>)))"

definition ScopedSystemAuthority :: "Resolver \<Rightarrow> SystemSite \<Rightarrow> Scope \<Rightarrow> TxAuthorizer \<Rightarrow> authz_error + Proof" where
  "ScopedSystemAuthority r site scope a =
     (if site \<in> {SiteSelfConfigRuntime, SiteSelfConfigRecovery, SiteSelfConfigSeed} then Inl NeedsBoundResolver
      else if map_of systemSites site = None then Inl NotASystemSite
      else if Org scope = [] then Inl NeedsTenantScope
      else (case ResolveChain r scope of Inl e \<Rightarrow> Inl e
        | Inr chain \<Rightarrow>
            Inr ((blank_proof kindSystem (''system:'' @ site) (ta_tok a))\<lparr>pf_site := site, pf_chain := chain\<rparr>)))"

definition SelfConfigSeedAuthority :: "Ctx \<Rightarrow> TxAuthorizer \<Rightarrow> authz_error + Proof" where
  "SelfConfigSeedAuthority ctx a =
     (if ctx_network ctx then Inl NetworkForbidden
      else Inr ((blank_proof kindSystem (''system:'' @ SiteSelfConfigSeed) (ta_tok a))
                  \<lparr>pf_site := SiteSelfConfigSeed\<rparr>))"

definition SelfConfigRuntimeAuthority ::
  "Resolver \<Rightarrow> Ctx \<Rightarrow> go_string \<Rightarrow> TxAuthorizer \<Rightarrow> authz_error + Proof" where
  "SelfConfigRuntimeAuthority r ctx snapshotID a =
     (if ctx_network ctx then Inl NetworkForbidden
      else (case SelfConfigBinding r of Inl e \<Rightarrow> Inl e
        | Inr (scope, desired) \<Rightarrow>
          (let sid = (if snapshotID = [] then desired else snapshotID) in
           case SelfConfigRetained r sid of Inl e \<Rightarrow> Inl e
           | Inr retained \<Rightarrow>
               (if \<not> retained then Inl ErrNotFound
                else Inr ((blank_proof kindSystem (''system:'' @ SiteSelfConfigRuntime) (ta_tok a))
                       \<lparr>pf_site := SiteSelfConfigRuntime, pf_chain := scope, pf_selfConfig := True,
                        pf_runtimeSnapshotID := sid\<rparr>)))))"

definition SelfConfigRecoveryAuthority ::
  "Resolver \<Rightarrow> Ctx \<Rightarrow> int \<Rightarrow> TxAuthorizer \<Rightarrow> authz_error + Proof" where
  "SelfConfigRecoveryAuthority r ctx revision a =
     (if ctx_network ctx then Inl NetworkForbidden
      else if revision < 1 then Inl ErrInvalid
      else (case SelfConfigBinding r of Inl e \<Rightarrow> Inl e
        | Inr b \<Rightarrow>
          (case SelfConfigRecoverySnapshot r b revision of Inl e \<Rightarrow> Inl e
           | Inr sid \<Rightarrow>
               Inr ((blank_proof kindSystem (''system:'' @ SiteSelfConfigRecovery) (ta_tok a))
                  \<lparr>pf_site := SiteSelfConfigRecovery, pf_chain := fst b, pf_selfConfig := True,
                   pf_runtimeSnapshotID := sid\<rparr>))))"

definition VerifySelfConfigSnapshot :: "Proof option \<Rightarrow> go_string \<Rightarrow> bool" where
  "VerifySelfConfigSnapshot p snapshotID =
     (case p of None \<Rightarrow> False
      | Some c \<Rightarrow> \<not> (pf_site c \<in> {SiteSelfConfigRuntime, SiteSelfConfigRecovery} \<and>
                    pf_runtimeSnapshotID c \<noteq> snapshotID))"

section \<open>The store boundary\<close>

datatype verify_error = NilProof | ForeignTransaction | EndedTransaction | NotLicensed | EventNotLicensed

text \<open>
  \<open>Verify\<close>: the proof (\<open>None\<close> is nil), the store operation, the token of the transaction the
  store method is bound to (\<open>None\<close> is nil), and the tokens that \<open>Invalidate\<close> has marked dead.
\<close>

definition Verify ::
  "Registry \<Rightarrow> TxToken set \<Rightarrow> Proof option \<Rightarrow> StoreOp \<Rightarrow> TxToken option \<Rightarrow> verify_error + Scope" where
  "Verify reg dead p so tok =
     (case p of None \<Rightarrow> Inl NilProof
      | Some c \<Rightarrow>
        (if tok \<noteq> Some (pf_tok c) then Inl ForeignTransaction
         else if pf_tok c \<in> dead then Inl EndedTransaction
         else (case pf_kind c of
             kindSystem \<Rightarrow>
               (case map_of systemSites (pf_site c) of
                  Some sos \<Rightarrow> (if so \<in> set sos then Inr (pf_chain c) else Inl NotLicensed)
                | None \<Rightarrow> Inl NotLicensed)
           | _ \<Rightarrow> (if permitsStoreOp reg (pf_op c) so then Inr (pf_chain c) else Inl NotLicensed))))"

definition VerifyEvent ::
  "Registry \<Rightarrow> TxToken set \<Rightarrow> Proof option \<Rightarrow> StoreOp \<Rightarrow> TxToken option \<Rightarrow> EventType \<Rightarrow> verify_error + Scope" where
  "VerifyEvent reg dead p so tok et =
     (case Verify reg dead p so tok of Inl e \<Rightarrow> Inl e
      | Inr chain \<Rightarrow>
        (case p of None \<Rightarrow> Inl NilProof
         | Some c \<Rightarrow>
           (if (case pf_kind c of
                  kindSystem \<Rightarrow> (case map_of systemSiteEvents (pf_site c) of
                                   None \<Rightarrow> False | Some ets \<Rightarrow> et \<in> set ets)
                | _ \<Rightarrow> permitsEvent reg (pf_op c) et)
            then Inr chain else Inl EventNotLicensed)))"

definition IsSystemProof :: "Proof option \<Rightarrow> bool" where
  "IsSystemProof p = (case p of None \<Rightarrow> False | Some c \<Rightarrow> pf_kind c = kindSystem)"

definition IsSelfConfig :: "TxToken set \<Rightarrow> Proof option \<Rightarrow> bool" where
  "IsSelfConfig dead p = (case p of None \<Rightarrow> False | Some c \<Rightarrow> pf_selfConfig c \<and> pf_tok c \<notin> dead)"

definition IncludesSelfConfig :: "TxToken set \<Rightarrow> Proof option \<Rightarrow> bool" where
  "IncludesSelfConfig dead p = (case p of None \<Rightarrow> False | Some c \<Rightarrow> pf_selfConfigAdmin c \<and> pf_tok c \<notin> dead)"

text \<open>The only write to the token heap is \<open>Invalidate\<close>.\<close>

definition Invalidate :: "TxToken \<Rightarrow> TxToken set \<Rightarrow> TxToken set" where
  "Invalidate t dead = insert t dead"

inductive token_step :: "TxToken set \<Rightarrow> TxToken set \<Rightarrow> bool" where
  invalidate: "token_step dead (Invalidate t dead)"

section \<open>Properties of the evaluation\<close>

definition valid_formula :: "Formula \<Rightarrow> bool" where
  "valid_formula f \<longleftrightarrow> (\<forall>a \<in> set f. validLevel (atom_At a))"

lemma truncate_valid: "validLevel l \<Longrightarrow> truncate_at s l \<noteq> None"
  by (auto simp: validLevel_def tenantLevel_def truncate_at_def)

text \<open>A gap-free grant scope covers a target exactly when it is the target cut to the grant's level.\<close>

lemma covers_truncate:
  assumes "scope_Level g = Some l"
  shows "covers g t \<longleftrightarrow> truncate_at t l = Some g"
  using assms
  by (cases g; cases t) (auto simp: scope_Level_def covers_def truncate_at_def level_defs split: if_splits)

definition holds_atom :: "Grant list \<Rightarrow> Scope \<Rightarrow> Atom \<Rightarrow> bool" where
  "holds_atom grants chain a \<longleftrightarrow>
     (\<exists>g \<in> set grants. \<exists>t. truncate_at chain (atom_At a) = Some t \<and> grant_Cap g = atom_Cap a \<and>
        covers (grant_Scope g) t)"

lemma evaluate_True: "evaluate f chain grants = Some True \<longleftrightarrow> (\<forall>a \<in> set f. holds_atom grants chain a)"
  by (induction f) (auto simp: holds_atom_def list_ex_iff split: option.splits)

lemma evaluate_total: "valid_formula f \<Longrightarrow> evaluate f chain grants \<noteq> None"
proof (induction f)
  case (Cons a f)
  then show ?case
    using truncate_valid [of "atom_At a" chain] by (auto simp: valid_formula_def)
qed simp

text \<open>
  C28: with the levels a registry admits, evaluation never panics and answers exactly whether every atom is
  held by some grant whose scope is the addressed chain at the atom's level or above; more grants never
  withdraw an answer.
\<close>

theorem evaluate_correct:
  assumes "valid_formula f"
  shows "evaluate f chain grants =
      Some (\<forall>a \<in> set f. \<exists>g \<in> set grants. grant_Cap g = atom_Cap a \<and>
             covers (grant_Scope g) (the (truncate_at chain (atom_At a)))) \<and>
    (evaluate f chain grants = Some True \<longrightarrow> evaluate f chain (grants @ extra) = Some True)"
proof -
  have "holds_atom grants chain a \<longleftrightarrow> (\<exists>g \<in> set grants. grant_Cap g = atom_Cap a \<and>
      covers (grant_Scope g) (the (truncate_at chain (atom_At a))))" if "a \<in> set f" for a
    using assms truncate_valid [of "atom_At a" chain] that by (auto simp: valid_formula_def holds_atom_def)
  then have "evaluate f chain grants = Some True \<longleftrightarrow>
      (\<forall>a \<in> set f. \<exists>g \<in> set grants. grant_Cap g = atom_Cap a \<and>
             covers (grant_Scope g) (the (truncate_at chain (atom_At a))))"
    by (simp add: evaluate_True)
  moreover have "evaluate f chain (grants @ extra) = Some True" if "evaluate f chain grants = Some True"
    using that by (force simp: evaluate_True holds_atom_def)
  ultimately show ?thesis
    using evaluate_total [OF assms, of chain grants] by (cases "evaluate f chain grants") auto
qed

theorem evaluate_correct_witness:
  "valid_formula [atom CapReveal LevelEnv] \<and>
   evaluate [atom CapReveal LevelEnv] \<lparr>Org = ''o'', Project = ''p'', Env = ''e''\<rparr>
     [\<lparr>grant_Cap = CapReveal, grant_Scope = \<lparr>Org = ''o'', Project = ''p'', Env = []\<rparr>\<rparr>] = Some True"
  using evaluate_correct [of "[atom CapReveal LevelEnv]" "\<lparr>Org = ''o'', Project = ''p'', Env = ''e''\<rparr>"
     "[\<lparr>grant_Cap = CapReveal, grant_Scope = \<lparr>Org = ''o'', Project = ''p'', Env = []\<rparr>\<rparr>]" "[]"]
  by (simp add: valid_formula_def validLevel_def tenantLevel_def truncate_at_def covers_def level_defs)

section \<open>Properties of Authorize\<close>

lemmas authorize_defs = Authorize_def authorizeTenant_def authorizeInstance_def tenantConjuncts_def
  refuse_def Let_def

lemma machineRevealWithdrawn_False:
  "machineRevealWithdrawn r caller f chain = Inr False \<Longrightarrow> IsServiceAccountKind (id_Class caller) \<Longrightarrow>
   Project chain \<noteq> [] \<Longrightarrow> a \<in> set f \<Longrightarrow> atom_Cap a = CapReveal \<or> atom_Cap a = CapRevealHistory \<Longrightarrow>
   \<exists>n. ProjectMachineReveal r (Project chain) = Inr (True, n)"
  by (auto simp: machineRevealWithdrawn_def list_ex_iff split: if_splits sum.splits prod.splits)

lemma selfConfigProfile_permitted:
  "selfConfigProfile r caller op chain grants = Inr (True, True) \<Longrightarrow>
   (id_Class caller = [] \<or> id_Class caller = ClassHuman) \<and> op \<in> set selfConfigOperations \<and>
   evaluate [atom CapInstanceConfig LevelNone] chain grants = Some True"
  by (auto simp: selfConfigProfile_def Let_def evaluate_True split: if_splits sum.splits option.splits)

lemma tenantConjuncts_Inr:
  "tenantConjuncts reg r ctx caller op spec chain grants a = (Inr p, a') \<Longrightarrow>
   a' = a \<and> (\<exists>protected. selfConfigProfile r caller op chain grants = Inr (protected, True) \<and>
     machineRevealWithdrawn r caller (as_formula spec) chain = Inr False \<and>
     \<not> assuranceInadequate reg caller op \<and>
     (protected \<and> id_SessionID caller \<noteq> [] \<longrightarrow> AdequateAssurance (id_Factors caller)) \<and>
     pf_kind p = kindTenant \<and> pf_op p = op \<and> pf_chain p = chain \<and> pf_tok p = ta_tok a \<and>
     pf_selfConfig p = protected)"
  by (auto simp: tenantConjuncts_def refuse_def Let_def split: sum.splits prod.splits if_splits)

lemma authorizeTenant_Inr:
  "authorizeTenant reg r ctx caller op spec scope a = (Inr p, a') \<Longrightarrow>
   scope_Level scope = Some (as_level spec) \<and>
   (\<exists>chain grants. ResolveChain r scope = Inr chain \<and> Grants r (id_Principal caller) = Inr grants \<and>
     evaluate (as_formula spec) chain grants = Some True \<and>
     (IsServiceAccountKind (id_Class caller) \<and> op = OpEnvDelete \<longrightarrow>
        EnvironmentProtected r (Env chain) = Inr False) \<and>
     tenantConjuncts reg r ctx caller op spec chain grants a = (Inr p, a'))"
  by (auto simp: authorizeTenant_def refuse_def split: sum.splits option.splits if_splits bool.splits)

lemma authorizeInstance_Inr:
  "authorizeInstance reg r ctx caller op spec a = (Inr p, a') \<Longrightarrow>
   a' = a \<and> (\<exists>grants admin. Grants r (id_Principal caller) = Inr grants \<and>
     evaluate (as_formula spec) no_scope grants = Some True \<and> \<not> assuranceInadequate reg caller op \<and>
     evaluate [atom CapInstanceConfig LevelNone] no_scope grants = Some admin \<and>
     p = (blank_proof kindInstance op (ta_tok a))
           \<lparr>pf_selfConfigAdmin := selfConfigSessionEligible caller \<and> admin\<rparr>)"
  by (auto simp: authorizeInstance_def refuse_def Let_def split: sum.splits option.splits if_splits bool.splits)

lemma Authorize_unchanged: "Authorize reg r ctx caller op scope a = (Inr p, a') \<Longrightarrow> a' = a"
  by (auto simp: Authorize_def refuse_def split: option.splits if_splits Class.splits
      dest!: authorizeTenant_Inr tenantConjuncts_Inr authorizeInstance_Inr)

text \<open>
  C2: a proof is minted only for a registered operation and a named principal, over a chain the database
  resolved and a formula that the principal's stored grants satisfy there; it is bound to the operation
  and to the transaction, the session's assurance is adequate, and nothing is recorded as denied.
\<close>

theorem Authorize_sound:
  assumes "Authorize reg r ctx caller op scope a = (Inr p, a')"
  shows "id_Principal caller \<noteq> [] \<and> a' = a \<and> pf_op p = op \<and> pf_tok p = ta_tok a \<and>
    \<not> assuranceInadequate reg caller op \<and>
    (\<exists>spec grants. authorization_spec reg op = Some spec \<and> Grants r (id_Principal caller) = Inr grants \<and>
       evaluate (as_formula spec) (pf_chain p) grants = Some True \<and>
       (as_class spec = ClassTenant \<and> pf_kind p = kindTenant \<and> scope_Level scope = Some (as_level spec) \<and>
          ResolveChain r scope = Inr (pf_chain p)
        \<or> as_class spec = ClassInstance \<and> pf_kind p = kindInstance \<and> scope = no_scope \<and>
          pf_chain p = no_scope))"
proof -
  obtain spec where spec: "authorization_spec reg op = Some spec" and who: "id_Principal caller \<noteq> []"
    and minted: "as_class spec = ClassTenant \<and> authorizeTenant reg r ctx caller op spec scope a = (Inr p, a') \<or>
      as_class spec = ClassInstance \<and> scope = no_scope \<and> authorizeInstance reg r ctx caller op spec a = (Inr p, a')"
    using assms by (auto simp: Authorize_def refuse_def split: option.splits if_splits Class.splits)
  from minted show ?thesis
    using spec who by (auto dest!: authorizeTenant_Inr tenantConjuncts_Inr authorizeInstance_Inr)
qed

lemma Authorize_tenant_Inr:
  assumes "Authorize reg r ctx caller op scope a = (Inr p, a')" "pf_kind p = kindTenant"
  obtains spec grants where "authorization_spec reg op = Some spec" "Grants r (id_Principal caller) = Inr grants"
    "tenantConjuncts reg r ctx caller op spec (pf_chain p) grants a = (Inr p, a')"
proof -
  obtain spec where spec: "authorization_spec reg op = Some spec"
    and minted: "authorizeTenant reg r ctx caller op spec scope a = (Inr p, a') \<or>
      authorizeInstance reg r ctx caller op spec a = (Inr p, a')"
    using assms(1) by (auto simp: Authorize_def refuse_def split: option.splits if_splits Class.splits)
  from minted have "authorizeTenant reg r ctx caller op spec scope a = (Inr p, a')"
    using assms(2) by (auto dest!: authorizeInstance_Inr)
  then obtain chain grants where grants: "Grants r (id_Principal caller) = Inr grants"
    and conj: "tenantConjuncts reg r ctx caller op spec chain grants a = (Inr p, a')"
    by (auto dest!: authorizeTenant_Inr)
  then have "pf_chain p = chain"
    by (auto dest!: tenantConjuncts_Inr)
  then show thesis
    using that spec grants conj by simp
qed

text \<open>
  C10: a service account is never given a proof for a disclosing operation in a project whose machine-reveal
  opt-in is off, unreadable or missing, whatever it was granted.
\<close>

theorem Authorize_machine_reveal:
  assumes "Authorize reg r ctx caller op scope a = (Inr p, a')"
    and "pf_kind p = kindTenant" "Project (pf_chain p) \<noteq> []"
    and "IsServiceAccountKind (id_Class caller)"
    and "authorization_spec reg op = Some spec" "b \<in> set (as_formula spec)"
    and "atom_Cap b = CapReveal \<or> atom_Cap b = CapRevealHistory"
  shows "\<exists>generation. ProjectMachineReveal r (Project (pf_chain p)) = Inr (True, generation)"
proof -
  obtain spec' grants where "authorization_spec reg op = Some spec'"
    "tenantConjuncts reg r ctx caller op spec' (pf_chain p) grants a = (Inr p, a')"
    using Authorize_tenant_Inr [OF assms(1,2)] .
  then have "machineRevealWithdrawn r caller (as_formula spec) (pf_chain p) = Inr False"
    using assms(5) by (auto dest!: tenantConjuncts_Inr)
  then show ?thesis
    using assms(4,3,6,7) by (rule machineRevealWithdrawn_False)
qed

text \<open>
  C27: inside the self-config scope a proof goes only to a human or local caller with adequate assurance,
  for one of the listed operations, whose grants hold the instance-configuration capability; and the two
  self-config operations are refused everywhere else.
\<close>

theorem Authorize_self_config:
  assumes "Authorize reg r ctx caller op scope a = (Inr p, a')" "pf_kind p = kindTenant"
  shows "IsSelfConfigScope r (pf_chain p) = Inr (pf_selfConfig p) \<and>
    (pf_selfConfig p \<longrightarrow> selfConfigSessionEligible caller \<and> op \<in> set selfConfigOperations \<and>
       (\<exists>grants. Grants r (id_Principal caller) = Inr grants \<and>
          evaluate [atom CapInstanceConfig LevelNone] (pf_chain p) grants = Some True)) \<and>
    (\<not> pf_selfConfig p \<longrightarrow> op \<noteq> OpSelfConfigApply \<and> op \<noteq> OpSelfConfigTest)"
proof -
  obtain spec grants where grants: "Grants r (id_Principal caller) = Inr grants"
    and "tenantConjuncts reg r ctx caller op spec (pf_chain p) grants a = (Inr p, a')"
    using Authorize_tenant_Inr [OF assms] .
  then have profile: "selfConfigProfile r caller op (pf_chain p) grants = Inr (pf_selfConfig p, True)"
    and mfa: "pf_selfConfig p \<and> id_SessionID caller \<noteq> [] \<longrightarrow> AdequateAssurance (id_Factors caller)"
    by (auto dest!: tenantConjuncts_Inr)
  from profile have "IsSelfConfigScope r (pf_chain p) = Inr (pf_selfConfig p)"
    by (auto simp: selfConfigProfile_def Let_def split: sum.splits if_splits option.splits)
  with profile mfa grants show ?thesis
  proof (cases "pf_selfConfig p")
    case True
    with profile have "selfConfigProfile r caller op (pf_chain p) grants = Inr (True, True)" by simp
    from selfConfigProfile_permitted [OF this] mfa grants True \<open>IsSelfConfigScope r (pf_chain p) = _\<close>
    show ?thesis by (auto simp: selfConfigSessionEligible_def)
  qed (auto simp: selfConfigProfile_def)
qed

text \<open>
  The reads behind a decision fail with database errors, never with the grant refusal; only the address
  resolution, the environment's settings and the opt-in read may answer that the row is missing.
\<close>

definition resolver_errors :: "Resolver \<Rightarrow> bool" where
  "resolver_errors r \<longleftrightarrow>
     (\<forall>s. ResolveChain r s \<noteq> Inl ErrUnauthorized) \<and>
     (\<forall>w e. Grants r w = Inl e \<longrightarrow> e \<notin> {ErrNotFound, ErrUnauthorized}) \<and>
     (\<forall>v. EnvironmentProtected r v \<noteq> Inl ErrUnauthorized) \<and>
     (\<forall>s e. IsSelfConfigScope r s = Inl e \<longrightarrow> e \<notin> {ErrNotFound, ErrUnauthorized}) \<and>
     (\<forall>j. ProjectMachineReveal r j \<noteq> Inl ErrUnauthorized)"

text \<open>
  The one lookup behind a decision whose missing row is passed on as it is: a service account deletes an
  environment that was resolved, and the settings of that environment are not there.
\<close>

definition settings_missing :: "Resolver \<Rightarrow> Identity \<Rightarrow> Operation \<Rightarrow> Scope \<Rightarrow> bool" where
  "settings_missing r caller op scope \<longleftrightarrow> IsServiceAccountKind (id_Class caller) \<and> op = OpEnvDelete \<and>
     (\<exists>chain. ResolveChain r scope = Inr chain \<and> EnvironmentProtected r (Env chain) = Inl ErrNotFound)"

definition recorded :: "Ctx \<Rightarrow> Identity \<Rightarrow> Operation \<Rightarrow> TxAuthorizer \<Rightarrow> TxAuthorizer \<Rightarrow> bool" where
  "recorded ctx caller op a a' \<longleftrightarrow>
     (case NewEventID (ctx_uuid ctx) of None \<Rightarrow> a' = a\<lparr>ta_captureErr := True\<rparr>
      | Some eid \<Rightarrow>
          (let d = last (ta_denials a') in a' = a\<lparr>ta_denials := ta_denials a @ [d]\<rparr> \<and>
             ev_ID (dn_Event d) = eid \<and> ev_Type (dn_Event d) = ''grant.denied'' \<and>
             ac_ID (ev_Actor (dn_Event d)) = id_Principal caller \<and>
             (''operation'', VString op) \<in> set (ev_Payload (dn_Event d))))"

lemma captureDenial_recorded:
  "recorded ctx caller op a (captureDenial ctx (id_Principal caller) op spec res chain claimed a)"
  by (simp add: recorded_def captureDenial_def Let_def split: option.splits)

lemma tenantConjuncts_refusal:
  assumes "resolver_errors r" "tenantConjuncts reg r ctx caller op spec chain grants a = (Inl e, a')"
    "e \<in> {ErrNotFound, ErrUnauthorized}"
  shows "recorded ctx caller op a a'"
proof (cases "selfConfigProfile r caller op chain grants")
  case (Inl e')
  then have "e' \<notin> {ErrNotFound, ErrUnauthorized}"
    using assms(1)
    by (auto simp: selfConfigProfile_def resolver_errors_def Let_def split: sum.splits if_splits option.splits)
  then show ?thesis
    using assms Inl by (auto simp: tenantConjuncts_def Let_def)
next
  case (Inr pp)
  have "e' \<notin> {ErrNotFound, ErrUnauthorized}"
    if "machineRevealWithdrawn r caller (as_formula spec) chain = Inl e'" for e'
    using that assms(1)
    by (auto simp: machineRevealWithdrawn_def resolver_errors_def split: sum.splits if_splits)
  then show ?thesis
    using assms(2,3) Inr captureDenial_recorded
    by (auto simp: tenantConjuncts_def refuse_def Let_def split: sum.splits if_splits prod.splits)
qed

lemma authorizeTenant_refusal:
  assumes "resolver_errors r" "authorizeTenant reg r ctx caller op spec scope a = (Inl e, a')"
    "e \<in> {ErrNotFound, ErrUnauthorized}"
  shows "recorded ctx caller op a a' \<or> settings_missing r caller op scope \<and> e = ErrNotFound \<and> a' = a"
proof (rule disjCI)
  assume "\<not> (settings_missing r caller op scope \<and> e = ErrNotFound \<and> a' = a)"
  then show "recorded ctx caller op a a'"
    using assms(2,3) assms(1)
    by (auto simp: authorizeTenant_def refuse_def captureDenial_recorded resolver_errors_def settings_missing_def
        split: option.splits if_splits sum.splits bool.splits
        elim!: tenantConjuncts_refusal [OF assms(1)])
qed

lemma authorizeInstance_refusal:
  assumes "resolver_errors r" "authorizeInstance reg r ctx caller op spec a = (Inl e, a')"
    "e \<in> {ErrNotFound, ErrUnauthorized}"
  shows "recorded ctx caller op a a'"
  using assms(2,3) assms(1)
  by (auto simp: authorizeInstance_def refuse_def Let_def captureDenial_recorded resolver_errors_def
      split: option.splits if_splits sum.splits bool.splits)

lemma Authorize_refusal:
  assumes "resolver_errors r"
    and "Authorize reg r ctx caller op scope a = (Inl e, a')" "e \<in> {ErrNotFound, ErrUnauthorized}"
  shows "recorded ctx caller op a a' \<or> settings_missing r caller op scope \<and> e = ErrNotFound \<and> a' = a"
proof -
  obtain spec where spec: "authorization_spec reg op = Some spec"
    using assms(2,3) by (auto simp: Authorize_def split: option.splits)
  then consider (refused) "recorded ctx caller op a a'"
    | (tenant) "authorizeTenant reg r ctx caller op spec scope a = (Inl e, a')"
    | (inst) "authorizeInstance reg r ctx caller op spec a = (Inl e, a')"
    using assms(2,3)
    by (auto simp: Authorize_def refuse_def captureDenial_recorded split: if_splits Class.splits)
  then show ?thesis
    using authorizeTenant_refusal [OF assms(1) _ assms(3)] authorizeInstance_refusal [OF assms(1) _ assms(3)]
    by cases blast+
qed

text \<open>
  C5: every uniform refusal leaves exactly one denial event, naming the actor and the operation, for the
  durable record; when the event id cannot be minted the capture failure is kept instead, and nothing
  else of the authorizer changes. The one exception is a service account's deletion of an environment
  whose settings are missing although the environment was resolved: that refusal leaves no record.
\<close>

theorem Authorize_refusal_recorded:
  assumes "resolver_errors r"
    and "Authorize reg r ctx caller op scope a = (Inl e, a')" "e \<in> {ErrNotFound, ErrUnauthorized}"
  shows "recorded ctx caller op a a' \<or> settings_missing r caller op scope \<and> e = ErrNotFound \<and> a' = a"
  using assms by (rule Authorize_refusal)

text \<open>
  C4: an address the caller may not use answers exactly like an address that does not exist: whatever the
  rest of the database holds, the caller sees the same error.
\<close>

theorem Authorize_unauthorized_is_nonexistent:
  assumes "authorization_spec reg op = Some spec" "as_class spec = ClassTenant"
    and missing: "ResolveChain r scope = Inl ErrNotFound"
    and present: "ResolveChain r' scope = Inr chain" "Grants r' (id_Principal caller) = Inr grants"
    and denied: "evaluate (as_formula spec) chain grants = Some False"
  shows "fst (Authorize reg r ctx caller op scope a) = fst (Authorize reg r' ctx caller op scope a)"
  using assms by (auto simp: Authorize_def authorizeTenant_def refuse_def split: option.splits)

section \<open>A captured denial can be written\<close>

text \<open>
  The flush fills in the actor class it reads for the principal, and writes the event to its trail.
\<close>

definition with_class :: "go_string \<Rightarrow> Event \<Rightarrow> Event" where
  "with_class c e = e\<lparr>ev_Actor := (ev_Actor e)\<lparr>ac_Class := c\<rparr>\<rparr>"

definition writable :: "go_string \<Rightarrow> Denial \<Rightarrow> bool" where
  "writable c d \<longleftrightarrow> Validate (with_class c (dn_Event d)) (dn_Trail d) (dn_Scope d) = None"

text \<open>The metadata a request carries: none, or metadata attached through \<open>WithContext\<close>.\<close>

definition wire_ok :: "Ctx \<Rightarrow> bool" where
  "wire_ok ctx \<longleftrightarrow> ctx_now ctx \<noteq> 0 \<and>
     (case ctx_attached ctx of None \<Rightarrow> True
      | Some c \<Rightarrow> cx_Origin c \<in> set origins \<and> (\<exists>raw. c = WithContext raw))"

definition tenant_chain :: "Scope \<Rightarrow> bool" where
  "tenant_chain s \<longleftrightarrow> Org s \<noteq> [] \<and> scope_Level s \<noteq> None"

lemma FromContext_clean:
  "wire_ok ctx \<Longrightarrow> clean (cx_SourceIP (FromContext (ctx_attached ctx))) \<and>
     clean (cx_UserAgent (FromContext (ctx_attached ctx))) \<and>
     cx_Origin (FromContext (ctx_attached ctx)) \<in> set origins"
  by (auto simp: wire_ok_def FromContext_def WithContext_def sanitize_clean origins_def split: option.splits)

definition denialSchema :: Schema where
  "denialSchema = [(''operation'', field_req KindString), (''formula'', field_req KindString),
      (''resolution'', field_enum True [''resolvable'', ''unresolvable'']),
      (''claimed_org'', field_opt KindFreeText), (''claimed_project'', field_opt KindFreeText),
      (''claimed_env'', field_opt KindFreeText)]"

lemma denial_payload_valid:
  "validate denialSchema ([(''operation'', VString op), (''formula'', VString f),
       (''resolution'', VString (resolutionName res))] @
      (if res = resolutionUnresolvable then claimedPayload claimed else []))"
  by (cases res)
    (auto simp: denialSchema_def validate.simps resolutionName_def checkConstraints_def asString_def
       claimedPayload_def checkSanitized_iff sanitize_clean)

lemma captureDenial_writable:
  assumes "wire_ok ctx" "who \<noteq> []" "chain = no_scope \<or> tenant_chain chain" "c = ActorHuman \<or> c = ActorMachine"
    "\<forall>d \<in> set (ta_denials a). writable c d"
  shows "\<forall>d \<in> set (ta_denials (captureDenial ctx who op spec res chain claimed a)). writable c d"
proof (cases "NewEventID (ctx_uuid ctx)")
  case (Some eid)
  then have "eid \<noteq> []" by (auto simp: NewEventID_def)
  moreover have "checkActor \<lparr>ac_ID = who, ac_Class = c, ac_CredentialID = []\<rparr> = None"
    using assms(2,4) by (simp add: checkActor_def)
  moreover have "ctx_now ctx \<noteq> 0" using assms(1) by (simp add: wire_ok_def)
  ultimately show ?thesis
    using assms(3,5) Some FromContext_clean [OF assms(1)]
    by (auto simp: captureDenial_def Let_def writable_def with_class_def Validate_None Spec_grant_denied
        denialSchema_def [symmetric] denial_payload_valid [simplified] checkTrailScope_def tenant_chain_def)
qed (use assms in \<open>simp add: captureDenial_def\<close>)

lemma tenantConjuncts_state:
  "tenantConjuncts reg r ctx caller op spec chain grants a = (res, a') \<Longrightarrow>
   a' = a \<or> a' = captureDenial ctx (id_Principal caller) op spec resolutionResolvable chain no_scope a"
  by (auto simp: tenantConjuncts_def refuse_def Let_def split: sum.splits if_splits prod.splits)

lemma authorizeTenant_state:
  "authorizeTenant reg r ctx caller op spec scope a = (res, a') \<Longrightarrow>
   a' = a \<or> (\<exists>rs chain claimed. a' = captureDenial ctx (id_Principal caller) op spec rs chain claimed a \<and>
     (chain = no_scope \<or> ResolveChain r scope = Inr chain))"
  by (auto simp: authorizeTenant_def refuse_def split: option.splits if_splits sum.splits bool.splits
      dest!: tenantConjuncts_state)

lemma authorizeInstance_state:
  "authorizeInstance reg r ctx caller op spec a = (res, a') \<Longrightarrow>
   a' = a \<or> (\<exists>rs claimed. a' = captureDenial ctx (id_Principal caller) op spec rs no_scope claimed a)"
  by (auto simp: authorizeInstance_def refuse_def Let_def split: option.splits if_splits sum.splits bool.splits)

lemma Authorize_state:
  assumes "Authorize reg r ctx caller op scope a = (res, a')"
  shows "a' = a \<or> id_Principal caller \<noteq> [] \<and>
    (\<exists>spec rs chain claimed. a' = captureDenial ctx (id_Principal caller) op spec rs chain claimed a \<and>
      (chain = no_scope \<or> ResolveChain r scope = Inr chain))"
  using assms
  by (auto simp: Authorize_def refuse_def split: option.splits if_splits Class.splits
      dest!: authorizeTenant_state authorizeInstance_state)

text \<open>
  C6: whatever is asked, every denial \<open>Authorize\<close> captures passes the audit write boundary once the
  actor's class is known: a refusal never becomes unrecordable because of what its caller sent.
\<close>

theorem Authorize_denials_writable:
  assumes "Authorize reg r ctx caller op scope a = (res, a')"
    and "wire_ok ctx" "c = ActorHuman \<or> c = ActorMachine"
    and "\<And>s chain. ResolveChain r s = Inr chain \<Longrightarrow> tenant_chain chain"
    and "\<forall>d \<in> set (ta_denials a). writable c d"
  shows "\<forall>d \<in> set (ta_denials a'). writable c d"
  using Authorize_state [OF assms(1)] captureDenial_writable [OF assms(2) _ _ assms(3,5)] assms(4,5)
  by metis

section \<open>Properties of the store boundary\<close>

lemma Verify_Inr:
  "Verify reg dead (Some p) so tok = Inr chain \<longleftrightarrow>
   tok = Some (pf_tok p) \<and> pf_tok p \<notin> dead \<and> chain = pf_chain p \<and>
   (if pf_kind p = kindSystem then (\<exists>sos. map_of systemSites (pf_site p) = Some sos \<and> so \<in> set sos)
    else permitsStoreOp reg (pf_op p) so)"
  by (cases "pf_kind p") (auto simp: Verify_def split: option.splits if_splits)

inductive_cases token_stepE: "token_step dead dead'"

lemma token_steps_mono: "token_step\<^sup>*\<^sup>* dead dead' \<Longrightarrow> dead \<subseteq> dead'"
  by (induction rule: rtranclp_induct) (auto elim!: token_stepE simp: Invalidate_def)

text \<open>
  A store call answers with a scope only inside the proof's own transaction while that transaction is
  open; once the transaction's token has been invalidated, no later state of the process lets any store
  call or audit event through on that proof.
\<close>

theorem Verify_after_Invalidate:
  assumes "token_step\<^sup>*\<^sup>* (Invalidate (pf_tok p) dead) dead'"
  shows "(\<exists>e. Verify reg dead' (Some p) so tok = Inl e) \<and> (\<exists>e. VerifyEvent reg dead' (Some p) so tok et = Inl e)"
proof -
  have "pf_tok p \<in> dead'"
    using token_steps_mono [OF assms] by (auto simp: Invalidate_def)
  then obtain e where "Verify reg dead' (Some p) so tok = Inl e"
    using Verify_Inr [of reg dead' p so tok] by (cases "Verify reg dead' (Some p) so tok") auto
  then show ?thesis
    by (simp add: VerifyEvent_def)
qed

theorem Verify_after_Invalidate_witness:
  "\<exists>e. Verify \<lparr>reg_ops = \<lambda>_. None\<rparr> (Invalidate 8 (Invalidate 7 {}))
      (Some ((blank_proof kindSystem ''system:boot'' 7)\<lparr>pf_site := ''boot''\<rparr>)) ''keys.InsertMaster'' (Some 7) = Inl e"
proof -
  let ?p = "(blank_proof kindSystem ''system:boot'' 7)\<lparr>pf_site := ''boot''\<rparr>"
  have "token_step\<^sup>*\<^sup>* (Invalidate (pf_tok ?p) {}) (Invalidate 8 (Invalidate 7 {}))"
    by (simp add: r_into_rtranclp token_step.invalidate)
  from Verify_after_Invalidate [OF this] show ?thesis by blast
qed

text \<open>
  C3: a store method reached through \<open>Authorize\<close> and \<open>Verify\<close> works on the chain the database resolved
  for the address of the call, under a formula that the caller's stored grants satisfy on that very
  chain, and the store operation is one the authorized operation lists.
\<close>

theorem store_scope_authorized:
  assumes "Authorize reg r ctx caller op scope a = (Inr p, a')"
    and "Verify reg dead (Some p) so tok = Inr chain"
  shows "tok = Some (ta_tok a) \<and> ta_tok a \<notin> dead \<and> permitsStoreOp reg op so \<and>
    (scope = no_scope \<and> chain = no_scope \<or> ResolveChain r scope = Inr chain) \<and>
    (\<exists>spec grants. authorization_spec reg op = Some spec \<and> Grants r (id_Principal caller) = Inr grants \<and>
       (\<forall>b \<in> set (as_formula spec). \<exists>g \<in> set grants. \<exists>t. truncate_at chain (atom_At b) = Some t \<and>
          grant_Cap g = atom_Cap b \<and> covers (grant_Scope g) t))"
proof -
  obtain spec where spec: "authorization_spec reg op = Some spec"
    and minted: "authorizeTenant reg r ctx caller op spec scope a = (Inr p, a') \<or>
      scope = no_scope \<and> authorizeInstance reg r ctx caller op spec a = (Inr p, a')"
    using assms(1) by (auto simp: Authorize_def refuse_def split: option.splits if_splits Class.splits)
  from minted obtain grants where p: "pf_op p = op" "pf_tok p = ta_tok a" "pf_kind p \<noteq> kindSystem"
    "scope = no_scope \<and> pf_chain p = no_scope \<or> ResolveChain r scope = Inr (pf_chain p)"
    "Grants r (id_Principal caller) = Inr grants" "evaluate (as_formula spec) (pf_chain p) grants = Some True"
    by (auto dest!: authorizeTenant_Inr tenantConjuncts_Inr authorizeInstance_Inr)
  from p(6) have "\<forall>b \<in> set (as_formula spec). \<exists>g \<in> set grants. \<exists>t.
      truncate_at (pf_chain p) (atom_At b) = Some t \<and> grant_Cap g = atom_Cap b \<and> covers (grant_Scope g) t"
    by (simp add: evaluate_True holds_atom_def)
  then show ?thesis
    using assms(2) p spec by (simp add: Verify_Inr)
qed

section \<open>A worked instance\<close>

definition sample_scope :: Scope where
  "sample_scope = \<lparr>Org = ''o'', Project = ''p'', Env = ''e''\<rparr>"

definition sample_registry :: Registry where
  "sample_registry = \<lparr>reg_ops = [''value.reveal'' \<mapsto> \<lparr>os_class = ClassTenant, os_level = LevelEnv,
     os_formula = [atom CapReveal LevelEnv], os_storeOps = [(''values.Reveal'', True)],
     os_postGrantForbidden = False, os_events = [''value.revealed''], os_auditedNone = False,
     os_reviewExempt = False\<rparr>]\<rparr>"

definition sample_resolver :: "Grant list \<Rightarrow> bool \<Rightarrow> Resolver" where
  "sample_resolver grants protected =
     \<lparr>ResolveChain = \<lambda>s. if s = sample_scope then Inr s else Inl ErrNotFound,
      Grants = \<lambda>_. Inr grants, EnvironmentProtected = \<lambda>_. Inr False,
      IsSelfConfigScope = \<lambda>_. Inr protected, ProjectMachineReveal = \<lambda>_. Inr (True, 1),
      SelfConfigBinding = Inl ErrNotFound, SelfConfigRetained = \<lambda>_. Inr False,
      SelfConfigRecoverySnapshot = \<lambda>_ _. Inl ErrNotFound\<rparr>"

definition sample_ctx :: Ctx where
  "sample_ctx = \<lparr>ctx_network = True, ctx_uuid = Some ''id-1'', ctx_now = 7, ctx_attached = None,
     ctx_admits = \<lambda>_ _. (False, False)\<rparr>"

definition sample_caller :: "PrincipalClass \<Rightarrow> Identity" where
  "sample_caller c = \<lparr>id_Principal = ''u'', id_Class = c, id_SessionID = [], id_CredentialID = [], id_Factors = []\<rparr>"

definition sample_grants :: "Grant list" where
  "sample_grants = [\<lparr>grant_Cap = CapReveal, grant_Scope = \<lparr>Org = ''o'', Project = ''p'', Env = []\<rparr>\<rparr>,
     \<lparr>grant_Cap = CapInstanceConfig, grant_Scope = no_scope\<rparr>]"

definition sample_authorizer :: TxAuthorizer where
  "sample_authorizer = \<lparr>ta_tok = 7, ta_denials = [], ta_captureErr = False, ta_object = \<lparr>ob_Type = [], ob_ID = []\<rparr>\<rparr>"

definition sample_proof :: "bool \<Rightarrow> Proof" where
  "sample_proof protected = (blank_proof kindTenant ''value.reveal'' 7)
     \<lparr>pf_chain := sample_scope, pf_selfConfig := protected\<rparr>"

lemmas sample_defs = sample_scope_def sample_registry_def sample_resolver_def sample_ctx_def sample_caller_def
  sample_grants_def sample_authorizer_def sample_proof_def authorization_spec_def

lemma sample_Authorize:
  "Authorize sample_registry (sample_resolver sample_grants False) sample_ctx (sample_caller ClassWorkload)
     ''value.reveal'' sample_scope sample_authorizer = (Inr (sample_proof False), sample_authorizer)"
  by code_simp

lemma sample_Authorize_protected:
  "Authorize sample_registry (sample_resolver sample_grants True) sample_ctx (sample_caller ClassHuman)
     ''value.reveal'' sample_scope sample_authorizer = (Inr (sample_proof True), sample_authorizer)"
  by code_simp

theorem Authorize_sound_witness:
  "\<exists>spec grants. authorization_spec sample_registry ''value.reveal'' = Some spec \<and>
     Grants (sample_resolver sample_grants False) ''u'' = Inr grants \<and>
     evaluate (as_formula spec) sample_scope grants = Some True"
  using Authorize_sound [OF sample_Authorize] by (auto simp: sample_caller_def sample_proof_def)

theorem Authorize_machine_reveal_witness:
  "\<exists>generation. ProjectMachineReveal (sample_resolver sample_grants False) ''p'' = Inr (True, generation)"
  using Authorize_machine_reveal [OF sample_Authorize, of _ "atom CapReveal LevelEnv"]
  by (simp add: sample_defs IsServiceAccountKind_def)

theorem Authorize_self_config_witness:
  "selfConfigSessionEligible (sample_caller ClassHuman) \<and> ''value.reveal'' \<in> set selfConfigOperations"
  using Authorize_self_config [OF sample_Authorize_protected] by (simp add: sample_proof_def)

theorem Authorize_refusal_recorded_witness:
  "\<exists>a'. Authorize sample_registry (sample_resolver [] False) sample_ctx (sample_caller ClassHuman)
      ''value.reveal'' sample_scope sample_authorizer = (Inl ErrNotFound, a') \<and>
    recorded sample_ctx (sample_caller ClassHuman) ''value.reveal'' sample_authorizer a'"
proof -
  have r: "resolver_errors (sample_resolver [] False)"
    by (simp add: resolver_errors_def sample_resolver_def)
  have "fst (Authorize sample_registry (sample_resolver [] False) sample_ctx (sample_caller ClassHuman)
      ''value.reveal'' sample_scope sample_authorizer) = Inl ErrNotFound"
    by code_simp
  then obtain a' where "Authorize sample_registry (sample_resolver [] False) sample_ctx (sample_caller ClassHuman)
      ''value.reveal'' sample_scope sample_authorizer = (Inl ErrNotFound, a')"
    by (metis prod.collapse)
  moreover have "\<not> settings_missing (sample_resolver [] False) (sample_caller ClassHuman) ''value.reveal'' sample_scope"
    by (simp add: settings_missing_def OpEnvDelete_def)
  ultimately show ?thesis using Authorize_refusal_recorded [OF r] by blast
qed

theorem Authorize_unauthorized_is_nonexistent_witness:
  "fst (Authorize sample_registry ((sample_resolver [] False)\<lparr>ResolveChain := \<lambda>_. Inl ErrNotFound\<rparr>) sample_ctx
       (sample_caller ClassHuman) ''value.reveal'' sample_scope sample_authorizer) =
   fst (Authorize sample_registry (sample_resolver [] False) sample_ctx (sample_caller ClassHuman)
       ''value.reveal'' sample_scope sample_authorizer)"
  by (rule Authorize_unauthorized_is_nonexistent [where chain = sample_scope and grants = "[]" and
        spec = "\<lparr>as_class = ClassTenant, as_level = LevelEnv, as_formula = [atom CapReveal LevelEnv]\<rparr>"])
     (simp_all add: sample_defs truncate_at_def)

theorem store_scope_authorized_witness:
  "Verify sample_registry {} (Some (sample_proof False)) ''values.Reveal'' (Some 7) = Inr sample_scope \<and>
   permitsStoreOp sample_registry ''value.reveal'' ''values.Reveal''"
proof -
  have v: "Verify sample_registry {} (Some (sample_proof False)) ''values.Reveal'' (Some 7) = Inr sample_scope"
    by code_simp
  show ?thesis using store_scope_authorized [OF sample_Authorize v] v by simp
qed

theorem Authorize_denials_writable_witness:
  "\<exists>a'. snd (Authorize sample_registry (sample_resolver [] False) sample_ctx (sample_caller ClassHuman)
      ''value.reveal'' sample_scope sample_authorizer) = a' \<and> (\<forall>d \<in> set (ta_denials a'). writable ActorHuman d)"
proof -
  let ?r = "Authorize sample_registry (sample_resolver [] False) sample_ctx (sample_caller ClassHuman)
      ''value.reveal'' sample_scope sample_authorizer"
  have "wire_ok sample_ctx"
    by (simp add: wire_ok_def sample_ctx_def)
  moreover have "tenant_chain chain" if "ResolveChain (sample_resolver [] False) s = Inr chain" for s chain
    using that by (auto simp: sample_resolver_def tenant_chain_def sample_scope_def scope_Level_def split: if_splits)
  moreover have "\<forall>d \<in> set (ta_denials sample_authorizer). writable ActorHuman d"
    by (simp add: sample_authorizer_def)
  ultimately show ?thesis
    using Authorize_denials_writable [of _ _ _ _ _ _ _ "fst ?r" "snd ?r" ActorHuman] by simp
qed

end
