(* ===== verification/Authz_Table.thy ===== *)
theory Authz_Table
  imports Authz
begin

text \<open>
  \<open>internal/authz/registry.go\<close>: the operation policy table, row by row, in consecutive parts of the
  Go map literal, with the store-operation groups and event lists its rows share. Operation,
  store-operation and event constants are written as their string values. A map to \<open>bool\<close> whose
  values are all true is given by its keys; \<open>licensed\<close> makes it the map of a row.
\<close>

definition licensed :: "StoreOp list \<Rightarrow> (StoreOp \<times> bool) list" where
  "licensed sos = map (\<lambda>so. (so, True)) sos"

abbreviation op_row ::
  "Class \<Rightarrow> Level \<Rightarrow> Formula \<Rightarrow> (StoreOp \<times> bool) list \<Rightarrow> EventType list \<Rightarrow> opSpec" where
  "op_row c l f sos evs \<equiv> \<lparr>os_class = c, os_level = l, os_formula = f, os_storeOps = sos,
     os_postGrantForbidden = False, os_events = evs, os_auditedNone = False, os_reviewExempt = False\<rparr>"

definition scimAdminFormula :: Formula where
  "scimAdminFormula = [atom CapManageMembers LevelOrg]"

definition scimWireFormula :: Formula where
  "scimWireFormula = [atom CapSCIMProvision LevelOrg]"

definition grantCureEvents :: "EventType list" where
  "grantCureEvents = [''scim.lockout_retention_released'', ''scim.attention_cleared'', ''grant.revoked'']"

definition scimUserMutationEvents :: "EventType list" where
  "scimUserMutationEvents = [''scim.user_updated'', ''scim.user_deprovisioned'', ''grant.created'',
     ''grant.modified'', ''grant.revoked'', ''scim.lockout_retention'', ''scim.attention_entered'',
     ''scim.attention_cleared'']"

definition scimGroupMutationEvents :: "EventType list" where
  "scimGroupMutationEvents = [''scim.group_updated'', ''scim.group_membership_changed'', ''grant.created'',
     ''grant.modified'', ''grant.revoked'', ''scim.lockout_retention'', ''scim.lockout_retention_released'',
     ''scim.attention_entered'', ''scim.attention_cleared'']"

definition grantCureStoreOps :: "StoreOp list" where
  "grantCureStoreOps = [''scim.Attention'', ''scim.ClearAttention'']"

definition scimCredentialOps :: "StoreOp list" where
  "scimCredentialOps = [''scim.CreateCredential'', ''scim.Credential'', ''scim.Credentials'',
     ''scim.RevokeCredential'', ''scim.RevokeCredentialsForBinding'', ''scim.DeleteCredentialsForBinding'']"

definition scimBase :: "StoreOp list" where
  "scimBase = [''scim.LockBinding'', ''scim.Binding'', ''scim.Attention'', ''scim.EnterAttention'',
     ''scim.ClearAttention'']"

definition scimAttentionReadOps :: "StoreOp list" where
  "scimAttentionReadOps = [''scim.Credentials'']"

definition scimWireBase :: "StoreOp list" where
  "scimWireBase = [''scim.TouchBinding'']"

definition scimDirectoryOps :: "StoreOp list" where
  "scimDirectoryOps = [''projects.List'', ''scim.User'', ''scim.Users'', ''scim.UserByUserName'',
     ''scim.PageUsers'', ''scim.UserBySubject'', ''scim.UserByAccount'', ''scim.Group'', ''scim.Groups'',
     ''scim.PageGroups'', ''scim.GroupMembers'', ''scim.MembershipsForUser'', ''scim.Mappings'',
     ''scim.MappingsForGroup'', ''scim.Mapping'']"

definition scimUserWriteOps :: "StoreOp list" where
  "scimUserWriteOps = [''scim.CreateUser'', ''scim.UpdateUser'', ''scim.DeleteUser'',
     ''scim.RemoveMembershipsForUser'']"

definition scimGroupWriteOps :: "StoreOp list" where
  "scimGroupWriteOps = [''scim.CreateGroup'', ''scim.UpdateGroup'', ''scim.DeleteGroup'',
     ''scim.AddGroupMember'', ''scim.RemoveGroupMember'', ''scim.ClearGroupMembers'']"

definition scimMappingWriteOps :: "StoreOp list" where
  "scimMappingWriteOps = [''scim.CreateMapping'', ''scim.UpdateMappingTemplate'', ''scim.DeleteMapping'',
     ''scim.SetMappingInert'']"

definition scimTeardownOps :: "StoreOp list" where
  "scimTeardownOps = [''scim.DeleteGroupMembersForBinding'', ''scim.DeleteGroupsForBinding'',
     ''scim.DeleteUsersForBinding'', ''scim.DeleteMappingsForBinding'', ''scim.DeleteAttentionForBinding'',
     ''scim.DeleteBinding'', ''scim.RetireConnectionPrincipal'']"

definition readOnlyStoreOps :: "StoreOp list" where
  "readOnlyStoreOps = [''orgs.Get'', ''orgs.List'', ''orgs.Count'', ''dynamic.GetLease'',
     ''dynamic.ListLeasesForEnvironment'', ''projects.Get'', ''projects.List'', ''projects.ListAll'',
     ''definitions.LatestAppliedPlan'', ''remotes.List'', ''remotes.Get'', ''remotes.GetByName'',
     ''remotes.Count'', ''remotes.Snapshots'', ''remotes.Snapshot'', ''environments.Get'',
     ''environments.Parameters'', ''environments.List'', ''environments.ListPage'', ''environments.Count'',
     ''environments.NextOrder'', ''folders.Get'', ''folders.List'', ''environments.Settings'',
     ''catalogue.Get'', ''catalogue.List'', ''catalogue.ListPage'', ''catalogue.GetInProject'',
     ''catalogue.PresenceForKey'', ''catalogue.Count'', ''adapters.Target'', ''adapters.Get'',
     ''adapters.Configuration'', ''adapters.List'', ''adapters.ListTargets'', ''adapters.TargetKeyIDs'',
     ''adapters.TargetKeys'', ''adapters.HealthCounts'', ''adapters.Mapping'', ''adapters.PlanMaterial'',
     ''adapters.TargetEnvironments'', ''adapters.Environments'', ''adapters.Conflicts'', ''adapters.Move'',
     ''catalogue.GetGroup'', ''catalogue.ListGroups'', ''catalogue.CountGroups'',
     ''catalogue.ListPresence'', ''catalogue.SchemaRevision'', ''keys.ActiveMasterWrappers'',
     ''keys.ActiveTier3'', ''keys.Tier3Versions'', ''keys.AllOpenableTier3'',
     ''keys.AssertActiveDEKVersion'', ''values.ListForReencrypt'', ''snapshots.ListForReencrypt'',
     ''pending.ListForReencrypt'', ''adapters.ListAdaptersForReencrypt'',
     ''adapters.ListRouteMovesForReencrypt'', ''reencrypt.ListPasswordCredsForReencrypt'',
     ''reencrypt.ListTotpCredsForReencrypt'', ''reencrypt.ListRecoveryCodesForReencrypt'',
     ''reencrypt.ListOidcProvidersForReencrypt'', ''reencrypt.ListSamlKeysForReencrypt'',
     ''reencrypt.ListRemotesForReencrypt'', ''audit.PageTenant'', ''audit.PageInstance'',
     ''audit.MaxTenantSeq'', ''audit.MaxInstanceSeq'', ''values.Get'', ''values.List'',
     ''values.EnvironmentsWithValue'', ''pending.ListForOwner'', ''pending.ListForOwnerInEnvironment'',
     ''pending.ListForOwnerInEnvironmentPage'', ''pending.ListMarkers'',
     ''pending.CountForProjectExcludingCell'', ''values.PayloadBytesForProject'',
     ''snapshots.PayloadBytesForProject'', ''values.InstancePayloadByProject'',
     ''snapshots.InstancePayloadByProject'', ''values.SampleSecretEntry'', ''backupstate.Get'',
     ''snapshots.Latest'', ''snapshots.AtRevision'', ''snapshots.List'', ''snapshots.ListPage'',
     ''snapshots.Entries'', ''snapshots.ParameterContract'', ''snapshots.SecretValueOccurrenceIDs'',
     ''snapshots.Changes'', ''pins.GetForWorkload'', ''pins.List'', ''approvals.GetPolicy'',
     ''approvals.ListPolicies'', ''approvals.CoveringPolicy'', ''approvals.ListApprovers'',
     ''approvals.ListBypassers'', ''approvals.IsBypasser'', ''approvals.GetRequest'',
     ''approvals.ListRequests'', ''approvals.ListVotes'', ''approvals.SelectExpired'',
     ''approvals.OperationalCounts'', ''scim.UserByAccount'', ''scim.MembershipsForUser'']"

definition scimOps :: "StoreOp list list \<Rightarrow> (StoreOp \<times> bool) list" where
  "scimOps groups = licensed (remdups (''audit.InsertTenant'' # concat groups))"

definition scimDiscoveryOps :: "(StoreOp \<times> bool) list" where
  "scimDiscoveryOps = licensed [''scim.Binding'', ''scim.TouchBinding'']"

definition withCure :: "StoreOp list \<Rightarrow> (StoreOp \<times> bool) list" where
  "withCure base = licensed (remdups (base @ grantCureStoreOps))"

definition operationTable_part1 :: "(Operation \<times> opSpec) list" where
  "operationTable_part1 =
     [(''self-config.preview'', op_row ClassInstance LevelNone [atom CapInstanceConfig LevelNone,
         atom CapManageMembers LevelNone] (licensed [''selfconfig.Binding'', ''selfconfig.SeedInputs'',
         ''audit.InsertInstance'']) [''self_config.status_read'']),
      (''self-config.status'', op_row ClassInstance LevelNone [atom CapInstanceConfig LevelNone] (licensed
         [''selfconfig.Binding'', ''selfconfig.Rollout'', ''selfconfig.Jobs'', ''selfconfig.Job'',
         ''selfconfig.Nodes'', ''selfconfig.Retained'', ''audit.InsertInstance''])
         [''self_config.status_read'']),
      (''self-config.adopt'', op_row ClassInstance LevelNone [atom CapInstanceConfig LevelNone,
         atom CapManageMembers LevelNone] (licensed [''selfconfig.Binding'', ''selfconfig.SeedInputs'',
         ''selfconfig.CreateBinding'', ''audit.InsertInstance'']) [''self_config.adopted'']),
      (''self-config.apply'', op_row ClassTenant LevelEnv [atom CapInstanceConfig LevelNone,
         atom CapRead LevelEnv, atom CapPublish LevelEnv] (licensed [''selfconfig.Binding'',
         ''selfconfig.Rollout'', ''selfconfig.PutRollout'', ''selfconfig.NextRolloutSequence'',
         ''selfconfig.Jobs'', ''selfconfig.Job'', ''selfconfig.JobByIdempotencyKey'', ''selfconfig.Nodes'',
         ''selfconfig.BeginJob'', ''selfconfig.CommitJob'', ''selfconfig.FinishJob'',
         ''snapshots.AtRevision'', ''audit.InsertTenant'']) [''self_config.deployment_restore_requested'',
         ''self_config.apply_requested'', ''self_config.target_committed'', ''self_config.resumed'']),
      (''self-config.test'', op_row ClassTenant LevelEnv [atom CapInstanceConfig LevelNone,
         atom CapRead LevelEnv] (licensed [''selfconfig.Binding'', ''snapshots.AtRevision'',
         ''snapshots.Entries'', ''snapshots.ParameterContract'', ''catalogue.List'',
         ''catalogue.SchemaRevision'', ''audit.InsertTenant'']) [''self_config.test_requested'',
         ''self_config.test_completed'']),
      (''self-config.provision-project'', op_row ClassTenant LevelProject [atom CapInstanceConfig LevelNone,
         atom CapDefinitionsEdit LevelProject] (licensed [''keys.InsertInitialProjectDEK'',
         ''audit.InsertTenant'']) [''self_config.project_prepared'']),
      (''org.create'', op_row ClassInstance LevelNone [atom CapInstanceConfig LevelNone,
         atom CapManageMembers LevelNone] (licensed [''orgs.Create'', ''audit.InsertInstance''])
         [''settings.org_created'']),
      (''org.list'', op_row ClassInstance LevelNone [atom CapInstanceConfig LevelNone] (licensed
         [''orgs.List'', ''orgs.Count'', ''audit.InsertInstance'']) [''settings.org_read'']),
      (''org.get'', (op_row ClassTenant LevelOrg [atom CapRead LevelOrg] (licensed [''orgs.Get''])
         [])\<lparr>os_auditedNone := True\<rparr>),
      (''org.rename'', op_row ClassTenant LevelOrg [atom CapManageMembers LevelOrg] (licensed [''orgs.Get'',
         ''orgs.Rename'', ''audit.InsertTenant'']) [''settings.org_renamed'']),
      (''org.delete'', op_row ClassTenant LevelOrg [atom CapInstanceConfig LevelNone] (licensed
         [''orgs.Get'', ''orgs.Delete'', ''audit.InsertTenant'']) [''settings.org_deleted'']),
      (''oidc-provider.put'', op_row ClassInstance LevelNone [atom CapInstanceConfig LevelNone] (licensed
         [''keys.AssertActiveDEKVersion'', ''audit.InsertInstance'']) [''auth.provider_changed'']),
      (''oidc-provider.get'', op_row ClassInstance LevelNone [atom CapInstanceConfig LevelNone] (licensed
         [''audit.InsertInstance'']) [''auth.provider_read'']),
      (''oidc-provider.list'', op_row ClassInstance LevelNone [atom CapInstanceConfig LevelNone] (licensed
         [''audit.InsertInstance'']) [''auth.provider_read'']),
      (''oidc-provider.delete'', op_row ClassInstance LevelNone [atom CapInstanceConfig LevelNone] (licensed
         [''audit.InsertInstance'']) [''auth.provider_changed'']),
      (''saml-provider.put'', op_row ClassInstance LevelNone [atom CapInstanceConfig LevelNone] (licensed
         [''keys.AssertActiveDEKVersion'', ''audit.InsertInstance'']) [''auth.saml_provider_configure'',
         ''auth.saml_cert_change'', ''auth.saml_nameid_email_optin'', ''auth.saml_sp_key'',
         ''auth.saml_metadata_expiry_warning'']),
      (''saml-provider.patch'', op_row ClassInstance LevelNone [atom CapInstanceConfig LevelNone] (licensed
         [''audit.InsertInstance'']) [''auth.saml_provider_configure'', ''auth.saml_nameid_email_optin''])]"

definition operationTable_part2 :: "(Operation \<times> opSpec) list" where
  "operationTable_part2 =
     [(''saml-provider.get'', op_row ClassInstance LevelNone [atom CapInstanceConfig LevelNone] (licensed
         [''audit.InsertInstance'']) [''auth.provider_read'', ''auth.saml_metadata_expiry_warning'']),
      (''saml-provider.list'', op_row ClassInstance LevelNone [atom CapInstanceConfig LevelNone] (licensed
         [''audit.InsertInstance'']) [''auth.provider_read'', ''auth.saml_metadata_expiry_warning'']),
      (''saml-provider.delete'', op_row ClassInstance LevelNone [atom CapInstanceConfig LevelNone] (licensed
         [''audit.InsertInstance'']) [''auth.saml_provider_remove'']),
      (''saml-provider.refresh-metadata'', op_row ClassInstance LevelNone [atom CapInstanceConfig LevelNone]
         (licensed [''audit.InsertInstance'']) [''auth.saml_provider_refresh'', ''auth.saml_cert_change'',
         ''auth.saml_metadata_expiry_warning'']),
      (''saml-sp-key.list'', op_row ClassInstance LevelNone [atom CapInstanceConfig LevelNone] (licensed
         [''audit.InsertInstance'']) [''auth.provider_read'']),
      (''saml-sp-key.rotate'', op_row ClassInstance LevelNone [atom CapInstanceConfig LevelNone] (licensed
         [''audit.InsertInstance'']) [''auth.saml_sp_key'']),
      (''saml-sp-key.retire'', op_row ClassInstance LevelNone [atom CapInstanceConfig LevelNone] (licensed
         [''audit.InsertInstance'']) [''auth.saml_sp_key'']),
      (''saml-sp-key.compromise-retire'', op_row ClassInstance LevelNone [atom CapInstanceConfig LevelNone]
         (licensed [''audit.InsertInstance'']) [''auth.saml_sp_key'']),
      (''credential-reset.org'', op_row ClassTenant LevelOrg [atom CapCredentialReset LevelOrg] []
         [''auth.credential_reset_issued'']),
      (''credential-reset.instance'', op_row ClassInstance LevelNone [atom CapCredentialReset LevelNone] []
         [''auth.credential_reset_issued'']),
      (''project.create'', op_row ClassTenant LevelOrg [atom CapManageProjects LevelOrg] (licensed
         [''projects.Create'', ''audit.InsertTenant'']) [''settings.project_created'']),
      (''project.get'', (op_row ClassTenant LevelProject [atom CapRead LevelProject] (licensed
         [''projects.Get'']) [])\<lparr>os_auditedNone := True\<rparr>),
      (''project.list'', (op_row ClassTenant LevelOrg [atom CapRead LevelOrg] (licensed [''projects.List''])
         [])\<lparr>os_auditedNone := True\<rparr>),
      (''project.rename'', op_row ClassTenant LevelProject [atom CapManageProjects LevelOrg] (licensed
         [''projects.Get'', ''projects.Rename'', ''audit.InsertTenant'']) [''settings.project_renamed'']),
      (''project.delete'', op_row ClassTenant LevelProject [atom CapManageProjects LevelOrg] (licensed
         [''projects.Get'', ''projects.Delete'', ''audit.InsertTenant'',
         ''scanningdismissals.DeleteByProject'']) [''settings.project_deleted'']),
      (''environment.create'', op_row ClassTenant LevelProject [atom CapDefinitionsEdit LevelProject]
         (licensed [''projects.Get'', ''projects.Lock'', ''environments.Count'', ''environments.NextOrder'',
         ''environments.Create'', ''catalogue.BumpSchemaRevision'', ''audit.InsertTenant''])
         [''settings.environment_created'', ''scanning.finding_blocked'', ''scanning.finding_overridden''])]"

definition operationTable_part3 :: "(Operation \<times> opSpec) list" where
  "operationTable_part3 =
     [(''environment.read'', (op_row ClassTenant LevelEnv [atom CapRead LevelEnv] (licensed
         [''environments.Get'', ''environments.Parameters'']) [])\<lparr>os_auditedNone := True\<rparr>),
      (''environment.list'', (op_row ClassTenant LevelProject [atom CapRead LevelProject] (licensed
         [''environments.List'', ''environments.ListPage'']) [])\<lparr>os_auditedNone := True\<rparr>),
      (''environment.parameter-set'', op_row ClassTenant LevelEnv [atom CapDefinitionsEdit LevelProject]
         (licensed [''projects.Get'', ''projects.Lock'', ''environments.Parameters'',
         ''environments.SetParameters'', ''catalogue.BumpSchemaRevision'', ''audit.InsertTenant''])
         [''settings.environment_parameter_changed'']),
      (''environment.rename'', op_row ClassTenant LevelEnv [atom CapDefinitionsEdit LevelProject] (licensed
         [''projects.Get'', ''projects.Lock'', ''environments.Get'', ''environments.Rename'',
         ''catalogue.BumpSchemaRevision'', ''audit.InsertTenant'']) [''settings.environment_renamed'',
         ''scanning.finding_blocked'', ''scanning.finding_overridden'']),
      (''environment.reorder'', op_row ClassTenant LevelProject [atom CapDefinitionsEdit LevelProject]
         (licensed [''projects.Get'', ''projects.Lock'', ''environments.List'', ''environments.SetOrder'',
         ''audit.InsertTenant'']) [''settings.environment_reordered'']),
      (''environment.delete'', op_row ClassTenant LevelEnv [atom CapDefinitionsEdit LevelProject] (licensed
         [''projects.Get'', ''projects.Lock'', ''environments.Get'', ''catalogue.ListPresence'',
         ''catalogue.DeletePresenceForEnvironment'', ''catalogue.List'', ''catalogue.UpdateDeclaration'',
         ''catalogue.BumpSchemaRevision'', ''values.ClearEnvironment'', ''pending.DiscardEnvironment'',
         ''snapshots.DeleteEnvironment'', ''pins.DeleteEnvironment'', ''environments.Delete'',
         ''audit.InsertTenant'']) [''settings.environment_deleted'', ''grant.revoked'']),
      (''environment.update-note'', op_row ClassTenant LevelEnv [atom CapEdit LevelEnv] (licensed
         [''environments.UpdateNote'', ''audit.InsertTenant'']) [''settings.environment_note_changed'',
         ''scanning.finding_blocked'', ''scanning.finding_overridden'']),
      (''key.create'', op_row ClassTenant LevelProject [atom CapDefinitionsEdit LevelProject] (licensed
         [''environments.List'', ''projects.Get'', ''projects.Lock'', ''catalogue.Count'',
         ''catalogue.List'', ''catalogue.ListPresence'', ''catalogue.GetGroup'', ''catalogue.Create'',
         ''catalogue.ReplacePresence'', ''catalogue.BumpSchemaRevision'', ''audit.InsertTenant''])
         [''settings.key_created'', ''scanning.finding_blocked'', ''scanning.finding_overridden'']),
      (''key.get'', (op_row ClassTenant LevelProject [atom CapRead LevelProject] (licensed
         [''catalogue.Get'', ''catalogue.ListPresence'']) [])\<lparr>os_auditedNone := True\<rparr>)]"

definition operationTable_part4 :: "(Operation \<times> opSpec) list" where
  "operationTable_part4 =
     [(''key.list'', (op_row ClassTenant LevelProject [atom CapRead LevelProject] (licensed
         [''catalogue.List'', ''catalogue.ListPresence'', ''catalogue.SchemaRevision'',
         ''catalogue.ListPage'', ''catalogue.PresenceForKey'']) [])\<lparr>os_auditedNone := True\<rparr>),
      (''key.rename'', op_row ClassTenant LevelProject [atom CapDefinitionsEdit LevelProject] (licensed
         [''environments.List'', ''projects.Get'', ''projects.Lock'', ''catalogue.Get'',
         ''catalogue.Rename'', ''catalogue.AdapterPins'', ''catalogue.BumpSchemaRevision'',
         ''catalogue.ListPresence'', ''audit.InsertTenant'']) [''settings.key_renamed'',
         ''scanning.finding_blocked'', ''scanning.finding_overridden'']),
      (''key.update-declaration'', op_row ClassTenant LevelProject [atom CapDefinitionsEdit LevelProject]
         (licensed [''environments.List'', ''projects.Get'', ''projects.Lock'', ''catalogue.Get'',
         ''catalogue.List'', ''catalogue.ListPresence'', ''catalogue.UpdateDeclaration'',
         ''catalogue.ReplacePresence'', ''catalogue.BumpSchemaRevision'', ''catalogue.SchemaRevision'',
         ''audit.InsertTenant'']) [''settings.key_declaration_changed'', ''scanning.finding_blocked'',
         ''scanning.finding_overridden'']),
      (''key.update-metadata'', op_row ClassTenant LevelProject [atom CapDefinitionsEdit LevelProject]
         (licensed [''projects.Get'', ''projects.Lock'', ''catalogue.Get'', ''catalogue.UpdateMetadata'',
         ''catalogue.BumpSchemaRevision'', ''catalogue.ListPresence'', ''audit.InsertTenant''])
         [''settings.key_metadata_changed'', ''scanning.finding_blocked'', ''scanning.finding_overridden'']),
      (''key.set-group'', op_row ClassTenant LevelProject [atom CapDefinitionsEdit LevelProject] (licensed
         [''environments.List'', ''projects.Get'', ''projects.Lock'', ''catalogue.Get'',
         ''catalogue.GetGroup'', ''catalogue.List'', ''catalogue.ListPresence'', ''catalogue.SetGroup'',
         ''catalogue.BumpSchemaRevision'', ''audit.InsertTenant''])
         [''settings.key_group_membership_changed'']),
      (''key.delete'', op_row ClassTenant LevelProject [atom CapDefinitionsEdit LevelProject] (licensed
         [''pending.DiscardKey'', ''environments.List'', ''projects.Get'', ''projects.Lock'',
         ''catalogue.Get'', ''catalogue.ReplacePresence'', ''catalogue.Delete'',
         ''values.EnvironmentsWithValue'', ''catalogue.BumpSchemaRevision'', ''audit.InsertTenant'',
         ''scanningdismissals.DeleteByKey'']) [''settings.key_deleted'']),
      (''key.reclassify'', op_row ClassTenant LevelProject [atom CapDefinitionsEdit LevelProject] (licensed
         [''environments.List'', ''projects.Get'', ''projects.Lock'', ''catalogue.Get'',
         ''catalogue.SetClassification'', ''catalogue.BumpSchemaRevision'', ''catalogue.AdapterPins'',
         ''catalogue.ListPresence'', ''audit.InsertTenant'', ''scanningdismissals.DeleteByKey'',
         ''values.EnvironmentsWithValue'']) [''settings.key_reclassified'', ''scanning.finding_warned''])]"

definition operationTable_part5 :: "(Operation \<times> opSpec) list" where
  "operationTable_part5 =
     [(''key.secret-rule-change'', op_row ClassTenant LevelProject [atom CapReveal LevelProject] []
         [''settings.key_reveal_gate_attempt'']),
      (''key.declassify'', op_row ClassTenant LevelProject [atom CapReveal LevelProject] []
         [''settings.key_reveal_gate_attempt'']),
      (''definitions.export'', (op_row ClassTenant LevelProject [atom CapRead LevelProject] (licensed
         [''projects.Get'', ''environments.List'', ''catalogue.List'', ''catalogue.ListPresence'',
         ''catalogue.ListGroups'', ''catalogue.SchemaRevision'']) [])\<lparr>os_auditedNone := True\<rparr>),
      (''definitions.check'', (op_row ClassTenant LevelProject [atom CapRead LevelProject] (licensed
         [''projects.Get'', ''environments.List'', ''catalogue.List'', ''catalogue.ListPresence'',
         ''catalogue.ListGroups'', ''catalogue.SchemaRevision'']) [])\<lparr>os_auditedNone := True\<rparr>),
      (''definitions.plan'', op_row ClassTenant LevelProject [atom CapDefinitionsEdit LevelProject]
         (licensed [''projects.Lock'', ''projects.Get'', ''environments.List'',
         ''environments.ListProtection'', ''catalogue.List'', ''catalogue.ListPresence'',
         ''catalogue.ListGroups'', ''catalogue.SchemaRevision'', ''snapshots.ProjectRevisions'',
         ''values.CountEnvironmentValues'', ''values.EnvironmentsWithValue'',
         ''definitions.CountOpenPlans'', ''definitions.CreatePlan'', ''audit.InsertTenant''])
         [''definitions.plan_created'', ''definitions.additive_modification_refused'',
         ''scanning.finding_blocked'', ''scanning.finding_overridden'']),
      (''definitions.plan.get'', (op_row ClassTenant LevelProject [atom CapDefinitionsEdit LevelProject]
         (licensed [''definitions.GetPlan'']) [])\<lparr>os_reviewExempt := True\<rparr>),
      (''definitions.apply'', op_row ClassTenant LevelProject [atom CapDefinitionsEdit LevelProject]
         (licensed [''projects.Lock'', ''projects.Get'', ''environments.List'',
         ''environments.ListProtection'', ''environments.Count'', ''environments.NextOrder'',
         ''environments.Create'', ''environments.Rename'', ''environments.Delete'', ''catalogue.List'',
         ''catalogue.Get'', ''catalogue.Count'', ''catalogue.ListPresence'', ''catalogue.ListGroups'',
         ''catalogue.GetGroup'', ''catalogue.SchemaRevision'', ''catalogue.BumpSchemaRevision'',
         ''catalogue.Create'', ''catalogue.Rename'', ''catalogue.UpdateMetadata'',
         ''catalogue.UpdateDeclaration'', ''catalogue.SetClassification'', ''catalogue.SetGroup'',
         ''catalogue.Delete'', ''catalogue.AdapterPins'', ''catalogue.ReplacePresence'',
         ''catalogue.DeletePresenceForEnvironment'', ''catalogue.CreateGroup'', ''catalogue.RenameGroup'',
         ''catalogue.DeleteGroup'', ''catalogue.ClearGroupMembers'', ''values.CountEnvironmentValues'',
         ''values.EnvironmentsWithValue'', ''values.ClearKey'', ''pending.DiscardKey'',
         ''scanningdismissals.DeleteByKey'', ''snapshots.ProjectRevisions'',
         ''snapshots.DeleteEnvironment'', ''pins.DeleteEnvironment'', ''definitions.GetPlan'',
         ''definitions.MarkPlanApplied'', ''audit.InsertTenant'']) [''definitions.applied'',
         ''grant.revoked'', ''definitions.apply_rejected_stale'', ''definitions.deletion_refused'',
         ''settings.environment_created'', ''settings.environment_renamed'',
         ''settings.environment_deleted'', ''settings.key_group_created'', ''settings.key_group_renamed'',
         ''settings.key_group_deleted'', ''settings.key_created'', ''settings.key_renamed'',
         ''settings.key_deleted'', ''settings.key_metadata_changed'', ''settings.key_declaration_changed'',
         ''settings.key_reclassified'', ''settings.key_group_membership_changed'',
         ''scanning.finding_blocked'', ''scanning.finding_overridden'']),
      (''definitions.settings.get'', (op_row ClassTenant LevelProject [atom CapRead LevelProject] (licensed
         [''projects.Get'', ''definitions.LatestAppliedPlan'']) [])\<lparr>os_auditedNone := True\<rparr>)]"

definition operationTable_part6 :: "(Operation \<times> opSpec) list" where
  "operationTable_part6 =
     [(''definitions.settings.set'', op_row ClassTenant LevelProject [atom CapProjectSettings LevelProject]
         (licensed [''projects.Get'', ''projects.SetDefinitionsSource'', ''definitions.LatestAppliedPlan'',
         ''audit.InsertTenant'']) [''settings.definitions_source_changed'']),
      (''project.machine-reveal.get'', (op_row ClassTenant LevelProject [atom CapRead LevelProject]
         (licensed [''projects.Get'']) [])\<lparr>os_auditedNone := True\<rparr>),
      (''project.machine-reveal.set'', op_row ClassTenant LevelProject
         [atom CapProjectSettings LevelProject, atom CapReveal LevelProject] (licensed [''projects.Get'',
         ''projects.SetMachineReveal'', ''audit.InsertTenant'']) [''settings.machine_reveal_changed'']),
      (''value.read'', (op_row ClassTenant LevelEnv [atom CapRead LevelEnv] (licensed [''catalogue.List'',
         ''values.Get'']) [])\<lparr>os_auditedNone := True\<rparr>),
      (''value.list'', (op_row ClassTenant LevelEnv [atom CapRead LevelEnv] (licensed
         [''environments.Parameters'', ''catalogue.List'', ''values.List'', ''values.Get'',
         ''catalogue.ListPresence'', ''catalogue.ListPage'']) [])\<lparr>os_auditedNone := True\<rparr>),
      (''reveal.window_read'', (op_row ClassTenant LevelEnv [atom CapRead LevelEnv] (licensed [])
         [])\<lparr>os_auditedNone := True\<rparr>),
      (''value.reveal'', op_row ClassTenant LevelEnv [atom CapRead LevelEnv, atom CapReveal LevelEnv]
         (licensed [''catalogue.List'', ''values.Get'', ''values.List'', ''audit.InsertTenant''])
         [''disclosure.value_revealed'']),
      (''value.set'', op_row ClassTenant LevelEnv [atom CapEdit LevelEnv, atom CapPublish LevelEnv]
         (licensed [''environments.Parameters'', ''projects.Lock'', ''catalogue.List'',
         ''catalogue.ListPresence'', ''values.Put'', ''keys.AssertActiveDEKVersion'',
         ''audit.InsertTenant'']) [''value.set'', ''scanning.finding_warned''])]"

definition operationTable_part7 :: "(Operation \<times> opSpec) list" where
  "operationTable_part7 =
     [(''value.clear'', op_row ClassTenant LevelEnv [atom CapEdit LevelEnv, atom CapPublish LevelEnv]
         (licensed [''projects.Lock'', ''catalogue.List'', ''catalogue.ListPresence'', ''values.Clear'',
         ''audit.InsertTenant'']) [''value.cleared'']),
      (''value.copy-source'', op_row ClassTenant LevelEnv [atom CapReveal LevelEnv] (licensed
         [''catalogue.List'', ''values.Get'', ''values.List'', ''audit.InsertTenant''])
         [''disclosure.value_revealed'']),
      (''value.copy-destination'', op_row ClassTenant LevelEnv [atom CapReveal LevelEnv,
         atom CapPublish LevelEnv] (licensed [''environments.Parameters'', ''projects.Lock'',
         ''catalogue.List'', ''catalogue.ListPresence'', ''environments.Settings'',
         ''approvals.CoveringPolicy'', ''values.Put'', ''keys.AssertActiveDEKVersion'',
         ''audit.InsertTenant'']) [''disclosure.value_copied'']),
      (''value.copy-destination-config'', op_row ClassTenant LevelEnv [atom CapPublish LevelEnv] (licensed
         [''environments.Parameters'', ''projects.Lock'', ''catalogue.List'', ''catalogue.ListPresence'',
         ''environments.Settings'', ''approvals.CoveringPolicy'', ''values.Put'',
         ''keys.AssertActiveDEKVersion'', ''audit.InsertTenant'']) [''disclosure.value_copied'',
         ''scanning.finding_warned'']),
      (''import.presence'', (op_row ClassTenant LevelEnv [atom CapRead LevelProject] (licensed
         [''catalogue.List'', ''values.List'', ''catalogue.SchemaRevision'']) [])\<lparr>os_auditedNone :=
         True\<rparr>),
      (''value.import'', op_row ClassTenant LevelEnv [atom CapRead LevelProject, atom CapEdit LevelEnv,
         atom CapPublish LevelEnv] (licensed [''environments.Parameters'', ''projects.Lock'',
         ''catalogue.List'', ''catalogue.ListPresence'', ''catalogue.SchemaRevision'', ''values.List'',
         ''values.Put'', ''keys.AssertActiveDEKVersion'', ''audit.InsertTenant'']) [''value.set'',
         ''value.imported'', ''scanning.finding_warned''])]"

definition operationTable_part8 :: "(Operation \<times> opSpec) list" where
  "operationTable_part8 =
     [(''value.stage'', op_row ClassTenant LevelEnv [atom CapEdit LevelEnv] (licensed [''projects.Lock'',
         ''catalogue.List'', ''values.Get'', ''snapshots.Latest'', ''pending.Stage'',
         ''audit.InsertTenant'', ''pending.CountForProjectExcludingCell'', ''scanningdismissals.Exists'',
         ''scanningdismissals.Insert'', ''keys.AssertActiveDEKVersion'']) [''value.staged'',
         ''scanning.finding_warned'', ''scanning.finding_dismissed'']),
      (''value.publish'', (op_row ClassTenant LevelEnv [atom CapPublish LevelEnv] (licensed
         [''projects.Lock'', ''catalogue.List'', ''catalogue.ListPresence'', ''catalogue.SchemaRevision'',
         ''values.List'', ''values.Put'', ''values.Clear'', ''pending.ListForOwner'',
         ''pending.ListMarkers'', ''pending.Discard'', ''snapshots.Latest'', ''snapshots.Entries'',
         ''snapshots.Insert'', ''snapshots.InsertEntry'', ''environments.Parameters'',
         ''snapshots.SecretValueOccurrenceIDs'', ''snapshots.RecordSecretValueOccurrence'',
         ''snapshots.InsertChange'', ''adapters.EnqueuePublished'', ''keys.AssertActiveDEKVersion'',
         ''audit.InsertTenant'', ''values.PayloadBytesForProject'', ''snapshots.PayloadBytesForProject'',
         ''approvals.CoveringPolicy'', ''approvals.GetPolicy'', ''approvals.InsertRequest'',
         ''approvals.GetRequest'', ''approvals.UpdateRequestState'', ''approvals.ListVotes'',
         ''approvals.ListApprovers'', ''approvals.IsBypasser'', ''scim.UserByAccount'',
         ''scim.MembershipsForUser'']) [''revision.published'', ''value.set'', ''value.cleared'',
         ''adapter.sync_requested'', ''adapter.superseded'', ''scanning.finding_warned'',
         ''approval.requested'', ''approval.merged'', ''approval.invalidated'',
         ''approval.bypassed''])\<lparr>os_postGrantForbidden := True\<rparr>),
      (''approval.policy-write'', op_row ClassTenant LevelProject [atom CapProjectSettings LevelProject]
         (licensed [''approvals.InsertPolicy'', ''approvals.GetPolicy'', ''approvals.ListPolicies'',
         ''approvals.UpdatePolicy'', ''approvals.DeletePolicy'', ''approvals.InsertApprover'',
         ''approvals.ListApprovers'', ''approvals.ClearApprovers'', ''approvals.InsertBypasser'',
         ''approvals.ListBypassers'', ''approvals.ClearBypassers'', ''audit.InsertTenant''])
         [''approval.policy_changed'']),
      (''approval.policy-read'', op_row ClassTenant LevelProject [atom CapProjectSettings LevelProject]
         (licensed [''approvals.GetPolicy'', ''approvals.ListPolicies'', ''approvals.ListApprovers'',
         ''approvals.ListBypassers'', ''audit.InsertTenant'']) [''approval.policy_read''])]"

definition operationTable_part9 :: "(Operation \<times> opSpec) list" where
  "operationTable_part9 =
     [(''approval.request-read'', (op_row ClassTenant LevelEnv [atom CapRead LevelEnv] (licensed
         [''approvals.GetRequest'', ''approvals.ListRequests'', ''approvals.ListVotes'',
         ''approvals.GetPolicy'', ''approvals.CoveringPolicy'', ''approvals.ListApprovers'',
         ''approvals.ListBypassers'', ''scim.UserByAccount'', ''scim.MembershipsForUser''])
         [])\<lparr>os_auditedNone := True\<rparr>),
      (''approval.vote'', (op_row ClassTenant LevelEnv [atom CapPublish LevelEnv] (licensed
         [''approvals.GetRequest'', ''approvals.UpdateRequestState'', ''approvals.GetVote'',
         ''approvals.InsertVote'', ''approvals.ListVotes'', ''approvals.GetPolicy'',
         ''approvals.ListApprovers'', ''pending.ListForOwner'', ''pending.ListMarkers'', ''catalogue.List'',
         ''catalogue.SchemaRevision'', ''snapshots.Latest'', ''scim.UserByAccount'',
         ''scim.MembershipsForUser'', ''audit.InsertTenant'']) [''approval.voted'',
         ''approval.invalidated''])\<lparr>os_postGrantForbidden := True\<rparr>),
      (''approval.bypass'', op_row ClassTenant LevelEnv [atom CapPublish LevelEnv] (licensed
         [''approvals.IsBypasser'', ''approvals.GetRequest'', ''approvals.UpdateRequestState'',
         ''audit.InsertTenant'']) [''approval.bypassed'']),
      (''value.export'', op_row ClassTenant LevelEnv [atom CapRead LevelEnv] (licensed
         [''snapshots.Latest'', ''snapshots.AtRevision'', ''snapshots.Entries'',
         ''snapshots.ParameterContract'', ''audit.InsertTenant'']) [''disclosure.values_exported'']),
      (''value.export-reveal'', op_row ClassTenant LevelEnv [atom CapRead LevelEnv, atom CapReveal LevelEnv]
         (licensed [''snapshots.Latest'', ''snapshots.AtRevision'', ''snapshots.Entries'',
         ''snapshots.ParameterContract'', ''audit.InsertTenant'']) [''disclosure.value_revealed'',
         ''disclosure.values_exported'']),
      (''value.export-reveal-history'', op_row ClassTenant LevelEnv [atom CapRead LevelEnv,
         atom CapRevealHistory LevelEnv] (licensed [''snapshots.Latest'', ''snapshots.AtRevision'',
         ''snapshots.Entries'', ''snapshots.ParameterContract'', ''audit.InsertTenant''])
         [''disclosure.value_revealed'', ''disclosure.values_exported'']),
      (''crypto.rotate-token-key'', op_row ClassInstance LevelNone [atom CapRotateDEK LevelNone] (licensed
         [''keys.RotateTokenKey'', ''audit.InsertInstance'']) [''crypto.token_key_rotated'']),
      (''crypto.rotate-scanning-key'', op_row ClassInstance LevelNone [atom CapRotateDEK LevelNone]
         (licensed [''keys.RotateScanningKey'', ''scanningdismissals.DeleteAll'', ''audit.InsertInstance''])
         [''crypto.scanning_key_rotated''])]"

definition operationTable_part10 :: "(Operation \<times> opSpec) list" where
  "operationTable_part10 =
     [(''crypto.rotate-dek'', op_row ClassInstance LevelNone [atom CapRotateDEK LevelNone] (licensed
         [''keys.RotateDEK'', ''audit.InsertInstance'']) [''crypto.dek_rotated'']),
      (''crypto.reencrypt-project'', op_row ClassTenant LevelProject [atom CapReencrypt LevelNone] (licensed
         [''values.ListForReencrypt'', ''values.Reencrypt'', ''snapshots.ListForReencrypt'',
         ''snapshots.Reencrypt'', ''pending.ListForReencrypt'', ''pending.Reencrypt'',
         ''adapters.ListAdaptersForReencrypt'', ''adapters.ReencryptAdapter'',
         ''adapters.ListRouteMovesForReencrypt'', ''adapters.ReencryptRouteMove'',
         ''dynamic.ListProvidersForReencrypt'', ''dynamic.ReencryptProvider'',
         ''keys.AssertActiveDEKVersion'', ''keys.RetireRetiringTier3'',
         ''retention.RecordReencryptSuccess'', ''audit.InsertTenant'']) [''crypto.reencrypt_completed'']),
      (''crypto.reencrypt-instance'', op_row ClassInstance LevelNone [atom CapReencrypt LevelNone] (licensed
         [''reencrypt.ListPasswordCredsForReencrypt'', ''reencrypt.ReencryptPasswordCred'',
         ''reencrypt.ListTotpCredsForReencrypt'', ''reencrypt.ReencryptTotpCred'',
         ''reencrypt.ListRecoveryCodesForReencrypt'', ''reencrypt.ReencryptRecoveryCodes'',
         ''reencrypt.ListOidcProvidersForReencrypt'', ''reencrypt.ReencryptOidcProvider'',
         ''reencrypt.ListSamlKeysForReencrypt'', ''reencrypt.ReencryptSamlKey'',
         ''reencrypt.ListSelfConfigSeedInputsForReencrypt'', ''reencrypt.ReencryptSelfConfigSeedInput'',
         ''reencrypt.ListRemotesForReencrypt'', ''reencrypt.ReencryptRemote'',
         ''keys.AssertActiveDEKVersion'', ''keys.RetireRetiringTier3'',
         ''retention.RecordReencryptSuccess'', ''audit.InsertInstance'']) [''crypto.reencrypt_completed'']),
      (''crypto.rotate-master-key'', op_row ClassInstance LevelNone [atom CapRotateMasterKey LevelNone]
         (licensed [''keys.RotateMasterKey'', ''audit.InsertInstance'']) [''crypto.master_key_rotated'']),
      (''crypto.rotate-root-key'', op_row ClassInstance LevelNone [atom CapRotateRootKey LevelNone]
         (licensed [''keys.RootKeyRotatePrepare'', ''keys.AssertRootKeyEpoch'',
         ''keys.RootKeyRotateFinalize'', ''audit.InsertInstance'']) [''crypto.root_key_rotation_prepared'',
         ''crypto.root_key_rotation_verified'', ''crypto.root_key_rotation_finalized'']),
      (''revision.list'', (op_row ClassTenant LevelEnv [atom CapRead LevelEnv] (licensed
         [''snapshots.List'', ''snapshots.Changes'', ''snapshots.ListPage'']) [])\<lparr>os_auditedNone :=
         True\<rparr>),
      (''revision.show'', (op_row ClassTenant LevelEnv [atom CapRead LevelEnv] (licensed
         [''snapshots.Latest'', ''snapshots.AtRevision'', ''snapshots.Entries'', ''snapshots.Changes''])
         [])\<lparr>os_auditedNone := True\<rparr>),
      (''value.pending-list'', (op_row ClassTenant LevelEnv [atom CapRead LevelEnv] (licensed
         [''environments.Parameters'', ''catalogue.List'', ''catalogue.ListPresence'',
         ''pending.ListForOwnerInEnvironment'', ''pending.ListForOwnerInEnvironmentPage'',
         ''catalogue.GetInProject'', ''catalogue.PresenceForKey'']) [])\<lparr>os_auditedNone :=
         True\<rparr>),
      (''revision.signals'', (op_row ClassTenant LevelEnv [atom CapRead LevelEnv] (licensed
         [''catalogue.List'', ''pending.ListMarkers'', ''snapshots.Latest'', ''snapshots.Changes''])
         [])\<lparr>os_auditedNone := True\<rparr>)]"

definition operationTable_part11 :: "(Operation \<times> opSpec) list" where
  "operationTable_part11 =
     [(''revision.restore'', op_row ClassTenant LevelEnv [atom CapEdit LevelEnv] (licensed
         [''projects.Lock'', ''catalogue.List'', ''catalogue.SchemaRevision'', ''values.List'',
         ''snapshots.Latest'', ''snapshots.AtRevision'', ''snapshots.Entries'',
         ''snapshots.SecretValueOccurrenceIDs'', ''pending.ListForOwner'', ''pending.ListMarkers'',
         ''pending.Stage'', ''keys.AssertActiveDEKVersion'', ''audit.InsertTenant'']) [''value.staged'',
         ''revision.restore_staged'', ''disclosure.value_revealed'']),
      (''revision.restore-reveal-history'', op_row ClassTenant LevelEnv [atom CapRead LevelEnv,
         atom CapRevealHistory LevelEnv] (licensed []) [''value.staged'', ''revision.restore_staged'']),
      (''revision.restore-reveal-current'', op_row ClassTenant LevelEnv [atom CapRead LevelEnv,
         atom CapReveal LevelEnv] (licensed []) [''value.staged'', ''revision.restore_staged'']),
      (''pin.set'', op_row ClassTenant LevelEnv [atom CapPin LevelEnv, atom CapPublish LevelEnv] (licensed
         [''snapshots.ParameterContract'', ''orgs.Get'', ''projects.Get'', ''projects.Lock'',
         ''catalogue.List'', ''catalogue.ListPresence'', ''snapshots.Latest'', ''snapshots.AtRevision'',
         ''snapshots.Entries'', ''snapshots.List'', ''snapshots.SecretValueOccurrenceIDs'',
         ''pins.GetForWorkload'', ''pins.CountProject'', ''pins.Insert'', ''pins.Delete'', ''pins.List'',
         ''audit.InsertTenant'']) [''pin.created'', ''pin.reassigned'', ''pin.renewed'',
         ''pin.expiry_refused'', ''disclosure.value_revealed'']),
      (''pin.set-reveal-history'', op_row ClassTenant LevelEnv [atom CapRevealHistory LevelEnv] (licensed
         []) [''pin.created'', ''pin.reassigned'', ''pin.renewed'']),
      (''pin.list'', (op_row ClassTenant LevelEnv [atom CapRead LevelEnv] (licensed [''orgs.Get'',
         ''projects.Get'', ''snapshots.List'', ''pins.List'']) [])\<lparr>os_auditedNone := True\<rparr>),
      (''pin.release'', op_row ClassTenant LevelEnv [atom CapPin LevelEnv] (licensed [''orgs.Get'',
         ''orgs.Lock'', ''projects.Get'', ''projects.Lock'', ''snapshots.List'', ''pins.GetForWorkload'',
         ''pins.List'', ''pins.Delete'', ''retention.LockSnapshot'', ''audit.InsertTenant''])
         [''pin.released'']),
      (''advisory.watch'', (op_row ClassTenant LevelProject [atom CapRead LevelProject] (licensed [])
         [])\<lparr>os_auditedNone := True\<rparr>),
      (''advisory.event'', (op_row ClassTenant LevelEnv [atom CapRead LevelEnv] (licensed [])
         [])\<lparr>os_auditedNone := True\<rparr>),
      (''key-group.create'', op_row ClassTenant LevelProject [atom CapDefinitionsEdit LevelProject]
         (licensed [''environments.List'', ''projects.Get'', ''projects.Lock'', ''catalogue.CountGroups'',
         ''catalogue.CreateGroup'', ''catalogue.BumpSchemaRevision'', ''audit.InsertTenant''])
         [''settings.key_group_created'', ''scanning.finding_blocked'', ''scanning.finding_overridden'']),
      (''key-group.get'', (op_row ClassTenant LevelProject [atom CapRead LevelProject] (licensed
         [''catalogue.GetGroup'', ''catalogue.List'']) [])\<lparr>os_auditedNone := True\<rparr>),
      (''key-group.list'', (op_row ClassTenant LevelProject [atom CapRead LevelProject] (licensed
         [''catalogue.ListGroups'', ''catalogue.List'']) [])\<lparr>os_auditedNone := True\<rparr>)]"

definition operationTable_part12 :: "(Operation \<times> opSpec) list" where
  "operationTable_part12 =
     [(''key-group.rename'', op_row ClassTenant LevelProject [atom CapDefinitionsEdit LevelProject]
         (licensed [''environments.List'', ''projects.Get'', ''projects.Lock'', ''catalogue.GetGroup'',
         ''catalogue.RenameGroup'', ''catalogue.List'', ''catalogue.BumpSchemaRevision'',
         ''audit.InsertTenant'']) [''settings.key_group_renamed'', ''scanning.finding_blocked'',
         ''scanning.finding_overridden'']),
      (''key-group.delete'', op_row ClassTenant LevelProject [atom CapDefinitionsEdit LevelProject]
         (licensed [''environments.List'', ''projects.Get'', ''projects.Lock'', ''catalogue.GetGroup'',
         ''catalogue.List'', ''catalogue.ClearGroupMembers'', ''catalogue.DeleteGroup'',
         ''catalogue.BumpSchemaRevision'', ''audit.InsertTenant'']) [''settings.key_group_deleted'']),
      (''folder.create'', op_row ClassTenant LevelProject [atom CapDefinitionsEdit LevelProject] (licensed
         [''projects.Get'', ''folders.Create'', ''audit.InsertTenant'']) [''settings.folder_created'',
         ''scanning.finding_blocked'', ''scanning.finding_overridden'']),
      (''folder.get'', (op_row ClassTenant LevelProject [atom CapRead LevelProject] (licensed
         [''folders.Get'']) [])\<lparr>os_auditedNone := True\<rparr>),
      (''folder.list'', (op_row ClassTenant LevelProject [atom CapRead LevelProject] (licensed
         [''folders.List'']) [])\<lparr>os_auditedNone := True\<rparr>),
      (''folder.rename'', op_row ClassTenant LevelProject [atom CapDefinitionsEdit LevelProject] (licensed
         [''projects.Get'', ''folders.Get'', ''folders.Rename'', ''audit.InsertTenant''])
         [''settings.folder_renamed'', ''scanning.finding_blocked'', ''scanning.finding_overridden'']),
      (''folder.delete'', op_row ClassTenant LevelProject [atom CapDefinitionsEdit LevelProject] (licensed
         [''projects.Get'', ''folders.Get'', ''folders.Delete'', ''audit.InsertTenant''])
         [''settings.folder_deleted'']),
      (''audit.query-org'', op_row ClassTenant LevelOrg [atom CapAuditRead LevelOrg] (licensed
         [''audit.PageTenant'', ''audit.MaxTenantSeq'', ''audit.InsertTenant'']) [''audit.query'']),
      (''audit.query-project'', op_row ClassTenant LevelProject [atom CapAuditRead LevelProject] (licensed
         [''audit.PageTenant'', ''audit.MaxTenantSeq'', ''audit.InsertTenant'']) [''audit.query'']),
      (''audit.query-env'', op_row ClassTenant LevelEnv [atom CapAuditRead LevelEnv] (licensed
         [''audit.PageTenant'', ''audit.MaxTenantSeq'', ''audit.InsertTenant'']) [''audit.query'']),
      (''audit.export-org'', op_row ClassTenant LevelOrg [atom CapAuditRead LevelOrg] (licensed
         [''audit.PageTenant'', ''audit.InsertTenant'']) [''audit.export_started'',
         ''audit.export_completed'']),
      (''audit.export-project'', op_row ClassTenant LevelProject [atom CapAuditRead LevelProject] (licensed
         [''audit.PageTenant'', ''audit.InsertTenant'']) [''audit.export_started'',
         ''audit.export_completed'']),
      (''audit.export-env'', op_row ClassTenant LevelEnv [atom CapAuditRead LevelEnv] (licensed
         [''audit.PageTenant'', ''audit.InsertTenant'']) [''audit.export_started'',
         ''audit.export_completed'']),
      (''audit.instance-query'', op_row ClassInstance LevelNone [atom CapAuditRead LevelNone] (licensed
         [''audit.PageInstance'', ''audit.MaxInstanceSeq'', ''audit.InsertInstance'']) [''audit.query'']),
      (''audit.instance-export'', op_row ClassInstance LevelNone [atom CapAuditRead LevelNone] (licensed
         [''audit.PageInstance'', ''audit.InsertInstance'']) [''audit.export_started'',
         ''audit.export_completed''])]"

definition operationTable_part13 :: "(Operation \<times> opSpec) list" where
  "operationTable_part13 =
     [(''grant.create-org'', op_row ClassTenant LevelOrg [atom CapManageMembers LevelOrg] (withCure
         [''audit.InsertTenant'']) ([''grant.created'', ''grant.modified''] @ grantCureEvents)),
      (''grant.create-project'', op_row ClassTenant LevelProject [atom CapManageMembers LevelProject]
         (licensed [''audit.InsertTenant'']) [''grant.created'', ''grant.modified'',
         ''identity.grant_widened'']),
      (''grant.create-env'', op_row ClassTenant LevelEnv [atom CapManageMembers LevelProject] (licensed
         [''audit.InsertTenant'']) [''grant.created'', ''grant.modified'', ''identity.grant_widened'']),
      (''grant.create-instance'', op_row ClassInstance LevelNone [atom CapManageMembers LevelNone] (licensed
         [''audit.InsertInstance'']) ([''grant.created'', ''grant.modified''] @ grantCureEvents)),
      (''grant.revoke-org'', op_row ClassTenant LevelOrg [atom CapManageMembers LevelOrg] (licensed
         [''audit.InsertTenant'']) [''grant.revoked'', ''grant.modified'']),
      (''grant.revoke-project'', op_row ClassTenant LevelProject [atom CapManageMembers LevelProject]
         (licensed [''audit.InsertTenant'']) [''grant.revoked'', ''grant.modified'']),
      (''grant.revoke-env'', op_row ClassTenant LevelEnv [atom CapManageMembers LevelProject] (licensed
         [''audit.InsertTenant'']) [''grant.revoked'', ''grant.modified'']),
      (''grant.revoke-instance'', op_row ClassInstance LevelNone [atom CapManageMembers LevelNone] (licensed
         [''audit.InsertInstance'']) [''grant.revoked'', ''grant.modified'']),
      (''grant.list-org'', op_row ClassTenant LevelOrg [atom CapManageMembers LevelOrg] (licensed
         [''audit.InsertTenant'']) [''grant.membership_read'']),
      (''grant.list-project'', op_row ClassTenant LevelProject [atom CapManageMembers LevelProject]
         (licensed [''audit.InsertTenant'']) [''grant.membership_read'']),
      (''grant.list-instance'', op_row ClassInstance LevelNone [atom CapManageMembers LevelNone] (licensed
         [''audit.InsertInstance'']) [''grant.membership_read'']),
      (''grant.template-org'', op_row ClassTenant LevelOrg [atom CapManageMembers LevelOrg] (withCure
         [''audit.InsertTenant'']) ([''grant.template_applied'', ''grant.created'', ''grant.modified''] @
         grantCureEvents)),
      (''grant.template-project'', op_row ClassTenant LevelProject [atom CapManageMembers LevelProject]
         (licensed [''audit.InsertTenant'']) [''grant.template_applied'', ''grant.created'',
         ''grant.modified'', ''identity.grant_widened''])]"

definition operationTable_part14 :: "(Operation \<times> opSpec) list" where
  "operationTable_part14 =
     [(''grant.template-env'', op_row ClassTenant LevelEnv [atom CapManageMembers LevelProject] (licensed
         [''audit.InsertTenant'']) [''grant.template_applied'', ''grant.created'', ''grant.modified'',
         ''identity.grant_widened'']),
      (''grant.template-instance'', op_row ClassInstance LevelNone [atom CapManageMembers LevelNone]
         (licensed [''audit.InsertInstance'']) ([''grant.template_applied'', ''grant.created'',
         ''grant.modified''] @ grantCureEvents)),
      (''member.invite-org'', op_row ClassTenant LevelOrg [atom CapManageMembers LevelOrg] (withCure
         [''audit.InsertTenant'']) ([''member.invited'', ''grant.template_applied'', ''grant.created'',
         ''grant.modified''] @ grantCureEvents)),
      (''member.invite-instance'', op_row ClassInstance LevelNone [atom CapManageMembers LevelNone]
         (licensed [''audit.InsertInstance'']) ([''member.invited'', ''grant.template_applied'',
         ''grant.created'', ''grant.modified''] @ grantCureEvents)),
      (''environment.settings-read'', (op_row ClassTenant LevelEnv [atom CapRead LevelEnv] (licensed
         [''environments.Settings'']) [])\<lparr>os_auditedNone := True\<rparr>),
      (''environment.settings-update'', op_row ClassTenant LevelEnv [atom CapProjectSettings LevelProject]
         (licensed [''environments.Settings'', ''environments.SetSettings'', ''audit.InsertTenant''])
         [''settings.reauthentication_window_changed'', ''settings.protected_flag_changed'',
         ''auth.effective_window_lowered'']),
      (''retention.org-read'', (op_row ClassTenant LevelOrg [atom CapRead LevelOrg] (licensed
         [''orgs.Get'']) [])\<lparr>os_auditedNone := True\<rparr>),
      (''retention.org-update'', op_row ClassTenant LevelOrg [atom CapProjectSettings LevelOrg] (licensed
         [''orgs.Get'', ''orgs.Lock'', ''orgs.SetRetention'', ''projects.List'', ''audit.InsertTenant''])
         [''settings.org_retention_changed'']),
      (''retention.project-read'', (op_row ClassTenant LevelProject [atom CapRead LevelProject] (licensed
         [''orgs.Get'', ''projects.Get'']) [])\<lparr>os_auditedNone := True\<rparr>),
      (''retention.project-update'', op_row ClassTenant LevelProject [atom CapProjectSettings LevelProject]
         (licensed [''orgs.Get'', ''orgs.Lock'', ''projects.Get'', ''projects.SetRetention'',
         ''audit.InsertTenant'']) [''settings.project_retention_changed'']),
      (''retention.health-read'', op_row ClassInstance LevelNone [atom CapInstanceConfig LevelNone]
         (licensed [''retention.LastPruneSuccess'', ''retention.Diagnostics'', ''audit.InsertInstance'',
         ''adapters.HealthCounts'', ''values.InstancePayloadByProject'',
         ''snapshots.InstancePayloadByProject'', ''backupstate.Get'']) [''retention.health_read'']),
      (''update.status-read'', op_row ClassInstance LevelNone [atom CapInstanceConfig LevelNone] (licensed
         [''audit.InsertInstance'']) [''system.update_status_read'']),
      (''update.request'', op_row ClassInstance LevelNone [atom CapInstanceConfig LevelNone] (licensed
         [''audit.InsertInstance'']) [''system.update_requested'', ''system.update_outcome''])]"

definition operationTable_part15 :: "(Operation \<times> opSpec) list" where
  "operationTable_part15 =
     [(''update.job-read'', op_row ClassInstance LevelNone [atom CapInstanceConfig LevelNone] (licensed
         [''audit.InsertInstance'']) [''system.update_outcome'']),
      (''identity.service-account-create'', op_row ClassTenant LevelProject
         [atom CapManageIdentities LevelProject] (licensed [''audit.InsertTenant''])
         [''identity.service_account_created'']),
      (''identity.service-account-list'', op_row ClassTenant LevelProject
         [atom CapManageIdentities LevelProject] (licensed [''audit.InsertTenant''])
         [''identity.credentials_listed'']),
      (''identity.service-account-delete'', op_row ClassTenant LevelProject
         [atom CapManageIdentities LevelProject] (licensed [''audit.InsertTenant''])
         [''identity.service_account_deleted'', ''identity.credential_revoked'']),
      (''identity.credential-mint'', op_row ClassTenant LevelProject [atom CapManageIdentities LevelProject]
         (licensed [''audit.InsertTenant'']) [''identity.credential_minted'']),
      (''identity.credential-list'', op_row ClassTenant LevelProject [atom CapManageIdentities LevelProject]
         (licensed [''audit.InsertTenant'']) [''identity.credentials_listed'']),
      (''identity.credential-revoke'', op_row ClassTenant LevelProject
         [atom CapManageIdentities LevelProject] (licensed [''audit.InsertTenant''])
         [''identity.credential_revoked'', ''identity.binding_reactivated'']),
      (''identity.credential-policy-read'', op_row ClassInstance LevelNone
         [atom CapInstanceConfig LevelNone] (licensed [''audit.InsertInstance''])
         [''identity.lifetime_policy_read'']),
      (''identity.credential-policy-update'', op_row ClassInstance LevelNone
         [atom CapInstanceConfig LevelNone] (licensed [''audit.InsertInstance''])
         [''identity.lifetime_policy_changed'', ''identity.lifetime_policy_read'']),
      (''federation.issuer-create'', op_row ClassInstance LevelNone [atom CapInstanceConfig LevelNone]
         (licensed [''audit.InsertInstance'']) [''identity.federation_issuer_changed'']),
      (''federation.issuer-update'', op_row ClassInstance LevelNone [atom CapInstanceConfig LevelNone]
         (licensed [''audit.InsertInstance'']) [''identity.federation_issuer_changed'']),
      (''federation.issuer-delete'', op_row ClassInstance LevelNone [atom CapInstanceConfig LevelNone]
         (licensed [''audit.InsertInstance'']) [''identity.federation_issuer_changed'']),
      (''federation.issuer-list'', op_row ClassInstance LevelNone [atom CapInstanceConfig LevelNone]
         (licensed [''audit.InsertInstance'']) [''identity.federation_issuer_read'']),
      (''identity.binding-create'', op_row ClassTenant LevelProject [atom CapManageIdentities LevelProject]
         (licensed [''audit.InsertTenant'']) [''identity.binding_created'',
         ''identity.credential_revoked''])]"

definition operationTable_part16 :: "(Operation \<times> opSpec) list" where
  "operationTable_part16 =
     [(''delivery.fetch'', op_row ClassTenant LevelEnv [atom CapRead LevelEnv] (licensed
         [''snapshots.Latest'', ''snapshots.Entries'', ''snapshots.ParameterContract'',
         ''snapshots.AtRevision'', ''pins.GetForWorkload'', ''catalogue.List'', ''catalogue.ListPresence'',
         ''catalogue.SchemaRevision'', ''audit.InsertTenant'']) [''identity.delivery_fetched'',
         ''identity.disclosure'']),
      (''delivery.reconcile-offline'', op_row ClassTenant LevelEnv [atom CapRead LevelEnv] (licensed
         [''audit.ClaimOfflineRecord'', ''audit.InsertTenant'']) [''identity.offline_records_reconciled'',
         ''disclosure.value_revealed'']),
      (''scim-binding.create'', op_row ClassTenant LevelOrg scimAdminFormula (scimOps [scimBase,
         scimAttentionReadOps, [''scim.CreateBinding'']]) [''scim.binding_created'', ''grant.created'',
         ''scim.attention_entered'']),
      (''scim-binding.get'', op_row ClassTenant LevelOrg scimAdminFormula (scimOps [scimBase,
         scimAttentionReadOps]) [''scim.admin_read'', ''scim.attention_entered'',
         ''scim.attention_cleared'']),
      (''scim-binding.list'', op_row ClassTenant LevelOrg scimAdminFormula (scimOps [scimBase,
         scimAttentionReadOps, [''scim.Bindings'']]) [''scim.admin_read'', ''scim.attention_entered'',
         ''scim.attention_cleared'']),
      (''scim-binding.delete'', op_row ClassTenant LevelOrg scimAdminFormula (scimOps [scimBase,
         scimDirectoryOps, scimTeardownOps, scimCredentialOps]) [''scim.binding_deleted'',
         ''grant.revoked'', ''grant.modified'', ''scim.lockout_retention'', ''scim.attention_entered'',
         ''scim.attention_cleared'']),
      (''scim-mapping.create'', op_row ClassTenant LevelOrg scimAdminFormula (scimOps [scimBase,
         scimDirectoryOps, scimMappingWriteOps]) [''scim.mapping_created'', ''grant.created'',
         ''grant.modified'', ''scim.lockout_retention_released'', ''scim.attention_cleared'']),
      (''scim-mapping.update'', op_row ClassTenant LevelOrg scimAdminFormula (scimOps [scimBase,
         scimDirectoryOps, scimMappingWriteOps]) [''scim.mapping_updated'', ''grant.created'',
         ''grant.modified'', ''grant.revoked'', ''scim.lockout_retention'',
         ''scim.lockout_retention_released'', ''scim.attention_entered'', ''scim.attention_cleared'']),
      (''scim-mapping.delete'', op_row ClassTenant LevelOrg scimAdminFormula (scimOps [scimBase,
         scimDirectoryOps, scimMappingWriteOps]) [''scim.mapping_deleted'', ''grant.revoked'',
         ''grant.modified'', ''scim.lockout_retention'', ''scim.attention_entered'',
         ''scim.attention_cleared'']),
      (''scim-mapping.list'', op_row ClassTenant LevelOrg scimAdminFormula (scimOps [scimBase,
         [''scim.Mappings'']]) [''scim.admin_read'']),
      (''scim-credential.mint'', op_row ClassTenant LevelOrg scimAdminFormula (scimOps [scimBase,
         scimCredentialOps]) [''scim.credential_minted'', ''scim.credential_rotated''])]"

definition operationTable_part17 :: "(Operation \<times> opSpec) list" where
  "operationTable_part17 =
     [(''scim-credential.get'', op_row ClassTenant LevelOrg scimAdminFormula (scimOps [scimBase,
         scimCredentialOps]) [''scim.admin_read'']),
      (''scim-credential.list'', op_row ClassTenant LevelOrg scimAdminFormula (scimOps [scimBase,
         scimCredentialOps]) [''scim.admin_read'']),
      (''scim-credential.revoke'', op_row ClassTenant LevelOrg scimAdminFormula (scimOps [scimBase,
         scimCredentialOps]) [''scim.credential_revoked'']),
      (''scim-directory.users'', op_row ClassTenant LevelOrg scimAdminFormula (scimOps [scimBase,
         scimDirectoryOps]) [''scim.admin_read'']),
      (''scim-directory.groups'', op_row ClassTenant LevelOrg scimAdminFormula (scimOps [scimBase,
         scimDirectoryOps]) [''scim.admin_read'']),
      (''scim-user.create'', op_row ClassTenant LevelOrg scimWireFormula (scimOps [scimBase, scimWireBase,
         scimDirectoryOps, scimUserWriteOps]) [''scim.user_provisioned'', ''grant.created'',
         ''grant.modified'', ''scim.attention_cleared'']),
      (''scim-user.get'', op_row ClassTenant LevelOrg scimWireFormula (scimOps [scimBase, scimWireBase,
         scimDirectoryOps]) [''scim.directory_read'', ''scim.attention_cleared'']),
      (''scim-user.list'', op_row ClassTenant LevelOrg scimWireFormula (scimOps [scimBase, scimWireBase,
         scimDirectoryOps]) [''scim.directory_read'', ''scim.attention_cleared'']),
      (''scim-user.replace'', op_row ClassTenant LevelOrg scimWireFormula (scimOps [scimBase, scimWireBase,
         scimDirectoryOps, scimUserWriteOps]) scimUserMutationEvents),
      (''scim-user.patch'', op_row ClassTenant LevelOrg scimWireFormula (scimOps [scimBase, scimWireBase,
         scimDirectoryOps, scimUserWriteOps]) scimUserMutationEvents),
      (''scim-user.delete'', op_row ClassTenant LevelOrg scimWireFormula (scimOps [scimBase, scimWireBase,
         scimDirectoryOps, scimUserWriteOps]) [''scim.user_deleted'', ''grant.revoked'', ''grant.modified'',
         ''scim.lockout_retention'', ''scim.attention_entered'', ''scim.attention_cleared'']),
      (''scim-group.create'', op_row ClassTenant LevelOrg scimWireFormula (scimOps [scimBase, scimWireBase,
         scimDirectoryOps, scimGroupWriteOps]) [''scim.group_created'', ''scim.group_membership_changed'',
         ''grant.created'', ''grant.modified'', ''scim.attention_cleared'']),
      (''scim-group.get'', op_row ClassTenant LevelOrg scimWireFormula (scimOps [scimBase, scimWireBase,
         scimDirectoryOps]) [''scim.directory_read'', ''scim.attention_cleared'']),
      (''scim-group.list'', op_row ClassTenant LevelOrg scimWireFormula (scimOps [scimBase, scimWireBase,
         scimDirectoryOps]) [''scim.directory_read'', ''scim.attention_cleared'']),
      (''scim-group.replace'', op_row ClassTenant LevelOrg scimWireFormula (scimOps [scimBase, scimWireBase,
         scimDirectoryOps, scimGroupWriteOps]) scimGroupMutationEvents),
      (''scim-group.patch'', op_row ClassTenant LevelOrg scimWireFormula (scimOps [scimBase, scimWireBase,
         scimDirectoryOps, scimGroupWriteOps]) scimGroupMutationEvents),
      (''scim-group.delete'', op_row ClassTenant LevelOrg scimWireFormula (scimOps [scimBase, scimWireBase,
         scimDirectoryOps, scimGroupWriteOps, scimMappingWriteOps]) [''scim.group_deleted'',
         ''scim.group_membership_changed'', ''grant.revoked'', ''grant.modified'',
         ''scim.lockout_retention'', ''scim.attention_entered'', ''scim.attention_cleared''])]"

definition operationTable_part18 :: "(Operation \<times> opSpec) list" where
  "operationTable_part18 =
     [(''scim-unsupported.refuse'', op_row ClassTenant LevelOrg scimWireFormula (scimOps [scimBase,
         scimWireBase]) [''scim.directory_read'', ''scim.attention_cleared'']),
      (''scim-discovery.read'', (op_row ClassTenant LevelOrg scimWireFormula scimDiscoveryOps
         [])\<lparr>os_reviewExempt := True\<rparr>),
      (''remote.directory-serve'', op_row ClassInstance LevelNone [atom CapInstanceDirector LevelNone]
         (licensed [''orgs.List'', ''projects.ListAll'', ''audit.InsertInstance''])
         [''remote.directory_served'']),
      (''remote.add'', op_row ClassInstance LevelNone [atom CapInstanceConfig LevelNone] (licensed
         [''remotes.Count'', ''remotes.List'', ''remotes.Snapshots'', ''remotes.Create'',
         ''remotes.WriteSnapshot'', ''keys.AssertActiveDEKVersion'', ''audit.InsertInstance''])
         [''remote.added'']),
      (''remote.list'', op_row ClassInstance LevelNone [atom CapInstanceDirector LevelNone] (licensed
         [''remotes.List'', ''remotes.SealedCredential'', ''remotes.Snapshots'', ''remotes.WriteSnapshot'',
         ''remotes.RecordFetchFailure'', ''audit.InsertInstance'']) [''remote.directory_viewed'',
         ''remote.fetch_failed'']),
      (''remote.show'', op_row ClassInstance LevelNone [atom CapInstanceDirector LevelNone] (licensed
         [''remotes.Get'', ''remotes.GetByName'', ''remotes.SealedCredential'', ''remotes.Snapshot'',
         ''remotes.WriteSnapshot'', ''remotes.RecordFetchFailure'', ''audit.InsertInstance''])
         [''remote.directory_viewed'', ''remote.fetch_failed'']),
      (''remote.rename'', op_row ClassInstance LevelNone [atom CapInstanceConfig LevelNone] (licensed
         [''remotes.Get'', ''remotes.GetByName'', ''remotes.Rename'', ''remotes.Snapshot'',
         ''audit.InsertInstance'']) [''remote.renamed'']),
      (''remote.remove'', op_row ClassInstance LevelNone [atom CapInstanceConfig LevelNone] (licensed
         [''remotes.Get'', ''remotes.GetByName'', ''remotes.Delete'', ''audit.InsertInstance''])
         [''remote.removed'']),
      (''remote-credential.create'', op_row ClassInstance LevelNone [atom CapInstanceConfig LevelNone]
         (licensed [''audit.InsertInstance'']) [''remote.credential_minted''])]"

definition operationTable_part19 :: "(Operation \<times> opSpec) list" where
  "operationTable_part19 =
     [(''remote-credential.list'', op_row ClassInstance LevelNone [atom CapInstanceConfig LevelNone]
         (licensed [''audit.InsertInstance'']) [''remote.credentials_listed'']),
      (''remote-credential.show'', op_row ClassInstance LevelNone [atom CapInstanceConfig LevelNone]
         (licensed [''audit.InsertInstance'']) [''remote.credentials_listed'']),
      (''remote-credential.revoke'', op_row ClassInstance LevelNone [atom CapInstanceConfig LevelNone]
         (licensed [''audit.InsertInstance'']) [''remote.credential_revoked'']),
      (''workspace-origin.list'', op_row ClassInstance LevelNone [atom CapInstanceConfig LevelNone]
         (licensed [''audit.InsertInstance'']) [''remote.origin_allowlist_read'']),
      (''workspace-origin.add'', op_row ClassInstance LevelNone [atom CapInstanceConfig LevelNone] (licensed
         [''audit.InsertInstance'']) [''remote.origin_allowlist_changed'']),
      (''workspace-origin.remove'', op_row ClassInstance LevelNone [atom CapInstanceConfig LevelNone]
         (licensed [''audit.InsertInstance'']) [''remote.origin_allowlist_changed'',
         ''remote.workspace_session_revoked'']),
      (''adapter.configure'', (op_row ClassTenant LevelProject [atom CapManageAdapters LevelProject]
         (licensed [''adapters.Create'', ''adapters.AddTarget'', ''adapters.BeginConfigureEffect'',
         ''adapters.FinishConfigureEffect'', ''adapters.UpdateTarget'', ''adapters.MoveTarget'',
         ''adapters.MoveOrigin'', ''adapters.CancelMove'', ''adapters.ReplaceMoveTarget'',
         ''adapters.ReplaceMoveOrigin'', ''adapters.Move'', ''adapters.Configuration'', ''adapters.Target'',
         ''adapters.TargetKeyIDs'', ''adapters.TargetKeys'', ''adapters.PauseTarget'',
         ''adapters.Environments'', ''catalogue.List'', ''keys.AssertActiveDEKVersion'',
         ''audit.InsertTenant'']) [''adapter.configure'', ''adapter.sync_requested'',
         ''adapter.superseded'', ''adapter.scrub'', ''adapter.push_intent'',
         ''adapter.push_outcome''])\<lparr>os_postGrantForbidden := True\<rparr>),
      (''adapter.credential-set'', (op_row ClassTenant LevelProject [atom CapManageAdapters LevelProject]
         (licensed [''adapters.Environments'', ''adapters.ReplaceCredential'',
         ''keys.AssertActiveDEKVersion'', ''audit.InsertTenant''])
         [''adapter.credential_replace''])\<lparr>os_postGrantForbidden := True\<rparr>),
      (''adapter.credential-revoke'', op_row ClassTenant LevelProject [atom CapManageAdapters LevelProject]
         (licensed [''adapters.RevokeCredential'', ''audit.InsertTenant'']) [''adapter.credential_revoke'']),
      (''adapter.adopt'', (op_row ClassTenant LevelProject [atom CapManageAdapters LevelProject] (licensed
         [''adapters.Target'', ''adapters.TargetEnvironments'', ''adapters.Conflicts'', ''adapters.Adopt'',
         ''audit.InsertTenant'']) [''adapter.adopt'', ''adapter.superseded''])\<lparr>os_postGrantForbidden
         := True\<rparr>),
      (''adapter.inspect'', op_row ClassTenant LevelProject [atom CapManageAdapters LevelProject] (licensed
         [''adapters.Get'', ''adapters.List'', ''adapters.ListTargets'', ''adapters.Target'',
         ''adapters.TargetKeys'', ''adapters.Mapping'', ''adapters.TargetEnvironments'',
         ''adapters.Conflicts'', ''adapters.Move'', ''audit.InsertTenant'']) [''adapter.inspect'']),
      (''adapter.plan'', op_row ClassTenant LevelProject [atom CapManageAdapters LevelProject] (licensed
         [''adapters.Target'', ''adapters.PlanMaterial'', ''adapters.Conflicts'', ''adapters.RecordPlan'',
         ''audit.InsertTenant'']) [''adapter.plan'']),
      (''adapter.test'', op_row ClassTenant LevelProject [atom CapManageAdapters LevelProject] (licensed
         [''adapters.PlanMaterial'', ''adapters.Target'', ''adapters.RecordCredentialExpiry'',
         ''audit.InsertTenant'']) [''adapter.test'']),
      (''adapter.sync'', (op_row ClassTenant LevelProject [atom CapManageAdapters LevelProject] (licensed
         [''adapters.Target'', ''adapters.Environments'', ''adapters.EnqueueManual'',
         ''adapters.ResumeTarget'', ''audit.InsertTenant'']) [''adapter.sync_requested'',
         ''adapter.push_intent'', ''adapter.push_outcome'', ''adapter.key_delivered'', ''adapter.abort'',
         ''adapter.superseded''])\<lparr>os_postGrantForbidden := True\<rparr>),
      (''adapter.delete'', op_row ClassTenant LevelProject [atom CapManageAdapters LevelProject] (licensed
         [''adapters.TeardownTarget'', ''adapters.TeardownAdapter'', ''audit.InsertTenant''])
         [''adapter.configure'', ''adapter.scrub'', ''adapter.push_intent'', ''adapter.push_outcome'',
         ''adapter.abort'', ''adapter.superseded'']),
      (''adapter.push'', op_row ClassTenant LevelEnv [atom CapManageAdapters LevelProject,
         atom CapReveal LevelEnv] (licensed [''audit.InsertTenant'']) [''adapter.push_intent'',
         ''adapter.push_outcome'', ''adapter.key_delivered'', ''adapter.abort'', ''adapter.scrub'',
         ''adapter.superseded'']),
      (''dynamic-provider.configure'', op_row ClassTenant LevelProject
         [atom CapManageIdentities LevelProject] (licensed [''dynamic.CreateProvider'',
         ''dynamic.GetProvider'', ''keys.AssertActiveDEKVersion'', ''audit.InsertTenant''])
         [''dynamic.provider_configured'']),
      (''dynamic-provider.inspect'', op_row ClassTenant LevelProject [atom CapManageIdentities LevelProject]
         (licensed [''dynamic.GetProvider'', ''dynamic.ListProviders'', ''audit.InsertTenant''])
         [''dynamic.provider_inspected'']),
      (''dynamic-provider.credential-set'', op_row ClassTenant LevelProject
         [atom CapManageIdentities LevelProject] (licensed [''dynamic.GetProvider'',
         ''dynamic.ReplaceProviderCredential'', ''keys.AssertActiveDEKVersion'', ''audit.InsertTenant''])
         [''dynamic.provider_credential_replace'']),
      (''dynamic-provider.credential-revoke'', op_row ClassTenant LevelProject
         [atom CapManageIdentities LevelProject] (licensed [''dynamic.GetProvider'',
         ''dynamic.RevokeProviderCredential'', ''audit.InsertTenant''])
         [''dynamic.provider_credential_revoke''])]"

definition operationTable_part20 :: "(Operation \<times> opSpec) list" where
  "operationTable_part20 =
     [(''dynamic-provider.delete'', op_row ClassTenant LevelProject [atom CapManageIdentities LevelProject]
         (licensed [''dynamic.GetProvider'', ''dynamic.DeleteProvider'',
         ''dynamic.ActiveLeaseIDsForProvider'', ''dynamic.GetLease'', ''dynamic.EnqueueTransition'',
         ''audit.InsertTenant'']) [''dynamic.provider_deleted'', ''dynamic.lease_transition_intent'']),
      (''lease.mint'', (op_row ClassTenant LevelEnv [atom CapRead LevelEnv] (licensed
         [''dynamic.GetProvider'', ''dynamic.ProviderCredentialCiphertext'', ''dynamic.CreateLease'',
         ''dynamic.GetLease'', ''dynamic.FinishMint'', ''audit.InsertTenant''])
         [''dynamic.lease_transition_intent'', ''dynamic.lease_transition_outcome'',
         ''dynamic.lease_disclosed''])\<lparr>os_postGrantForbidden := True\<rparr>),
      (''lease.inspect'', (op_row ClassTenant LevelEnv [atom CapRead LevelEnv] (licensed
         [''dynamic.GetLease'', ''dynamic.ListLeasesForEnvironment'']) [])\<lparr>os_auditedNone :=
         True\<rparr>),
      (''lease.renew'', op_row ClassTenant LevelEnv [atom CapRead LevelEnv] (licensed [''dynamic.GetLease'',
         ''dynamic.EnqueueTransition'', ''audit.InsertTenant'']) [''dynamic.lease_transition_intent'']),
      (''lease.revoke'', op_row ClassTenant LevelEnv [atom CapRead LevelEnv] (licensed
         [''dynamic.GetLease'', ''dynamic.EnqueueTransition'', ''audit.InsertTenant''])
         [''dynamic.lease_transition_intent'']),
      (''lease.settle'', op_row ClassTenant LevelEnv [atom CapRead LevelEnv] (licensed
         [''dynamic.GetLease'', ''dynamic.EnqueueTransition'', ''audit.InsertTenant''])
         [''dynamic.lease_settle_requested''])]"

definition operationTable :: "(Operation \<times> opSpec) list" where
  "operationTable = operationTable_part1 @ operationTable_part2 @ operationTable_part3 @
     operationTable_part4 @ operationTable_part5 @ operationTable_part6 @ operationTable_part7 @
     operationTable_part8 @ operationTable_part9 @ operationTable_part10 @ operationTable_part11 @
     operationTable_part12 @ operationTable_part13 @ operationTable_part14 @ operationTable_part15 @
     operationTable_part16 @ operationTable_part17 @ operationTable_part18 @ operationTable_part19 @
     operationTable_part20"

end
