(* ===== verification/Authz_Policy.thy ===== *)
theory Authz_Policy
  imports Authz_Table
begin

text \<open>
  The installed registry: \<open>var registry = mustNewRegistry(operationTable)\<close> of \<open>internal/authz/registry.go\<close>,
  with the audit catalogue of \<open>internal/audit\<close> as the registered events and the pinned read-only
  store operations. Every row is evaluated against the validation; the properties below hold of the
  policy the program runs with.
\<close>

definition registeredType :: "EventType \<Rightarrow> bool" where
  "registeredType t \<longleftrightarrow> Spec t \<noteq> None"

definition readOnlyOp :: "StoreOp \<Rightarrow> bool" where
  "readOnlyOp so \<longleftrightarrow> so \<in> set readOnlyStoreOps"

lemma registered_all: "list_all registeredType (map fst registry)"
  by (simp add: list_all_iff registeredType_def Spec_def map_of_eq_None_iff)

lemma readOnly_all: "list_all readOnlyOp readOnlyStoreOps"
  by (simp add: list_all_iff readOnlyOp_def)

lemmas registry_parts = registry_def registry_part1_def registry_part2_def registry_part3_def
  registry_part4_def registry_part5_def registry_part6_def registry_part7_def registry_part8_def
  registry_part9_def registry_part10_def registry_part11_def registry_part12_def registry_part13_def
  registry_part14_def registry_part15_def registry_part16_def registry_part17_def

lemmas registered_facts = registered_all [unfolded registry_parts, simplified]

lemmas readOnly_facts = readOnly_all [unfolded readOnlyStoreOps_def, simplified]

lemma capability_levels:
  "DeepestLevel CapRead = Some LevelEnv \<and> DeepestLevel CapReveal = Some LevelEnv \<and>
   DeepestLevel CapRevealHistory = Some LevelEnv \<and> DeepestLevel CapEdit = Some LevelEnv \<and>
   DeepestLevel CapPublish = Some LevelEnv \<and> DeepestLevel CapPin = Some LevelEnv \<and>
   DeepestLevel CapDefinitionsEdit = Some LevelProject \<and> DeepestLevel CapProjectSettings = Some LevelProject \<and>
   DeepestLevel CapManageIdentities = Some LevelProject \<and> DeepestLevel CapManageAdapters = Some LevelProject \<and>
   DeepestLevel CapManageMembers = Some LevelProject \<and> DeepestLevel CapManageProjects = Some LevelOrg \<and>
   DeepestLevel CapAuditRead = Some LevelEnv \<and> DeepestLevel CapCredentialReset = Some LevelOrg \<and>
   DeepestLevel CapSCIMProvision = Some LevelOrg \<and> DeepestLevel CapBackupExport = Some LevelNone \<and>
   DeepestLevel CapRestore = Some LevelNone \<and> DeepestLevel CapRotateRootKey = Some LevelNone \<and>
   DeepestLevel CapRotateMasterKey = Some LevelNone \<and> DeepestLevel CapRotateDEK = Some LevelNone \<and>
   DeepestLevel CapReencrypt = Some LevelNone \<and> DeepestLevel CapInstanceConfig = Some LevelNone \<and>
   DeepestLevel CapInstanceDirector = Some LevelNone"
  by (simp add: DeepestLevel_def capabilityLevels_def cap_defs)

lemma IsCapability_iff: "IsCapability c \<longleftrightarrow> DeepestLevel c \<noteq> None"
  by (simp add: IsCapability_def DeepestLevel_def)

lemma licensed_all [simp]:
  "\<not> list_ex (\<lambda>(_, granted). \<not> granted) (licensed sos)"
  "list_ex (\<lambda>(so, _). P so) (licensed sos) \<longleftrightarrow> list_ex P sos"
  by (auto simp: licensed_def list_ex_iff)

lemma groups_licensed [simp]:
  "\<not> list_ex (\<lambda>(_, granted). \<not> granted) (scimOps groups)"
  "\<not> list_ex (\<lambda>(_, granted). \<not> granted) scimDiscoveryOps"
  "\<not> list_ex (\<lambda>(_, granted). \<not> granted) (withCure base)"
  by (simp_all add: scimOps_def scimDiscoveryOps_def withCure_def)

definition valid_row :: "Operation \<times> opSpec \<Rightarrow> bool" where
  "valid_row row \<longleftrightarrow> (case row of (op, spec) \<Rightarrow> op \<noteq> [] \<and> validateSpec registeredType readOnlyOp op spec = None)"

lemmas policy_eval = valid_row_def validateSpec_def validateAuditDisposition_def registrableClasses_def
  tenantLevel_def validLevel_def level_defs Let_def IsCapability_iff capability_levels
  scimAdminFormula_def scimWireFormula_def
  scimUserMutationEvents_def scimGroupMutationEvents_def grantCureEvents_def
  OpDefinitionsPlanGet_def OpSCIMDiscovery_def registered_facts readOnly_facts

lemma policy_part1: "list_all valid_row operationTable_part1"
  by (simp add: operationTable_part1_def policy_eval)

lemma policy_part2: "list_all valid_row operationTable_part2"
  by (simp add: operationTable_part2_def policy_eval)

lemma policy_part3: "list_all valid_row operationTable_part3"
  by (simp add: operationTable_part3_def policy_eval)

lemma policy_part4: "list_all valid_row operationTable_part4"
  by (simp add: operationTable_part4_def policy_eval)

lemma policy_part5: "list_all valid_row operationTable_part5"
  by (simp add: operationTable_part5_def policy_eval)

lemma policy_part6: "list_all valid_row operationTable_part6"
  by (simp add: operationTable_part6_def policy_eval)

lemma policy_part7: "list_all valid_row operationTable_part7"
  by (simp add: operationTable_part7_def policy_eval)

lemma policy_part8: "list_all valid_row operationTable_part8"
  by (simp add: operationTable_part8_def policy_eval)

lemma policy_part9: "list_all valid_row operationTable_part9"
  by (simp add: operationTable_part9_def policy_eval)

lemma policy_part10: "list_all valid_row operationTable_part10"
  by (simp add: operationTable_part10_def policy_eval)

lemma policy_part11: "list_all valid_row operationTable_part11"
  by (simp add: operationTable_part11_def policy_eval)

lemma policy_part12: "list_all valid_row operationTable_part12"
  by (simp add: operationTable_part12_def policy_eval)

lemma policy_part13: "list_all valid_row operationTable_part13"
  by (simp add: operationTable_part13_def policy_eval)

lemma policy_part14: "list_all valid_row operationTable_part14"
  by (simp add: operationTable_part14_def policy_eval)

lemma policy_part15: "list_all valid_row operationTable_part15"
  by (simp add: operationTable_part15_def policy_eval)

lemma policy_part16: "list_all valid_row operationTable_part16"
  by (simp add: operationTable_part16_def policy_eval)

lemma policy_part17: "list_all valid_row operationTable_part17"
  by (simp add: operationTable_part17_def policy_eval)

lemma policy_part18: "list_all valid_row operationTable_part18"
  by (simp add: operationTable_part18_def policy_eval)

lemma policy_part19: "list_all valid_row operationTable_part19"
  by (simp add: operationTable_part19_def policy_eval)

lemma policy_part20: "list_all valid_row operationTable_part20"
  by (simp add: operationTable_part20_def policy_eval)

section \<open>The installed registry\<close>

definition mustNewRegistry :: "(Operation \<times> opSpec) list \<Rightarrow> Registry option" where
  "mustNewRegistry table =
     (case newRegistry registeredType readOnlyOp table of Inl _ \<Rightarrow> None | Inr r \<Rightarrow> Some r)"

lemma policy_rows: "list_all valid_row operationTable"
  by (simp add: operationTable_def policy_part1 policy_part2 policy_part3 policy_part4 policy_part5 policy_part6
      policy_part7 policy_part8 policy_part9 policy_part10 policy_part11 policy_part12 policy_part13
      policy_part14 policy_part15 policy_part16 policy_part17 policy_part18 policy_part19 policy_part20)

lemma newRegistryLoop_Inr:
  "list_all valid_row table \<Longrightarrow>
   newRegistryLoop registeredType readOnlyOp table ops = Inr (ops ++ map_of (rev table))"
  by (induction table arbitrary: ops) (auto simp: valid_row_def map_add_def fun_eq_iff split: option.splits)

lemma installed: "newRegistry registeredType readOnlyOp operationTable = Inr \<lparr>reg_ops = map_of (rev operationTable)\<rparr>"
  by (simp add: newRegistry_def newRegistryLoop_Inr [OF policy_rows])

text \<open>
  The policy table passes its own validation, so that package initialisation does not abort, and the
  installed registry holds exactly the rows of the table.
\<close>

theorem operationTable_installs:
  "\<exists>reg. mustNewRegistry operationTable = Some reg \<and> reg_ops reg = map_of (rev operationTable)"
  by (simp add: mustNewRegistry_def installed)

lemma installed_row:
  assumes "mustNewRegistry operationTable = Some reg" "reg_ops reg op = Some spec"
  shows "(op, spec) \<in> set operationTable" "valid_row (op, spec)"
proof -
  show "(op, spec) \<in> set operationTable"
    using assms by (auto simp: mustNewRegistry_def installed dest!: map_of_SomeD)
  then show "valid_row (op, spec)"
    using policy_rows by (simp add: list_all_iff)
qed

lemma valid_row_atoms:
  "valid_row (op, spec) \<Longrightarrow> os_formula spec \<noteq> [] \<and>
     (\<forall>a \<in> set (os_formula spec). validLevel (atom_At a) \<and> atom_At a \<le> os_level spec) \<and>
     (os_class spec = ClassInstance \<longrightarrow> os_level spec = LevelNone)"
  by (auto simp: valid_row_def validateSpec_def dest!: validateAtoms_None split: if_splits option.splits)

section \<open>Which trail an operation writes\<close>

definition trail_row :: "Operation \<times> opSpec \<Rightarrow> bool" where
  "trail_row row \<longleftrightarrow> (case row of (op, spec) \<Rightarrow>
     (os_class spec = ClassTenant \<longrightarrow> \<not> list_ex (\<lambda>(so, _). so = ''audit.InsertInstance'') (os_storeOps spec)) \<and>
     (os_class spec = ClassInstance \<longrightarrow> \<not> list_ex (\<lambda>(so, _). so = ''audit.InsertTenant'') (os_storeOps spec)))"

lemma list_ex_remdups: "list_ex P (remdups xs) \<longleftrightarrow> list_ex P xs"
  by (simp add: list_ex_iff)

lemmas trail_eval = trail_row_def scimOps_def scimDiscoveryOps_def withCure_def list_ex_remdups
  grantCureStoreOps_def scimCredentialOps_def scimBase_def scimAttentionReadOps_def scimWireBase_def
  scimDirectoryOps_def scimUserWriteOps_def scimGroupWriteOps_def scimMappingWriteOps_def scimTeardownOps_def

lemma trail_part1: "list_all trail_row operationTable_part1"
  by (simp add: operationTable_part1_def trail_eval)

lemma trail_part2: "list_all trail_row operationTable_part2"
  by (simp add: operationTable_part2_def trail_eval)

lemma trail_part3: "list_all trail_row operationTable_part3"
  by (simp add: operationTable_part3_def trail_eval)

lemma trail_part4: "list_all trail_row operationTable_part4"
  by (simp add: operationTable_part4_def trail_eval)

lemma trail_part5: "list_all trail_row operationTable_part5"
  by (simp add: operationTable_part5_def trail_eval)

lemma trail_part6: "list_all trail_row operationTable_part6"
  by (simp add: operationTable_part6_def trail_eval)

lemma trail_part7: "list_all trail_row operationTable_part7"
  by (simp add: operationTable_part7_def trail_eval)

lemma trail_part8: "list_all trail_row operationTable_part8"
  by (simp add: operationTable_part8_def trail_eval)

lemma trail_part9: "list_all trail_row operationTable_part9"
  by (simp add: operationTable_part9_def trail_eval)

lemma trail_part10: "list_all trail_row operationTable_part10"
  by (simp add: operationTable_part10_def trail_eval)

lemma trail_part11: "list_all trail_row operationTable_part11"
  by (simp add: operationTable_part11_def trail_eval)

lemma trail_part12: "list_all trail_row operationTable_part12"
  by (simp add: operationTable_part12_def trail_eval)

lemma trail_part13: "list_all trail_row operationTable_part13"
  by (simp add: operationTable_part13_def trail_eval)

lemma trail_part14: "list_all trail_row operationTable_part14"
  by (simp add: operationTable_part14_def trail_eval)

lemma trail_part15: "list_all trail_row operationTable_part15"
  by (simp add: operationTable_part15_def trail_eval)

lemma trail_part16: "list_all trail_row operationTable_part16"
  by (simp add: operationTable_part16_def trail_eval)

lemma trail_part17: "list_all trail_row operationTable_part17"
  by (simp add: operationTable_part17_def trail_eval)

lemma trail_part18: "list_all trail_row operationTable_part18"
  by (simp add: operationTable_part18_def trail_eval)

lemma trail_part19: "list_all trail_row operationTable_part19"
  by (simp add: operationTable_part19_def trail_eval)

lemma trail_part20: "list_all trail_row operationTable_part20"
  by (simp add: operationTable_part20_def trail_eval)

lemma trail_rows: "list_all trail_row operationTable"
  by (simp add: operationTable_def trail_part1 trail_part2 trail_part3 trail_part4 trail_part5 trail_part6
      trail_part7 trail_part8 trail_part9 trail_part10 trail_part11 trail_part12 trail_part13 trail_part14
      trail_part15 trail_part16 trail_part17 trail_part18 trail_part19 trail_part20)

section \<open>The calls that leave no event\<close>

text \<open>The store operations that the two review-exempt operations may call.\<close>

definition exemptCalls :: "(Operation \<times> StoreOp) list" where
  "exemptCalls = [(OpDefinitionsPlanGet, ''definitions.GetPlan''), (OpSCIMDiscovery, ''scim.Binding''),
     (OpSCIMDiscovery, ''scim.TouchBinding'')]"

definition exempt_row :: "Operation \<times> opSpec \<Rightarrow> bool" where
  "exempt_row row \<longleftrightarrow> (case row of (op, spec) \<Rightarrow> os_reviewExempt spec \<longrightarrow>
     (\<forall>(so, _) \<in> set (os_storeOps spec). (op, so) \<in> set exemptCalls))"

lemma exempt_rows: "list_all exempt_row operationTable"
  by (simp add: operationTable_def operationTable_part1_def operationTable_part2_def operationTable_part3_def
      operationTable_part4_def operationTable_part5_def operationTable_part6_def operationTable_part7_def
      operationTable_part8_def operationTable_part9_def operationTable_part10_def operationTable_part11_def
      operationTable_part12_def operationTable_part13_def operationTable_part14_def operationTable_part15_def
      operationTable_part16_def operationTable_part17_def operationTable_part18_def operationTable_part19_def
      operationTable_part20_def exempt_row_def exemptCalls_def licensed_def scimDiscoveryOps_def
      OpDefinitionsPlanGet_def OpSCIMDiscovery_def)

end
