(* ===== verification/Admission.thy ===== *)
theory Admission
  imports Go_Prelude Go_Hash "HOL-Library.AList"
begin

text \<open>
  \<open>internal/admission\<close>: pre-authentication admission control. An instant is the number of
  nanoseconds since Go's zero time, so \<open>IsZero\<close> is \<open>= 0\<close>; the injected clock is an argument
  of the operations that read it. A Go map is an association list in some iteration order. The
  channel of free slots is its length. The shared counter backend of a multi-node installation is
  an address in the limiter, and its answers to one call are the record \<open>SharedStore\<close>
  (\<open>None\<close> is an error). Logging is left out.
\<close>

abbreviation seconds :: "int \<Rightarrow> int" where "seconds n \<equiv> n * 1000000000"

definition DefaultBudgetMiB :: int where "DefaultBudgetMiB = 272"
definition HeadroomMiB :: int where "HeadroomMiB = 16"
definition MaxConcurrency :: int where "MaxConcurrency = 8"
definition QueueDepth :: nat where "QueueDepth = 16"
definition PerIPPerMinute :: int where "PerIPPerMinute = 10"
definition MetaPerIPPerMinute :: int where "MetaPerIPPerMinute = 60"
definition IssuerRefreshPerMinute :: int where "IssuerRefreshPerMinute = 5"
definition FailuresBeforeBackoff :: nat where "FailuresBeforeBackoff = 5"
definition MaxAccountBackoff :: int where "MaxAccountBackoff = seconds 60"
definition RetryAfter :: int where "RetryAfter = seconds 5"
definition MaxTrackedSubjects :: nat where "MaxTrackedSubjects = 4096"

type_synonym subjectKey = go_string
type_synonym windows = "(go_string \<times> int list) list"

record accountBackoff =
  ab_failures :: nat
  ab_until :: int

record Config =
  cf_BudgetMiB :: int
  cf_ArgonMemoryKiB :: "32 word"
  cf_PerIPPerMinute :: int

record SharedStore =
  BumpWindow :: "go_string \<Rightarrow> go_string \<Rightarrow> int \<Rightarrow> int option"
  AccountFailureState :: "go_string \<Rightarrow> (nat \<times> int \<times> int) option option"
  RecordAccountFailure :: "go_string \<Rightarrow> int \<Rightarrow> nat option"

record Limiter =
  li_concurrency :: nat
  li_perIP :: int
  li_discoveryPerIP :: int
  li_slots :: nat
  li_shared :: "nat option"
  li_waiting :: nat
  li_ipHits :: windows
  li_metaHits :: windows
  li_issuerRefreshes :: windows
  li_accounts :: "(subjectKey \<times> accountBackoff) list"

datatype admission_error =
  ArgonUnstated | BudgetTooSmall | ErrOverloaded | NotDistinct | ErrNotQuiescent | ErrCountersNotEmpty
| ErrSharedBackendChanged

section \<open>Construction\<close>

definition argonMiB :: "Config \<Rightarrow> int" where
  "argonMiB cfg = (uint (cf_ArgonMemoryKiB cfg) + 1023) div 1024"

definition budgetMiB :: "Config \<Rightarrow> int" where
  "budgetMiB cfg = (if cf_BudgetMiB cfg \<le> 0 then DefaultBudgetMiB else cf_BudgetMiB cfg)"

definition New :: "Config \<Rightarrow> admission_error + Limiter" where
  "New cfg =
     (if cf_ArgonMemoryKiB cfg = 0 then Inl ArgonUnstated
      else if budgetMiB cfg < argonMiB cfg + HeadroomMiB then Inl BudgetTooSmall
      else (let concurrency = max 1 (min MaxConcurrency ((budgetMiB cfg - HeadroomMiB) div argonMiB cfg));
                perIP = (if cf_PerIPPerMinute cfg \<le> 0 then PerIPPerMinute else cf_PerIPPerMinute cfg)
            in Inr \<lparr>li_concurrency = nat concurrency, li_perIP = perIP,
                 li_discoveryPerIP = max MetaPerIPPerMinute perIP, li_slots = nat concurrency,
                 li_shared = None, li_waiting = 0, li_ipHits = [], li_metaHits = [],
                 li_issuerRefreshes = [], li_accounts = []\<rparr>))"

definition UseShared :: "nat \<Rightarrow> Limiter \<Rightarrow> Limiter" where
  "UseShared s l = l\<lparr>li_shared := Some s\<rparr>"

section \<open>Windowed counters\<close>

definition allowShared :: "SharedStore \<Rightarrow> int \<Rightarrow> go_string \<Rightarrow> go_string \<Rightarrow> int \<Rightarrow> bool" where
  "allowShared db now bucket subject allowance =
     (if subject = [] then True
      else (case BumpWindow db bucket subject (now - now mod seconds 60) of
              None \<Rightarrow> False | Some n \<Rightarrow> n \<le> allowance))"

definition live :: "int \<Rightarrow> int list \<Rightarrow> bool" where
  "live cutoff hits = list_ex (\<lambda>t. t > cutoff) hits"

text \<open>The scan for the oldest bucket; an empty key means that none was seen yet.\<close>

fun oldestOf :: "windows \<Rightarrow> go_string \<times> int \<Rightarrow> go_string \<times> int" where
  "oldestOf [] best = best"
| "oldestOf ((k, []) # rest) best = oldestOf rest best"
| "oldestOf ((k, t # _) # rest) best =
     oldestOf rest (if fst best = [] \<or> t < snd best then (k, t) else best)"

definition evictStale :: "int \<Rightarrow> windows \<Rightarrow> windows" where
  "evictStale cutoff bucket =
     (let bucket = filter (\<lambda>(_, hits). live cutoff hits) bucket in
      if length bucket \<ge> MaxTrackedSubjects then
        (let oldestKey = fst (oldestOf bucket ([], 0));
             bucket = filter (\<lambda>(_, hits). hits \<noteq> []) bucket
         in if oldestKey \<noteq> [] then AList.delete oldestKey bucket else bucket)
      else bucket)"

definition hitsOf :: "windows \<Rightarrow> go_string \<Rightarrow> int list" where
  "hitsOf bucket ip = (case map_of bucket ip of None \<Rightarrow> [] | Some hits \<Rightarrow> hits)"

definition allowIPIn :: "int \<Rightarrow> go_string \<Rightarrow> int \<Rightarrow> windows \<Rightarrow> bool \<times> windows" where
  "allowIPIn now ip allowance bucket =
     (if ip = [] then (True, bucket)
      else (let cutoff = now - seconds 60;
                kept = filter (\<lambda>t. t > cutoff) (hitsOf bucket ip)
            in if int (length kept) \<ge> allowance then (False, AList.update ip kept bucket)
               else (let bucket = (if kept = [] \<and> length bucket \<ge> MaxTrackedSubjects
                                   then evictStale cutoff bucket else bucket)
                     in (True, AList.update ip (kept @ [now]) bucket))))"

definition allowIP :: "SharedStore \<Rightarrow> int \<Rightarrow> go_string \<Rightarrow> Limiter \<Rightarrow> bool \<times> Limiter" where
  "allowIP db now ip l =
     (if li_shared l \<noteq> None then (allowShared db now ''ip'' ip (li_perIP l), l)
      else (case allowIPIn now ip (li_perIP l) (li_ipHits l) of (ok, b) \<Rightarrow> (ok, l\<lparr>li_ipHits := b\<rparr>)))"

definition AllowDiscovery :: "SharedStore \<Rightarrow> int \<Rightarrow> go_string \<Rightarrow> Limiter \<Rightarrow> bool \<times> Limiter" where
  "AllowDiscovery db now ip l =
     (if li_shared l \<noteq> None then (allowShared db now ''meta'' ip (li_discoveryPerIP l), l)
      else (case allowIPIn now ip (li_discoveryPerIP l) (li_metaHits l) of
              (ok, b) \<Rightarrow> (ok, l\<lparr>li_metaHits := b\<rparr>)))"

definition AllowIssuerRefresh :: "SharedStore \<Rightarrow> int \<Rightarrow> go_string \<Rightarrow> Limiter \<Rightarrow> bool \<times> Limiter" where
  "AllowIssuerRefresh db now issuer l =
     (if li_shared l \<noteq> None then (allowShared db now ''issuer'' issuer IssuerRefreshPerMinute, l)
      else (case allowIPIn now issuer IssuerRefreshPerMinute (li_issuerRefreshes l) of
              (ok, b) \<Rightarrow> (ok, l\<lparr>li_issuerRefreshes := b\<rparr>)))"

section \<open>Account backoff\<close>

definition bucketKey :: "go_string \<Rightarrow> subjectKey" where
  "bucketKey presented = Sum256 presented"

definition sharedAccountSubject :: "go_string \<Rightarrow> go_string" where
  "sharedAccountSubject presented = hex_EncodeToString (bucketKey presented)"

definition backoffDelay :: "nat \<Rightarrow> int" where
  "backoffDelay failures =
     (if failures \<le> FailuresBeforeBackoff then 0
      else min (seconds (2 ^ min (failures - FailuresBeforeBackoff - 1) 16)) MaxAccountBackoff)"

definition sharedAccountDelay :: "SharedStore \<Rightarrow> go_string \<Rightarrow> int" where
  "sharedAccountDelay db presented =
     (case AccountFailureState db (sharedAccountSubject presented) of
        None \<Rightarrow> RetryAfter
      | Some None \<Rightarrow> 0
      | Some (Some (failures, lastFailure, dbNow)) \<Rightarrow> max 0 (lastFailure + backoffDelay failures - dbNow))"

definition accountDelay :: "int \<Rightarrow> subjectKey \<Rightarrow> (subjectKey \<times> accountBackoff) list \<Rightarrow> int" where
  "accountDelay now key accounts =
     (case map_of accounts key of None \<Rightarrow> 0
      | Some state \<Rightarrow> (if ab_until state = 0 then 0 else max 0 (ab_until state - now)))"

definition AccountDelay :: "SharedStore \<Rightarrow> int \<Rightarrow> go_string \<Rightarrow> Limiter \<Rightarrow> int" where
  "AccountDelay db now presented l =
     (if li_shared l \<noteq> None then sharedAccountDelay db presented
      else accountDelay now (bucketKey presented) (li_accounts l))"

fun soonestOf :: "(subjectKey \<times> accountBackoff) list \<Rightarrow> (subjectKey \<times> int) option \<Rightarrow> (subjectKey \<times> int) option" where
  "soonestOf [] best = best"
| "soonestOf ((k, s) # rest) best =
     soonestOf rest (case best of None \<Rightarrow> Some (k, ab_until s)
       | Some (_, u) \<Rightarrow> (if ab_until s < u then Some (k, ab_until s) else best))"

definition evictAccounts :: "int \<Rightarrow> (subjectKey \<times> accountBackoff) list \<Rightarrow> (subjectKey \<times> accountBackoff) list" where
  "evictAccounts now accounts =
     (let accounts = filter (\<lambda>(_, s). ab_until s > now) accounts in
      if length accounts < MaxTrackedSubjects then accounts
      else (case soonestOf accounts None of None \<Rightarrow> accounts | Some (k, _) \<Rightarrow> AList.delete k accounts))"

text \<open>\<open>recordFailure\<close> reads the clock for the sweep and again for the deadline.\<close>

definition recordFailure ::
  "int \<Rightarrow> int \<Rightarrow> subjectKey \<Rightarrow> (subjectKey \<times> accountBackoff) list \<Rightarrow> bool \<times> (subjectKey \<times> accountBackoff) list" where
  "recordFailure sweep now key accounts =
     (let state = (case map_of accounts key of None \<Rightarrow> \<lparr>ab_failures = 0, ab_until = 0\<rparr> | Some s \<Rightarrow> s);
          accounts = (if map_of accounts key = None \<and> length accounts \<ge> MaxTrackedSubjects
                      then evictAccounts sweep accounts else accounts);
          n = ab_failures state + 1
      in if n \<le> FailuresBeforeBackoff then (False, AList.update key (state\<lparr>ab_failures := n\<rparr>) accounts)
         else (let delay = min (seconds (2 ^ min (n - FailuresBeforeBackoff - 1) 16)) MaxAccountBackoff
               in (n = FailuresBeforeBackoff + 1,
                   AList.update key \<lparr>ab_failures = n, ab_until = now + delay\<rparr> accounts)))"

definition sharedRecordFailure :: "SharedStore \<Rightarrow> int \<Rightarrow> go_string \<Rightarrow> bool" where
  "sharedRecordFailure db now presented =
     (case RecordAccountFailure db (sharedAccountSubject presented) now of
        None \<Rightarrow> False | Some failures \<Rightarrow> failures = FailuresBeforeBackoff + 1)"

definition RecordFailure :: "SharedStore \<Rightarrow> int \<Rightarrow> int \<Rightarrow> go_string \<Rightarrow> Limiter \<Rightarrow> bool \<times> Limiter" where
  "RecordFailure db sweep now presented l =
     (if li_shared l \<noteq> None then (sharedRecordFailure db now presented, l)
      else (case recordFailure sweep now (bucketKey presented) (li_accounts l) of
              (crossed, accts) \<Rightarrow> (crossed, l\<lparr>li_accounts := accts\<rparr>)))"

definition recordSuccess :: "subjectKey \<Rightarrow> (subjectKey \<times> accountBackoff) list \<Rightarrow> (subjectKey \<times> accountBackoff) list" where
  "recordSuccess key accounts = AList.delete key accounts"

definition RecordSuccess :: "go_string \<Rightarrow> Limiter \<Rightarrow> Limiter" where
  "RecordSuccess presented l =
     (if li_shared l \<noteq> None then l
      else l\<lparr>li_accounts := recordSuccess (bucketKey presented) (li_accounts l)\<rparr>)"

section \<open>The semaphore\<close>

definition enqueue :: "Limiter \<Rightarrow> bool \<times> Limiter" where
  "enqueue l = (if li_waiting l \<ge> QueueDepth then (False, l) else (True, l\<lparr>li_waiting := li_waiting l + 1\<rparr>))"

definition dequeue :: "Limiter \<Rightarrow> Limiter" where
  "dequeue l = l\<lparr>li_waiting := li_waiting l - 1\<rparr>"

record Snapshot =
  sn_ConcurrencyLimit :: nat
  sn_InFlight :: nat
  sn_QueueDepthLimit :: nat
  sn_Waiting :: nat
  sn_ActiveBackoffs :: nat

definition take_snapshot :: "int \<Rightarrow> Limiter \<Rightarrow> Snapshot" where
  "take_snapshot now l =
     \<lparr>sn_ConcurrencyLimit = li_concurrency l, sn_InFlight = li_concurrency l - li_slots l,
      sn_QueueDepthLimit = QueueDepth, sn_Waiting = li_waiting l,
      sn_ActiveBackoffs = length (filter (\<lambda>(_, s). ab_until s > now) (li_accounts l))\<rparr>"

text \<open>
  \<open>Enter\<close> is interleaved with other callers while it waits for a slot. A caller is a number; the
  system is the limiter with the callers inside the \<open>select\<close> and those that hold an admission.
\<close>

record System =
  sy_lim :: Limiter
  sy_waiters :: "nat set"
  sy_holders :: "nat set"

inductive step :: "System \<Rightarrow> System \<Rightarrow> bool" where
  refused_ip: "allowIP db now ip (sy_lim s) = (False, l) \<Longrightarrow> step s (s\<lparr>sy_lim := l\<rparr>)"
| refused_queue: "allowIP db now ip (sy_lim s) = (True, l) \<Longrightarrow> enqueue l = (False, l') \<Longrightarrow>
    step s (s\<lparr>sy_lim := l'\<rparr>)"
| queued: "c \<notin> sy_waiters s \<Longrightarrow> c \<notin> sy_holders s \<Longrightarrow> allowIP db now ip (sy_lim s) = (True, l) \<Longrightarrow>
    enqueue l = (True, l') \<Longrightarrow> step s (s\<lparr>sy_lim := l', sy_waiters := insert c (sy_waiters s)\<rparr>)"
| admitted: "c \<in> sy_waiters s \<Longrightarrow> li_slots (sy_lim s) > 0 \<Longrightarrow>
    step s (s\<lparr>sy_lim := dequeue ((sy_lim s)\<lparr>li_slots := li_slots (sy_lim s) - 1\<rparr>),
      sy_waiters := sy_waiters s - {c}, sy_holders := insert c (sy_holders s)\<rparr>)"
| cancelled: "c \<in> sy_waiters s \<Longrightarrow>
    step s (s\<lparr>sy_lim := dequeue (sy_lim s), sy_waiters := sy_waiters s - {c}\<rparr>)"
| released: "c \<in> sy_holders s \<Longrightarrow>
    step s (s\<lparr>sy_lim := (sy_lim s)\<lparr>li_slots := li_slots (sy_lim s) + 1\<rparr>, sy_holders := sy_holders s - {c}\<rparr>)"
| discovery: "step s (s\<lparr>sy_lim := snd (AllowDiscovery db now ip (sy_lim s))\<rparr>)"
| refresh: "step s (s\<lparr>sy_lim := snd (AllowIssuerRefresh db now ip (sy_lim s))\<rparr>)"
| failed: "step s (s\<lparr>sy_lim := snd (RecordFailure db sweep now ip (sy_lim s))\<rparr>)"
| succeeded: "step s (s\<lparr>sy_lim := RecordSuccess ip (sy_lim s)\<rparr>)"

definition boot :: "Limiter \<Rightarrow> System" where
  "boot l = \<lparr>sy_lim = l, sy_waiters = {}, sy_holders = {}\<rparr>"

section \<open>Generation handoff\<close>

text \<open>The two lock attempts and the comparability of the backend are arguments.\<close>

definition InheritCounters ::
  "bool \<Rightarrow> bool \<Rightarrow> bool \<Rightarrow> Limiter \<Rightarrow> Limiter \<Rightarrow> admission_error + Limiter" where
  "InheritCounters lockedPrevious lockedNew comparable l previous =
     (if \<not> lockedPrevious \<or> \<not> lockedNew then Inl ErrNotQuiescent
      else if li_waiting previous \<noteq> 0 \<or> li_waiting l \<noteq> 0 \<or> li_slots previous \<noteq> li_concurrency previous \<or>
              li_slots l \<noteq> li_concurrency l then Inl ErrNotQuiescent
      else if li_ipHits l \<noteq> [] \<or> li_metaHits l \<noteq> [] \<or> li_issuerRefreshes l \<noteq> [] \<or> li_accounts l \<noteq> []
        then Inl ErrCountersNotEmpty
      else if li_shared l \<noteq> None \<and> (\<not> comparable \<or> li_shared l \<noteq> li_shared previous)
        then Inl ErrSharedBackendChanged
      else Inr (l\<lparr>li_ipHits := li_ipHits previous, li_metaHits := li_metaHits previous,
             li_issuerRefreshes := li_issuerRefreshes previous, li_accounts := li_accounts previous,
             li_shared := li_shared previous\<rparr>))"

section \<open>The instance-wide budget\<close>

lemma New_Inr:
  assumes "New cfg = Inr l"
  shows "1 \<le> li_concurrency l \<and> int (li_concurrency l) \<le> MaxConcurrency \<and>
    int (li_concurrency l) * argonMiB cfg + HeadroomMiB \<le> budgetMiB cfg \<and>
    li_slots l = li_concurrency l \<and> li_waiting l = 0 \<and> li_perIP l \<ge> 1 \<and> li_discoveryPerIP l \<ge> 1 \<and>
    li_ipHits l = [] \<and> li_metaHits l = [] \<and> li_issuerRefreshes l = [] \<and> li_accounts l = []"
proof -
  define m where "m = argonMiB cfg"
  define b where "b = budgetMiB cfg - HeadroomMiB"
  have stated: "cf_ArgonMemoryKiB cfg \<noteq> 0" and fits: "m \<le> b"
    using assms by (auto simp: New_def m_def b_def split: if_splits)
  have "uint (cf_ArgonMemoryKiB cfg) > 0"
    using stated by (simp add: uint_0_iff less_le)
  then have m: "m \<ge> 1" by (simp add: m_def argonMiB_def)
  have ge: "b div m \<ge> 1" using m fits by (simp add: pos_imp_zdiv_pos_iff int_one_le_iff_zero_less)
  have "b div m * m \<le> b" using m by (simp add: minus_mod_eq_div_mult [symmetric])
  moreover have "min MaxConcurrency (b div m) * m \<le> b div m * m"
    using m by (intro mult_right_mono) auto
  ultimately have "max 1 (min MaxConcurrency (b div m)) * m \<le> b"
    using ge by (auto simp: MaxConcurrency_def max_def)
  moreover have "int (li_concurrency l) = max 1 (min MaxConcurrency (b div m))"
    using assms by (auto simp: New_def m_def b_def Let_def split: if_splits)
  ultimately show ?thesis
    using assms ge
    by (auto simp: New_def m_def b_def Let_def MaxConcurrency_def PerIPPerMinute_def MetaPerIPPerMinute_def
        split: if_splits)
qed

definition semaphore_ok :: "nat \<Rightarrow> System \<Rightarrow> bool" where
  "semaphore_ok n s \<longleftrightarrow>
     finite (sy_waiters s) \<and> finite (sy_holders s) \<and> sy_waiters s \<inter> sy_holders s = {} \<and>
     li_concurrency (sy_lim s) = n \<and> li_slots (sy_lim s) + card (sy_holders s) = n \<and>
     li_waiting (sy_lim s) = card (sy_waiters s) \<and> card (sy_waiters s) \<le> QueueDepth"

lemma allowIP_frame:
  "allowIP db now ip l = (ok, l') \<Longrightarrow> li_concurrency l' = li_concurrency l \<and> li_slots l' = li_slots l \<and>
   li_waiting l' = li_waiting l"
  by (auto simp: allowIP_def split: if_splits prod.splits)

lemma counters_frame [simp]:
  "li_concurrency (snd (AllowDiscovery db now ip l)) = li_concurrency l"
  "li_slots (snd (AllowDiscovery db now ip l)) = li_slots l"
  "li_waiting (snd (AllowDiscovery db now ip l)) = li_waiting l"
  "li_concurrency (snd (AllowIssuerRefresh db now ip l)) = li_concurrency l"
  "li_slots (snd (AllowIssuerRefresh db now ip l)) = li_slots l"
  "li_waiting (snd (AllowIssuerRefresh db now ip l)) = li_waiting l"
  "li_concurrency (snd (RecordFailure db sweep now ip l)) = li_concurrency l"
  "li_slots (snd (RecordFailure db sweep now ip l)) = li_slots l"
  "li_waiting (snd (RecordFailure db sweep now ip l)) = li_waiting l"
  "li_concurrency (RecordSuccess ip l) = li_concurrency l"
  "li_slots (RecordSuccess ip l) = li_slots l"
  "li_waiting (RecordSuccess ip l) = li_waiting l"
  by (simp_all add: AllowDiscovery_def AllowIssuerRefresh_def RecordFailure_def RecordSuccess_def split: prod.splits)

lemma step_semaphore: "step s s' \<Longrightarrow> semaphore_ok n s \<Longrightarrow> semaphore_ok n s'"
proof (induction rule: step.induct)
  case (queued c s now ip l l')
  then show ?case
    by (auto simp: semaphore_ok_def enqueue_def split: if_splits dest!: allowIP_frame)
next
  case (admitted c s)
  then have "card (sy_waiters s) > 0" by (auto simp: semaphore_ok_def card_gt_0_iff)
  moreover have "c \<notin> sy_holders s" using admitted by (auto simp: semaphore_ok_def)
  ultimately show ?case
    using admitted by (auto simp: semaphore_ok_def dequeue_def card_Diff_singleton)
next
  case (cancelled c s)
  then have "card (sy_waiters s) > 0" by (auto simp: semaphore_ok_def card_gt_0_iff)
  with cancelled show ?case
    by (auto simp: semaphore_ok_def dequeue_def card_Diff_singleton)
next
  case (released c s)
  then have "card (sy_holders s) > 0" by (auto simp: semaphore_ok_def card_gt_0_iff)
  with released show ?case
    by (auto simp: semaphore_ok_def card_Diff_singleton)
qed (auto simp: semaphore_ok_def enqueue_def split: if_splits dest!: allowIP_frame)

lemma steps_semaphore: "step\<^sup>*\<^sup>* s s' \<Longrightarrow> semaphore_ok n s \<Longrightarrow> semaphore_ok n s'"
  by (induction rule: rtranclp_induct) (auto dest: step_semaphore)

lemma boot_semaphore: "New cfg = Inr l \<Longrightarrow> semaphore_ok (li_concurrency l) (boot l)"
  by (auto dest!: New_Inr simp: boot_def semaphore_ok_def QueueDepth_def)

text \<open>
  C22: however attempts interleave, the admitted password verifications never need more memory than the
  configured budget, headroom included, never number more than \<open>MaxConcurrency\<close>, and at most
  \<open>QueueDepth\<close> callers wait.
\<close>

theorem admission_budget:
  assumes "New cfg = Inr l" "step\<^sup>*\<^sup>* (boot l) s"
  shows "int (card (sy_holders s)) * argonMiB cfg + HeadroomMiB \<le> budgetMiB cfg \<and>
    int (card (sy_holders s)) \<le> MaxConcurrency \<and> card (sy_waiters s) \<le> QueueDepth"
proof -
  have ok: "semaphore_ok (li_concurrency l) s"
    using steps_semaphore [OF assms(2) boot_semaphore [OF assms(1)]] .
  then have "card (sy_holders s) \<le> li_concurrency l" by (auto simp: semaphore_ok_def)
  moreover have "0 \<le> argonMiB cfg"
    unfolding argonMiB_def by (simp add: div_int_pos_iff)
  ultimately have "int (card (sy_holders s)) * argonMiB cfg \<le> int (li_concurrency l) * argonMiB cfg"
    by (simp add: mult_right_mono)
  then show ?thesis
    using ok New_Inr [OF assms(1)] \<open>card (sy_holders s) \<le> _\<close> by (auto simp: semaphore_ok_def)
qed

text \<open>
  C23: the semaphore leaks no slot: from every reachable state, every waiting caller can still be admitted by
  letting holders release, so no interleaving of refusals, cancellations and releases starves the
  instance for good.
\<close>

theorem waiter_can_be_admitted:
  assumes "New cfg = Inr l" "step\<^sup>*\<^sup>* (boot l) s" "c \<in> sy_waiters s"
  shows "\<exists>s'. step\<^sup>*\<^sup>* s s' \<and> c \<in> sy_holders s'"
proof -
  have ok: "semaphore_ok (li_concurrency l) s"
    using steps_semaphore [OF assms(2) boot_semaphore [OF assms(1)]] .
  obtain s1 where s1: "step\<^sup>*\<^sup>* s s1" "li_slots (sy_lim s1) > 0" "c \<in> sy_waiters s1"
  proof (cases "li_slots (sy_lim s)")
    case 0
    then have "sy_holders s \<noteq> {}"
      using ok New_Inr [OF assms(1)] by (auto simp: semaphore_ok_def)
    then obtain h where "h \<in> sy_holders s" by blast
    from step.released [OF this] have "step\<^sup>*\<^sup>* s (s\<lparr>sy_lim := (sy_lim s)
        \<lparr>li_slots := li_slots (sy_lim s) + 1\<rparr>, sy_holders := sy_holders s - {h}\<rparr>)"
      by (rule r_into_rtranclp)
    then show ?thesis using that assms(3) by simp
  next
    case (Suc k)
    then show ?thesis using that [of s] assms(3) by simp
  qed
  note admitted = rtranclp.rtrancl_into_rtrancl [OF s1(1) step.admitted [OF s1(3,2)]]
  show ?thesis by (rule exI, rule conjI, rule admitted) simp
qed

section \<open>Bounded tracking\<close>

definition tracked_ok :: "('k \<times> 'v) list \<Rightarrow> bool" where
  "tracked_ok b \<longleftrightarrow> distinct (map fst b) \<and> length b \<le> MaxTrackedSubjects"

definition windows_ok :: "windows \<Rightarrow> bool" where
  "windows_ok b \<longleftrightarrow> tracked_ok b \<and> [] \<notin> fst ` set b"

lemma length_update:
  "length (AList.update k v b) = (if k \<in> fst ` set b then length b else length b + 1)"
  by (induction b) auto

lemma set_delete_subset: "set (AList.delete k b) \<subseteq> set b"
  by (auto simp: AList.delete_eq)

lemma length_delete_less:
  assumes "k \<in> fst ` set b"
  shows "length (AList.delete k b) < length b"
proof -
  from assms obtain v where "(k, v) \<in> set b" by force
  then show ?thesis unfolding AList.delete_eq by (rule length_filter_less) simp
qed

lemma oldestOf_key:
  "[] \<notin> fst ` set b \<Longrightarrow> \<forall>(k, hits) \<in> set b. hits \<noteq> [] \<Longrightarrow>
   fst (oldestOf b best) = fst best \<or> fst (oldestOf b best) \<in> fst ` set b"
  by (induction b best rule: oldestOf.induct) (auto split: if_splits)

lemma oldestOf_found:
  assumes "[] \<notin> fst ` set b" "\<forall>(k, hits) \<in> set b. hits \<noteq> []" "b \<noteq> []"
  shows "fst (oldestOf b ([], 0)) \<in> fst ` set b"
proof -
  obtain k t ts rest where b: "b = (k, t # ts) # rest"
    using assms(2,3) by (cases b) (auto simp: neq_Nil_conv)
  then show ?thesis
    using oldestOf_key [of rest "(k, t)"] assms(1,2) by auto
qed

lemma evictStale_bounded:
  assumes "windows_ok b"
  shows "windows_ok (evictStale cutoff b) \<and> length (evictStale cutoff b) < MaxTrackedSubjects"
proof -
  define l where "l = filter (\<lambda>(_, hits). live cutoff hits) b"
  have l: "distinct (map fst l)" "[] \<notin> fst ` set l" "length l \<le> MaxTrackedSubjects"
    "\<forall>(k, hits) \<in> set l. hits \<noteq> []"
    using assms unfolding l_def
    by (auto simp: windows_ok_def tracked_ok_def live_def distinct_map_filter intro: order_trans [OF length_filter_le])
  then have keep: "filter (\<lambda>(_, hits). hits \<noteq> []) l = l"
    by (auto simp: filter_id_conv)
  show ?thesis
  proof (cases "length l \<ge> MaxTrackedSubjects")
    case True
    then have "l \<noteq> []" by (auto simp: MaxTrackedSubjects_def)
    then have key: "fst (oldestOf l ([], 0)) \<in> fst ` set l" using oldestOf_found l by blast
    then have "fst (oldestOf l ([], 0)) \<noteq> []" using l(2) by metis
    then have "evictStale cutoff b = AList.delete (fst (oldestOf l ([], 0))) l"
      using True keep by (simp add: evictStale_def l_def [symmetric] Let_def)
    then show ?thesis
      using length_delete_less [OF key] l set_delete_subset [of _ l]
      by (auto simp: windows_ok_def tracked_ok_def AList.distinct_delete)
  next
    case False
    then have "evictStale cutoff b = l" by (simp add: evictStale_def l_def [symmetric] Let_def)
    then show ?thesis using False l by (simp add: windows_ok_def tracked_ok_def)
  qed
qed

lemma update_windows_ok:
  "windows_ok b \<Longrightarrow> ip \<noteq> [] \<Longrightarrow> ip \<in> fst ` set b \<or> length b < MaxTrackedSubjects \<Longrightarrow> windows_ok (AList.update ip v b)"
  by (auto simp: windows_ok_def tracked_ok_def length_update AList.distinct_update AList.dom_update)

lemma hitsOf_tracked: "filter P (hitsOf b ip) \<noteq> [] \<Longrightarrow> ip \<in> fst ` set b"
  by (auto simp: hitsOf_def split: option.splits dest!: map_of_SomeD) (metis fst_conv image_eqI)

lemma allowIPIn_bounded:
  assumes "windows_ok b" "allowance \<ge> 1"
  shows "windows_ok (snd (allowIPIn now ip allowance b))"
proof -
  let ?kept = "filter (\<lambda>t. t > now - seconds 60) (hitsOf b ip)"
  consider "ip = []" | "ip \<noteq> []" "int (length ?kept) \<ge> allowance"
    | "ip \<noteq> []" "int (length ?kept) < allowance" "?kept = [] \<and> length b \<ge> MaxTrackedSubjects"
    | "ip \<noteq> []" "int (length ?kept) < allowance" "?kept \<noteq> [] \<or> length b < MaxTrackedSubjects"
    by linarith
  then show ?thesis
  proof cases
    case 2
    then have "?kept \<noteq> []" using assms(2) by auto
    then show ?thesis
      using 2 assms(1) update_windows_ok hitsOf_tracked by (auto simp: allowIPIn_def Let_def)
  next
    case 3
    then show ?thesis
      using evictStale_bounded [OF assms(1)] update_windows_ok by (auto simp: allowIPIn_def Let_def)
  next
    case 4
    then have "ip \<in> fst ` set b \<or> length b < MaxTrackedSubjects" using hitsOf_tracked by blast
    then show ?thesis
      using 4 assms(1) update_windows_ok by (auto simp: allowIPIn_def Let_def)
  qed (use assms in \<open>auto simp: allowIPIn_def\<close>)
qed

lemma soonestOf_key:
  "soonestOf b best = Some (k, u) \<Longrightarrow> k \<in> fst ` set b \<or> best = Some (k, u)"
  by (induction b best rule: soonestOf.induct) (auto split: option.splits if_splits prod.splits)

lemma soonestOf_found: "b \<noteq> [] \<or> best \<noteq> None \<Longrightarrow> soonestOf b best \<noteq> None"
  by (induction b best rule: soonestOf.induct) (auto split: option.splits)

lemma evictAccounts_bounded:
  assumes "tracked_ok accts"
  shows "tracked_ok (evictAccounts now accts) \<and> length (evictAccounts now accts) < MaxTrackedSubjects"
proof -
  define l where "l = filter (\<lambda>(_, s). ab_until s > now) accts"
  have l: "distinct (map fst l)" "length l \<le> MaxTrackedSubjects"
    using assms unfolding l_def
    by (auto simp: tracked_ok_def distinct_map_filter intro: order_trans [OF length_filter_le])
  show ?thesis
  proof (cases "length l < MaxTrackedSubjects")
    case True
    then show ?thesis using l by (simp add: evictAccounts_def l_def [symmetric] Let_def tracked_ok_def)
  next
    case False
    then have "l \<noteq> []" by (auto simp: MaxTrackedSubjects_def)
    then obtain k u where ku: "soonestOf l None = Some (k, u)" using soonestOf_found [of l None] by auto
    then have "k \<in> fst ` set l" using soonestOf_key [of l None k u] by simp
    then show ?thesis
      using False ku l length_delete_less [of k l] set_delete_subset [of k l]
      by (auto simp: evictAccounts_def l_def [symmetric] Let_def tracked_ok_def AList.distinct_delete)
  qed
qed

lemma recordFailure_bounded:
  assumes "tracked_ok accts"
  shows "tracked_ok (snd (recordFailure sweep now key accts))"
proof -
  have upd: "tracked_ok (AList.update key v b)"
    if "tracked_ok b" "key \<in> fst ` set b \<or> length b < MaxTrackedSubjects" for v and b :: "(subjectKey \<times> accountBackoff) list"
    using that by (auto simp: tracked_ok_def length_update AList.distinct_update)
  let ?b = "if map_of accts key = None \<and> length accts \<ge> MaxTrackedSubjects then evictAccounts sweep accts else accts"
  have "tracked_ok ?b \<and> (key \<in> fst ` set ?b \<or> length ?b < MaxTrackedSubjects)"
    using assms evictAccounts_bounded [OF assms] by (auto simp: map_of_eq_None_iff not_le)
  then have "tracked_ok (AList.update key v ?b)" for v using upd by blast
  then show ?thesis
    unfolding recordFailure_def Let_def by simp
qed

definition counters_ok :: "System \<Rightarrow> bool" where
  "counters_ok s \<longleftrightarrow> li_perIP (sy_lim s) \<ge> 1 \<and> li_discoveryPerIP (sy_lim s) \<ge> 1 \<and>
     windows_ok (li_ipHits (sy_lim s)) \<and> windows_ok (li_metaHits (sy_lim s)) \<and>
     windows_ok (li_issuerRefreshes (sy_lim s)) \<and> tracked_ok (li_accounts (sy_lim s))"

definition lim_ok :: "Limiter \<Rightarrow> bool" where
  "lim_ok l \<longleftrightarrow> counters_ok (boot l)"

lemma counters_lim: "counters_ok s \<longleftrightarrow> lim_ok (sy_lim s)"
  by (simp add: lim_ok_def counters_ok_def boot_def)

lemma ops_lim_ok:
  assumes "lim_ok l"
  shows "allowIP db now ip l = (ok, l') \<Longrightarrow> lim_ok l'" "lim_ok (snd (AllowDiscovery db now ip l))"
    "lim_ok (snd (AllowIssuerRefresh db now ip l))" "lim_ok (snd (RecordFailure db sweep now ip l))"
    "lim_ok (RecordSuccess ip l)" "enqueue l = (ok, l') \<Longrightarrow> lim_ok l'" "lim_ok (dequeue l)"
    "lim_ok (l\<lparr>li_slots := n\<rparr>)"
proof -
  note d = lim_ok_def counters_ok_def boot_def
  have p: "li_perIP l \<ge> 1" "li_discoveryPerIP l \<ge> 1" "windows_ok (li_ipHits l)" "windows_ok (li_metaHits l)"
    "windows_ok (li_issuerRefreshes l)" "tracked_ok (li_accounts l)"
    using assms by (simp_all add: d)
  show "lim_ok l'" if "allowIP db now ip l = (ok, l')"
    using that p allowIPIn_bounded [OF p(3,1), of now ip]
    by (auto simp: allowIP_def d split: if_splits prod.splits)
  show "lim_ok (snd (AllowDiscovery db now ip l))"
    using p allowIPIn_bounded [OF p(4,2), of now ip] by (auto simp: AllowDiscovery_def d split: prod.splits)
  show "lim_ok (snd (AllowIssuerRefresh db now ip l))"
    using p allowIPIn_bounded [OF p(5), of IssuerRefreshPerMinute now ip]
    by (auto simp: AllowIssuerRefresh_def IssuerRefreshPerMinute_def d split: prod.splits)
  show "lim_ok (snd (RecordFailure db sweep now ip l))"
    using p recordFailure_bounded [OF p(6), of sweep now "bucketKey ip"]
    by (auto simp: RecordFailure_def d split: prod.splits)
  show "lim_ok (RecordSuccess ip l)"
    using p length_filter_le [of _ "li_accounts l"]
    by (auto simp: RecordSuccess_def recordSuccess_def d tracked_ok_def AList.distinct_delete)
       (auto simp: AList.delete_eq intro: order_trans [OF length_filter_le])
  show "lim_ok l'" if "enqueue l = (ok, l')" using that p by (auto simp: enqueue_def d split: if_splits)
  show "lim_ok (dequeue l)" "lim_ok (l\<lparr>li_slots := n\<rparr>)" using p by (auto simp: dequeue_def d)
qed

lemma step_counters: "step s s' \<Longrightarrow> counters_ok s \<Longrightarrow> counters_ok s'"
  unfolding counters_lim
  by (induction rule: step.induct) (auto intro: ops_lim_ok)

text \<open>
  The throttle never becomes a memory leak: in every reachable state each of the four attacker-keyed
  tables remembers at most \<open>MaxTrackedSubjects\<close> subjects, and each subject once.
\<close>

theorem tracking_bounded:
  assumes "New cfg = Inr l" "step\<^sup>*\<^sup>* (boot l) s"
  shows "tracked_ok (li_ipHits (sy_lim s)) \<and> tracked_ok (li_metaHits (sy_lim s)) \<and>
    tracked_ok (li_issuerRefreshes (sy_lim s)) \<and> tracked_ok (li_accounts (sy_lim s))"
proof -
  have "counters_ok (boot l)"
    using New_Inr [OF assms(1)]
    by (simp add: counters_ok_def boot_def windows_ok_def tracked_ok_def)
  with assms(2) have "counters_ok s"
    by (induction rule: rtranclp_induct) (auto dest: step_counters)
  then show ?thesis by (simp add: counters_ok_def windows_ok_def)
qed

section \<open>The per-source allowance\<close>

text \<open>The admitted attempts of a sequence of timed attempts on one bucket table.\<close>

fun admittedOf :: "int \<Rightarrow> (int \<times> go_string) list \<Rightarrow> windows \<Rightarrow> (int \<times> go_string) list" where
  "admittedOf allowance [] b = []"
| "admittedOf allowance ((t, ip) # rest) b =
     (case allowIPIn t ip allowance b of
        (ok, b') \<Rightarrow> (if ok then [(t, ip)] else []) @ admittedOf allowance rest b')"

definition in_window :: "int \<Rightarrow> int list \<Rightarrow> int list" where
  "in_window s hist = filter (\<lambda>t. s - seconds 60 < t \<and> t \<le> s) hist"

definition remembers :: "int \<Rightarrow> int list \<Rightarrow> int list \<Rightarrow> bool" where
  "remembers lo hist hits \<longleftrightarrow> (\<forall>c \<ge> lo - seconds 60. filter (\<lambda>t. t > c) hist = filter (\<lambda>t. t > c) hits)"

lemma in_window_snoc:
  assumes "int (length (in_window s hist)) \<le> a" "int (length (filter (\<lambda>u. u > t - seconds 60) hist)) < a"
  shows "int (length (in_window s (hist @ [t]))) \<le> a"
proof (cases "s - seconds 60 < t \<and> t \<le> s")
  case True
  then have "length (in_window s hist) \<le> length (filter (\<lambda>u. u > t - seconds 60) hist)"
    unfolding in_window_def by (induction hist) auto
  with True assms(2) show ?thesis by (auto simp: in_window_def)
next
  case False
  then have "in_window s (hist @ [t]) = in_window s hist" by (simp add: in_window_def)
  with assms(1) show ?thesis by simp
qed

lemma hitsOf_update: "hitsOf (AList.update k v b) ip = (if k = ip then v else hitsOf b ip)"
  by (simp add: hitsOf_def AList.update_conv')

lemma allowIPIn_small:
  assumes "length b < MaxTrackedSubjects" "i \<noteq> []"
  shows "allowIPIn t i a b =
    (let kept = filter (\<lambda>u. u > t - seconds 60) (hitsOf b i) in
     if int (length kept) \<ge> a then (False, AList.update i kept b) else (True, AList.update i (kept @ [t]) b))"
  using assms by (simp add: allowIPIn_def Let_def)

lemma small_bucket:
  "distinct (map fst b) \<Longrightarrow> fst ` set b \<subseteq> K \<Longrightarrow> finite K \<Longrightarrow> card K < MaxTrackedSubjects \<Longrightarrow> length b < MaxTrackedSubjects"
  by (metis card_mono distinct_card le_less_trans length_map set_map)

lemma window_run:
  assumes "sorted (lo # map fst as)" "remembers lo hist (hitsOf b ip)" "ip \<noteq> []"
    "\<And>s. int (length (in_window s hist)) \<le> a" "distinct (map fst b)"
    "fst ` set b \<subseteq> K" "snd ` set as \<subseteq> K" "finite K" "card K < MaxTrackedSubjects"
  shows "int (length (in_window s (hist @ map fst (filter (\<lambda>x. snd x = ip) (admittedOf a as b))))) \<le> a"
  using assms
proof (induction "as" arbitrary: lo hist b)
  case (Cons x as)
  obtain t i where x: "x = (t, i)" by (cases x)
  obtain ok b' where run: "allowIPIn t i a b = (ok, b')" by (cases "allowIPIn t i a b")
  have small: "length b < MaxTrackedSubjects" using small_bucket Cons.prems by blast
  let ?kept = "filter (\<lambda>u. u > t - seconds 60) (hitsOf b i)"
  have lo: "lo \<le> t" and sorted: "sorted (t # map fst as)" using Cons.prems(1) x by auto
  have b': "distinct (map fst b')" "fst ` set b' \<subseteq> K"
    using run allowIPIn_small [OF small, of i t a] Cons.prems(5,6,7) x
    by (cases "i = []"; auto simp: allowIPIn_def Let_def AList.distinct_update AList.dom_update split: if_splits)+
  let ?hist = "hist @ (if ok \<and> i = ip then [t] else [])"
  have key: "remembers t ?hist (hitsOf b' ip) \<and> (\<forall>s. int (length (in_window s ?hist)) \<le> a)"
  proof (cases "i = ip")
    case True
    have kept: "?kept = filter (\<lambda>u. u > t - seconds 60) hist"
      using Cons.prems(2) lo True by (simp add: remembers_def)
    have rem: "remembers t hist ?kept"
      unfolding kept by (auto simp: remembers_def intro!: filter_cong)
    have step: "ok = (int (length ?kept) < a)" "hitsOf b' ip = (if ok then ?kept @ [t] else ?kept)"
      using run allowIPIn_small [OF small, of i t a] True Cons.prems(3)
      by (auto simp: Let_def hitsOf_update split: if_splits)
    show ?thesis
    proof (cases ok)
      case ok: True
      then have "int (length (filter (\<lambda>u. u > t - seconds 60) hist)) < a" using step(1) kept by simp
      then have "int (length (in_window s (hist @ [t]))) \<le> a" for s
        by (intro in_window_snoc Cons.prems(4))
      then show ?thesis using ok True step(2) rem by (simp add: remembers_def)
    next
      case False
      then show ?thesis using step(2) rem Cons.prems(4) by simp
    qed
  next
    case False
    then have "hitsOf b' ip = hitsOf b ip"
      using run allowIPIn_small [OF small, of i t a]
      by (cases "i = []") (auto simp: allowIPIn_def Let_def hitsOf_update split: if_splits)
    then show ?thesis using False Cons.prems(2,4) lo by (auto simp: remembers_def)
  qed
  have "map fst (filter (\<lambda>x. snd x = ip) (admittedOf a (x # as) b)) =
      (if ok \<and> i = ip then [t] else []) @ map fst (filter (\<lambda>x. snd x = ip) (admittedOf a as b'))"
    using run x by auto
  then show ?case
    using Cons.IH [OF sorted _ Cons.prems(3) _ b' _ Cons.prems(8,9), of ?hist] key Cons.prems(7) by simp
qed (simp add: in_window_def)

text \<open>
  C24: a sliding minute in the process-local bucket: while fewer than \<open>MaxTrackedSubjects\<close> sources are seen, so
  that none is evicted, and the clock does not run backwards, no window of sixty seconds ever contains more
  admitted attempts of one source with a non-empty address than its allowance.
\<close>

theorem sliding_window:
  assumes "sorted (map fst as)" "card (snd ` set as) < MaxTrackedSubjects" "ip \<noteq> []" "a \<ge> 0"
  shows "int (length (in_window s (map fst (filter (\<lambda>x. snd x = ip) (admittedOf a as []))))) \<le> a"
proof (cases "as")
  case (Cons x rest)
  have "int (length (in_window s ([] @ map fst (filter (\<lambda>x. snd x = ip) (admittedOf a as []))))) \<le> a"
    using assms Cons
    by (intro window_run [where lo = "fst x" and K = "snd ` set as"])
       (auto simp: remembers_def hitsOf_def in_window_def)
  then show ?thesis by simp
qed (use assms in \<open>simp add: in_window_def\<close>)

theorem sliding_window_witness:
  "int (length (in_window 9 (map fst (filter (\<lambda>x. snd x = ''10.0.0.1'')
     (admittedOf 2 [(1, ''10.0.0.1''), (2, ''10.0.0.1''), (3, ''10.0.0.1'')] []))))) \<le> 2"
  by (rule sliding_window) (simp_all add: MaxTrackedSubjects_def)

section \<open>What the account backoff needs of a shared table\<close>

text \<open>
  A shared table keeps, per subject, the number of consecutive failures and the instant of the last
  one, where the process-local table keeps a deadline. \<open>stored\<close> is the local entry that a shared
  row stands for.
\<close>

definition stored :: "(nat \<times> int) option \<Rightarrow> accountBackoff option" where
  "stored st = map_option (\<lambda>(n, t). \<lparr>ab_failures = n,
     ab_until = (if n \<le> FailuresBeforeBackoff then 0 else t + backoffDelay n)\<rparr>) st"

definition accounts_refine ::
  "(subjectKey \<times> accountBackoff) list \<Rightarrow> (go_string \<Rightarrow> (nat \<times> int) option) \<Rightarrow> bool" where
  "accounts_refine accts sh \<longleftrightarrow> (\<forall>key. map_of accts key = stored (sh (hex_EncodeToString key)))"

text \<open>No recorded instant is later than \<open>t\<close>.\<close>

definition latest :: "int \<Rightarrow> (go_string \<Rightarrow> (nat \<times> int) option) \<Rightarrow> bool" where
  "latest t sh \<longleftrightarrow> (\<forall>k n u. sh k = Some (n, u) \<longrightarrow> 0 < u \<and> u \<le> t)"

lemma latestD: "latest t sh \<Longrightarrow> sh k = Some (n, u) \<Longrightarrow> 0 < u \<and> u \<le> t"
  unfolding latest_def by blast

lemma latestI: "(\<And>k n u. sh k = Some (n, u) \<Longrightarrow> 0 < u \<and> u \<le> t) \<Longrightarrow> latest t sh"
  unfolding latest_def by blast

lemma latest_mono: "latest t sh \<Longrightarrow> t \<le> t' \<Longrightarrow> latest t' sh"
  unfolding latest_def by (meson order_trans)

lemma recordFailure_small:
  "length accts < MaxTrackedSubjects \<Longrightarrow> map_of accts key = stored st \<Longrightarrow>
   n = (case st of None \<Rightarrow> 1 | Some (m, _) \<Rightarrow> m + 1) \<Longrightarrow>
   \<exists>a. recordFailure t t key accts = (n = FailuresBeforeBackoff + 1, AList.update key a accts) \<and>
     Some a = stored (Some (n, t))"
  by (auto simp: recordFailure_def Let_def stored_def backoffDelay_def FailuresBeforeBackoff_def split: option.splits)

lemma backoffDelay_bounds: "0 \<le> backoffDelay n \<and> backoffDelay n \<le> MaxAccountBackoff"
  by (auto simp: backoffDelay_def MaxAccountBackoff_def)

lemma stored_delay:
  assumes "map_of accts key = stored (sh k)" "latest now sh"
  shows "accountDelay now key accts =
      (case sh k of None \<Rightarrow> 0 | Some (n, t) \<Rightarrow> max 0 (t + backoffDelay n - now)) \<and>
    accountDelay now key accts \<le> MaxAccountBackoff"
proof (cases "sh k")
  case None
  then show ?thesis
    using assms(1) by (simp add: accountDelay_def stored_def MaxAccountBackoff_def)
next
  case (Some st)
  obtain n t where st: "st = (n, t)" by (cases st)
  then have "0 < t" "t \<le> now" using latestD [OF assms(2)] Some by auto
  then show ?thesis
    using assms(1) Some st backoffDelay_bounds [of n]
    by (auto simp: accountDelay_def stored_def backoffDelay_def MaxAccountBackoff_def)
qed

locale account_counters =
  fixes invar :: "'s \<Rightarrow> bool"
    and failure_state :: "'s \<Rightarrow> go_string \<Rightarrow> (nat \<times> int) option"
    and record_failure :: "go_string \<Rightarrow> int \<Rightarrow> 's \<Rightarrow> nat \<times> 's"
    and clear_account :: "go_string \<Rightarrow> 's \<Rightarrow> 's"
  assumes record_count:
      "fst (record_failure k t s) = (case failure_state s k of None \<Rightarrow> 1 | Some (n, _) \<Rightarrow> n + 1)"
    and record_state:
      "invar s \<Longrightarrow> failure_state (snd (record_failure k t s)) k' =
        (if k' = k then Some (fst (record_failure k t s),
           case failure_state s k of None \<Rightarrow> t | Some (_, u) \<Rightarrow> max u t)
         else failure_state s k')"
    and clear_state: "failure_state (clear_account k s) k' = (if k' = k then None else failure_state s k')"
    and record_invar: "invar s \<Longrightarrow> invar (snd (record_failure k t s))"
    and clear_invar: "invar s \<Longrightarrow> invar (clear_account k s)"
begin

lemma record_refines:
  assumes "invar s" "accounts_refine accts (failure_state s)" "length accts < MaxTrackedSubjects"
    "latest t (failure_state s)"
  shows "fst (recordFailure t t key accts) =
      (fst (record_failure (hex_EncodeToString key) t s) = FailuresBeforeBackoff + 1) \<and>
    accounts_refine (snd (recordFailure t t key accts))
      (failure_state (snd (record_failure (hex_EncodeToString key) t s)))"
proof -
  let ?k = "hex_EncodeToString key"
  have last: "(case failure_state s ?k of None \<Rightarrow> t | Some (_, u) \<Rightarrow> max u t) = t"
    using assms(4) by (auto simp: max_def split: option.splits dest: latestD)
  obtain a where "recordFailure t t key accts =
      (fst (record_failure ?k t s) = FailuresBeforeBackoff + 1, AList.update key a accts)"
    "Some a = stored (Some (fst (record_failure ?k t s), t))"
    using recordFailure_small [OF assms(3) _ record_count] assms(2) unfolding accounts_refine_def by blast
  then show ?thesis
    using assms(2) last by (auto simp: accounts_refine_def record_state [OF assms(1)] AList.update_conv' hex_inj)
qed

lemma clear_refines:
  "accounts_refine accts (failure_state s) \<Longrightarrow>
   accounts_refine (recordSuccess key accts) (failure_state (clear_account (hex_EncodeToString key) s))"
  by (auto simp: accounts_refine_def recordSuccess_def AList.delete_conv' clear_state hex_inj stored_def)

lemma record_latest:
  "invar s \<Longrightarrow> latest t (failure_state s) \<Longrightarrow> 0 < t \<Longrightarrow> latest t (failure_state (snd (record_failure k t s)))"
  by (rule latestI) (auto simp: record_state split: option.splits if_splits dest: latestD)

lemma clear_latest: "latest t (failure_state s) \<Longrightarrow> latest t (failure_state (clear_account k s))"
  by (rule latestI) (auto simp: clear_state split: if_splits dest: latestD)

end

definition sample_config :: Config where
  "sample_config = \<lparr>cf_BudgetMiB = 0, cf_ArgonMemoryKiB = 65536, cf_PerIPPerMinute = 0\<rparr>"

definition sample_limiter :: Limiter where
  "sample_limiter = \<lparr>li_concurrency = 4, li_perIP = 10, li_discoveryPerIP = 60, li_slots = 4, li_shared = None,
     li_waiting = 0, li_ipHits = [], li_metaHits = [], li_issuerRefreshes = [], li_accounts = []\<rparr>"

lemma sample_New: "New sample_config = Inr sample_limiter"
  by (simp add: New_def sample_config_def sample_limiter_def budgetMiB_def argonMiB_def DefaultBudgetMiB_def
      HeadroomMiB_def MaxConcurrency_def PerIPPerMinute_def MetaPerIPPerMinute_def)

definition sample_db :: SharedStore where
  "sample_db = \<lparr>BumpWindow = \<lambda>_ _ _. None, AccountFailureState = \<lambda>_. None, RecordAccountFailure = \<lambda>_ _. None\<rparr>"

definition sample_waiting :: System where
  "sample_waiting = \<lparr>sy_lim = sample_limiter\<lparr>li_waiting := 1\<rparr>, sy_waiters = {0}, sy_holders = {}\<rparr>"

lemma sample_queued: "step\<^sup>*\<^sup>* (boot sample_limiter) sample_waiting"
proof (rule r_into_rtranclp)
  show "step (boot sample_limiter) sample_waiting"
    using step.queued [of 0 "boot sample_limiter" sample_db 1 "[]" sample_limiter "sample_limiter\<lparr>li_waiting := 1\<rparr>"]
    by (simp add: boot_def allowIP_def allowIPIn_def sample_limiter_def sample_waiting_def enqueue_def QueueDepth_def)
qed

theorem admission_budget_witness:
  "card (sy_waiters sample_waiting) = 1 \<and> card (sy_waiters sample_waiting) \<le> QueueDepth"
  using admission_budget [OF sample_New sample_queued] by (simp add: sample_waiting_def)

theorem waiter_can_be_admitted_witness:
  "\<exists>s'. step\<^sup>*\<^sup>* sample_waiting s' \<and> 0 \<in> sy_holders s'"
  by (rule waiter_can_be_admitted [OF sample_New sample_queued]) (simp add: sample_waiting_def)

theorem tracking_bounded_witness:
  "length (li_ipHits (sy_lim sample_waiting)) \<le> MaxTrackedSubjects"
  using tracking_bounded [OF sample_New sample_queued] by (simp add: tracked_ok_def)


end
