(* ===== verification/Coordination.thy ===== *)
theory Coordination
  imports Admission
begin

text \<open>
  \<open>internal/store/coordination*.go\<close>: the installation-wide coordination tables of a multi-node
  deployment. A table is an association list on its primary key, an SQL statement the operation it
  performs on that list. Both engines run the same statements; where they differ the engine decides.
  An instant is a number of nanoseconds that SQL has rounded to its column's precision (the fixed-width
  stamps of SQLite order like the instants they write). Every statement runs in a transaction, and
  transactions of this surface are serialized by their row or advisory locks, so each operation is one
  atomic state change; how its transaction ended is the argument of type \<open>commit\<close>. What the
  self-configuration tables say about the topology is an argument.
\<close>

datatype Engine = EnginePostgres | EngineSQLite

datatype coord_error =
  ErrConflict | ErrMCPAdmissionLimited | ErrInvalidClaim | ErrEmptyCallID | ErrMixedRootKey
| ErrSingletonLeaseLost | ErrInvalidAttestation | ErrDatastore

record lease =
  ls_owner :: go_string
  ls_fence :: int
  ls_acquired :: int
  ls_expires :: int

record HANode =
  hn_NodeID :: go_string
  hn_BinaryVersion :: go_string
  hn_SchemaVersion :: int
  hn_RootKeyFingerprint :: go_string
  hn_StartedAt :: int
  hn_HeartbeatAt :: int

record counter =
  cr_hits :: int
  cr_failures :: nat
  cr_until :: "int option"

record mcp_claim =
  mc_principal :: go_string
  mc_org :: go_string
  mc_expires :: int

record seed_attestation =
  sa_schemaVersion :: int
  sa_fingerprint :: go_string
  sa_heartbeat :: int

record coordination =
  co_leases :: "(go_string \<times> lease) list"
  co_nodes :: "(go_string \<times> HANode) list"
  co_counters :: "((go_string \<times> go_string \<times> int) \<times> counter) list"
  co_inflight :: "(go_string \<times> mcp_claim) list"
  co_rates :: "(go_string \<times> int) list"
  co_seeds :: "(go_string \<times> seed_attestation) list"

record coordinationQueries =
  cq_engine :: Engine
  cq_runtimeNodeID :: go_string
  cq_runtimeTemplateStamp :: go_string

record topologyAssignment =
  ta_HA :: bool
  ta_NodeID :: go_string
  ta_Stamp :: go_string
  ta_Restoring :: bool

type_synonym topology = "coord_error + topologyAssignment option"
type_synonym 'a coord_op = "coordination \<Rightarrow> (coord_error + 'a) \<times> coordination"

text \<open>The zero time is year 1; the sentinel window is the Unix epoch.\<close>

definition accountWindow :: int where "accountWindow = seconds 62135596800"
definition AccountBucket :: go_string where "AccountBucket = ''account''"
definition IPBucket :: go_string where "IPBucket = ''ip''"
definition MetaBucket :: go_string where "MetaBucket = ''meta''"
definition IssuerBucket :: go_string where "IssuerBucket = ''issuer''"
definition MCPRateCapacity :: int where "MCPRateCapacity = 20"
definition MCPRateRefillInterval :: int where "MCPRateRefillInterval = seconds 1"
definition MCPPrincipalLimit :: nat where "MCPPrincipalLimit = 4"
definition MCPOrganizationLimit :: nat where "MCPOrganizationLimit = 8"
definition MCPInstanceLimit :: nat where "MCPInstanceLimit = 64"

section \<open>Transactions\<close>

text \<open>
  \<open>NotBegun\<close>: the transaction could not begin or lost its connection in a statement; \<open>RolledBack\<close>:
  the commit failed; \<open>ReplyLost\<close>: it committed but the caller sees an error.
\<close>

datatype commit = Committed | NotBegun | RolledBack | ReplyLost

definition transaction :: "commit \<Rightarrow> 'a coord_op \<Rightarrow> 'a coord_op" where
  "transaction out fn c =
     (if out = NotBegun then (Inl ErrDatastore, c)
      else (case fn c of
              (Inl e, _) \<Rightarrow> (Inl e, c)
            | (Inr v, c') \<Rightarrow>
                (if out = Committed then (Inr v, c')
                 else if out = RolledBack then (Inl ErrDatastore, c)
                 else (Inl ErrDatastore, c'))))"

lemma transaction_state:
  "snd (transaction out fn c) =
     (if (out = Committed \<or> out = ReplyLost) \<and> (\<exists>v. fst (fn c) = Inr v) then snd (fn c) else c)"
  by (cases out; cases "fst (fn c)") (auto simp: transaction_def split: prod.split)

lemma transaction_commit:
  "out = Committed \<or> out = ReplyLost \<Longrightarrow> fn c = (Inr v, c') \<Longrightarrow> snd (transaction out fn c) = c'"
  by (auto simp: transaction_def)

lemma transaction_abort: "\<not> (out = Committed \<or> out = ReplyLost) \<Longrightarrow> snd (transaction out fn c) = c"
  by (simp add: transaction_state)

lemma transaction_frame: "snd (fn c) = c \<Longrightarrow> snd (transaction out fn c) = c"
  by (simp add: transaction_state)

lemma transaction_Inr:
  "fst (transaction out fn c) = Inr v \<longleftrightarrow> out = Committed \<and> fst (fn c) = Inr v"
  by (cases out; cases "fst (fn c)") (auto simp: transaction_def split: prod.split)

section \<open>Singleton lease\<close>

definition topologyLeaseAllowed ::
  "coordinationQueries \<Rightarrow> topology \<Rightarrow> go_string \<Rightarrow> coord_error option" where
  "topologyLeaseAllowed q topo nodeID =
     (case topo of
        Inl e \<Rightarrow> Some e
      | Inr None \<Rightarrow> None
      | Inr (Some a) \<Rightarrow>
          (if ta_Restoring a \<or> \<not> ta_HA a \<or> ta_NodeID a \<noteq> nodeID \<or> cq_runtimeNodeID q \<noteq> nodeID \<or>
              cq_runtimeTemplateStamp q \<noteq> ta_Stamp a
           then Some ErrConflict else None))"

definition leaseRefused :: "coordinationQueries \<Rightarrow> topology \<Rightarrow> go_string \<Rightarrow> go_string \<Rightarrow> coord_error option" where
  "leaseRefused q topo name owner =
     (if name = ''scheduler'' then topologyLeaseAllowed q topo owner else None)"

definition tx_ClaimLease ::
  "coordinationQueries \<Rightarrow> topology \<Rightarrow> go_string \<Rightarrow> go_string \<Rightarrow> int \<Rightarrow> int \<Rightarrow> (int \<times> bool) coord_op" where
  "tx_ClaimLease q topo name owner now expires c =
     (case leaseRefused q topo name owner of
        Some e \<Rightarrow> (Inl e, c)
      | None \<Rightarrow>
          (let put = (\<lambda>fence. c\<lparr>co_leases := AList.update name
                 \<lparr>ls_owner = owner, ls_fence = fence, ls_acquired = now, ls_expires = expires\<rparr> (co_leases c)\<rparr>)
           in case map_of (co_leases c) name of
                None \<Rightarrow> (Inr (1, True), put 1)
              | Some l \<Rightarrow>
                  (if ls_expires l \<le> now then (Inr (ls_fence l + 1, True), put (ls_fence l + 1))
                   else (Inr (0, False), c))))"

definition tx_RenewLease ::
  "coordinationQueries \<Rightarrow> topology \<Rightarrow> go_string \<Rightarrow> go_string \<Rightarrow> int \<Rightarrow> int \<Rightarrow> int \<Rightarrow> bool coord_op" where
  "tx_RenewLease q topo name owner fence now expires c =
     (case leaseRefused q topo name owner of
        Some e \<Rightarrow> (Inl e, c)
      | None \<Rightarrow>
          (case map_of (co_leases c) name of
             None \<Rightarrow> (Inr False, c)
           | Some l \<Rightarrow>
               (if ls_owner l = owner \<and> ls_fence l = fence \<and> ls_expires l > now
                then (Inr True, c\<lparr>co_leases := AList.update name (l\<lparr>ls_expires := expires\<rparr>) (co_leases c)\<rparr>)
                else (Inr False, c))))"

definition tx_ReleaseLease :: "go_string \<Rightarrow> go_string \<Rightarrow> int \<Rightarrow> unit coord_op" where
  "tx_ReleaseLease name owner fence c =
     (case map_of (co_leases c) name of
        None \<Rightarrow> (Inr (), c)
      | Some l \<Rightarrow>
          (if ls_owner l = owner \<and> ls_fence l = fence
           then (Inr (), c\<lparr>co_leases := AList.update name (l\<lparr>ls_expires := accountWindow\<rparr>) (co_leases c)\<rparr>)
           else (Inr (), c)))"

text \<open>\<open>LeaseHolder\<close> gives the owner, the acquisition instant and whether the lease is live.\<close>

definition tx_LeaseHolder :: "go_string \<Rightarrow> int \<Rightarrow> coordination \<Rightarrow> go_string \<times> int \<times> bool" where
  "tx_LeaseHolder name now c =
     (case map_of (co_leases c) name of
        None \<Rightarrow> ([], 0, False)
      | Some l \<Rightarrow> (ls_owner l, ls_acquired l, ls_expires l > now))"

text \<open>A failed commit may leave \<open>ClaimLease\<close> with a provisional fence beside its error.\<close>

definition Coordination_ClaimLease ::
  "commit \<Rightarrow> coordinationQueries \<Rightarrow> topology \<Rightarrow> go_string \<Rightarrow> go_string \<Rightarrow> int \<Rightarrow> int \<Rightarrow> coordination \<Rightarrow>
   (int \<times> bool \<times> coord_error option) \<times> coordination" where
  "Coordination_ClaimLease out q topo name owner now expires c =
     (case transaction out (tx_ClaimLease q topo name owner now expires) c of
        (Inr (fence, held), c') \<Rightarrow> ((fence, held, None), c')
      | (Inl e, c') \<Rightarrow>
          ((if out = NotBegun then 0
            else (case fst (tx_ClaimLease q topo name owner now expires c) of Inl _ \<Rightarrow> 0 | Inr (fence, _) \<Rightarrow> fence),
            False, Some e), c'))"

definition Coordination_RenewLease ::
  "commit \<Rightarrow> coordinationQueries \<Rightarrow> topology \<Rightarrow> go_string \<Rightarrow> go_string \<Rightarrow> int \<Rightarrow> int \<Rightarrow> int \<Rightarrow> bool coord_op" where
  "Coordination_RenewLease out q topo name owner fence now expires =
     transaction out (tx_RenewLease q topo name owner fence now expires)"

definition Coordination_ReleaseLease :: "commit \<Rightarrow> go_string \<Rightarrow> go_string \<Rightarrow> int \<Rightarrow> unit coord_op" where
  "Coordination_ReleaseLease out name owner fence = transaction out (tx_ReleaseLease name owner fence)"

text \<open>
  The fence that a write transaction checks: the lease its context carries, if any, against the row and
  the clock at the statement. The \<open>UPDATE\<close> rewrites the row unchanged, to lock it until commit.
\<close>

record singletonLease =
  sl_name :: go_string
  sl_owner :: go_string
  sl_fence :: int

definition GuardSingletonLease :: "singletonLease option \<Rightarrow> int \<Rightarrow> coordination \<Rightarrow> coord_error option" where
  "GuardSingletonLease ctx clock c =
     (case ctx of
        None \<Rightarrow> None
      | Some s \<Rightarrow>
          (case map_of (co_leases c) (sl_name s) of
             None \<Rightarrow> Some ErrSingletonLeaseLost
           | Some l \<Rightarrow>
               (if ls_owner l = sl_owner s \<and> ls_fence l = sl_fence s \<and> ls_expires l > clock then None
                else Some ErrSingletonLeaseLost)))"

section \<open>Node registry\<close>

definition upsertNode :: "HANode \<Rightarrow> coordination \<Rightarrow> coordination" where
  "upsertNode n c =
     (let row = (case map_of (co_nodes c) (hn_NodeID n) of
                   None \<Rightarrow> n | Some old \<Rightarrow> n\<lparr>hn_StartedAt := hn_StartedAt old\<rparr>)
      in c\<lparr>co_nodes := AList.update (hn_NodeID n) row (co_nodes c)\<rparr>)"

definition tx_UpsertNode :: "coordinationQueries \<Rightarrow> topology \<Rightarrow> HANode \<Rightarrow> unit coord_op" where
  "tx_UpsertNode q topo n c =
     (case topologyLeaseAllowed q topo (hn_NodeID n) of
        Some e \<Rightarrow> (Inl e, c)
      | None \<Rightarrow> (Inr (), upsertNode n c))"

definition foreignNodes :: "go_string \<Rightarrow> go_string \<Rightarrow> int \<Rightarrow> coordination \<Rightarrow> HANode list" where
  "foreignNodes nodeID fingerprint since c =
     filter (\<lambda>n. hn_NodeID n \<noteq> nodeID \<and> hn_RootKeyFingerprint n \<noteq> fingerprint \<and> hn_HeartbeatAt n \<ge> since)
       (map snd (co_nodes c))"

definition tx_ForeignRootKeyFingerprints :: "go_string \<Rightarrow> go_string \<Rightarrow> int \<Rightarrow> coordination \<Rightarrow> go_string list" where
  "tx_ForeignRootKeyFingerprints nodeID fingerprint since c =
     remdups (map hn_RootKeyFingerprint (foreignNodes nodeID fingerprint since c))"

definition tx_RegisterNodeChecked :: "coordinationQueries \<Rightarrow> topology \<Rightarrow> HANode \<Rightarrow> int \<Rightarrow> unit coord_op" where
  "tx_RegisterNodeChecked q topo n since c =
     (case topologyLeaseAllowed q topo (hn_NodeID n) of
        Some e \<Rightarrow> (Inl e, c)
      | None \<Rightarrow>
          (case cq_engine q of
             EnginePostgres \<Rightarrow>
               (if length (foreignNodes (hn_NodeID n) (hn_RootKeyFingerprint n) since c) > 0
                then (Inl ErrMixedRootKey, c) else (Inr (), upsertNode n c))
           | EngineSQLite \<Rightarrow>
               (if length (tx_ForeignRootKeyFingerprints (hn_NodeID n) (hn_RootKeyFingerprint n) since c) > 0
                then (Inl ErrMixedRootKey, c) else tx_UpsertNode q topo n c)))"

definition tx_CountLiveNodes :: "int \<Rightarrow> coordination \<Rightarrow> nat" where
  "tx_CountLiveNodes since c = length (filter (\<lambda>(_, n). hn_HeartbeatAt n \<ge> since) (co_nodes c))"

definition tx_PruneNodes :: "int \<Rightarrow> unit coord_op" where
  "tx_PruneNodes cutoff c =
     (Inr (), c\<lparr>co_nodes := filter (\<lambda>(_, n). \<not> hn_HeartbeatAt n < cutoff) (co_nodes c)\<rparr>)"

definition SelfConfigSeedAttest :: "commit \<Rightarrow> go_string \<Rightarrow> int \<Rightarrow> go_string \<Rightarrow> int \<Rightarrow> unit coord_op" where
  "SelfConfigSeedAttest out nodeID schemaVersion fingerprint now c =
     (if nodeID = [] \<or> schemaVersion < 1 \<or> fingerprint = [] then (Inl ErrInvalidAttestation, c)
      else transaction out (\<lambda>c. (Inr (), c\<lparr>co_seeds := AList.update nodeID
        \<lparr>sa_schemaVersion = schemaVersion, sa_fingerprint = fingerprint, sa_heartbeat = now\<rparr> (co_seeds c)\<rparr>)) c)"

section \<open>Admission counters\<close>

definition tx_BumpWindow :: "go_string \<Rightarrow> go_string \<Rightarrow> int \<Rightarrow> int coord_op" where
  "tx_BumpWindow bucket subject windowStart c =
     (let key = (bucket, subject, windowStart);
          row = (case map_of (co_counters c) key of
                   None \<Rightarrow> \<lparr>cr_hits = 1, cr_failures = 0, cr_until = None\<rparr>
                 | Some r \<Rightarrow> r\<lparr>cr_hits := cr_hits r + 1\<rparr>)
      in (Inr (cr_hits row), c\<lparr>co_counters := AList.update key row (co_counters c)\<rparr>))"

text \<open>A missing \<open>until_at\<close> scans as the zero time. The caller supplies the datastore's clock.\<close>

definition tx_AccountFailureState :: "go_string \<Rightarrow> int \<Rightarrow> coordination \<Rightarrow> (nat \<times> int \<times> int) option" where
  "tx_AccountFailureState subject dbNow c =
     map_option (\<lambda>r. (cr_failures r, case cr_until r of None \<Rightarrow> 0 | Some t \<Rightarrow> t, dbNow))
       (map_of (co_counters c) (AccountBucket, subject, accountWindow))"

text \<open>PostgreSQL stamps its own clock and its \<open>GREATEST\<close> skips nulls; SQLite's \<open>max\<close> does not.\<close>

definition tx_RecordAccountFailure :: "Engine \<Rightarrow> int \<Rightarrow> go_string \<Rightarrow> int \<Rightarrow> nat coord_op" where
  "tx_RecordAccountFailure engine dbNow subject now c =
     (let key = (AccountBucket, subject, accountWindow);
          stamp = (if engine = EnginePostgres then dbNow else now);
          row = (case map_of (co_counters c) key of
                   None \<Rightarrow> \<lparr>cr_hits = 0, cr_failures = 1, cr_until = Some stamp\<rparr>
                 | Some r \<Rightarrow> r\<lparr>cr_failures := cr_failures r + 1,
                     cr_until := (case cr_until r of
                        None \<Rightarrow> (if engine = EnginePostgres then Some stamp else None)
                      | Some t \<Rightarrow> Some (max t stamp))\<rparr>)
      in (Inr (cr_failures row), c\<lparr>co_counters := AList.update key row (co_counters c)\<rparr>))"

definition tx_ClearAccount :: "go_string \<Rightarrow> unit coord_op" where
  "tx_ClearAccount subject c =
     (Inr (), c\<lparr>co_counters := AList.delete (AccountBucket, subject, accountWindow) (co_counters c)\<rparr>)"

definition tx_PruneAccountBackoff :: "int \<Rightarrow> unit coord_op" where
  "tx_PruneAccountBackoff cutoff c =
     (Inr (), c\<lparr>co_counters := filter (\<lambda>((bucket, _, _), r).
        \<not> (bucket = AccountBucket \<and> (case cr_until r of None \<Rightarrow> True | Some t \<Rightarrow> t < cutoff))) (co_counters c)\<rparr>)"

definition tx_PruneAdmissionWindows :: "int \<Rightarrow> unit coord_op" where
  "tx_PruneAdmissionWindows cutoff c =
     (Inr (), c\<lparr>co_counters := filter (\<lambda>((bucket, _, start), _).
        \<not> (bucket \<noteq> AccountBucket \<and> start < cutoff)) (co_counters c)\<rparr>)"

section \<open>MCP admission\<close>

text \<open>
  Both engines run the same decision on their clock; a duplicate call id violates the primary key. A
  row that violates a foreign key ends the transaction like \<open>RolledBack\<close>.
\<close>

definition nextRateAt :: "int \<Rightarrow> go_string \<Rightarrow> coordination \<Rightarrow> int" where
  "nextRateAt now principalID c = (case map_of (co_rates c) principalID of None \<Rightarrow> now | Some t \<Rightarrow> t)"

definition acquireMCP :: "int \<Rightarrow> go_string \<Rightarrow> go_string \<Rightarrow> go_string \<Rightarrow> int \<Rightarrow> unit coord_op" where
  "acquireMCP now callID principalID orgID ttl c =
     (let c = c\<lparr>co_inflight := filter (\<lambda>(_, m). \<not> mc_expires m \<le> now) (co_inflight c)\<rparr>;
          principalCount = length (filter (\<lambda>(_, m). mc_principal m = principalID) (co_inflight c));
          orgCount = length (filter (\<lambda>(_, m). mc_org m = orgID) (co_inflight c));
          instanceCount = length (co_inflight c)
      in if principalCount \<ge> MCPPrincipalLimit \<or> orgCount \<ge> MCPOrganizationLimit \<or> instanceCount \<ge> MCPInstanceLimit
         then (Inl ErrMCPAdmissionLimited, c)
         else (let nextAt = nextRateAt now principalID c in
               if nextAt > now + (MCPRateCapacity - 1) * MCPRateRefillInterval
               then (Inl ErrMCPAdmissionLimited, c)
               else (let nextAt = (if nextAt < now then now else nextAt) + MCPRateRefillInterval;
                         c = c\<lparr>co_rates := AList.update principalID nextAt (co_rates c)\<rparr>
                     in if map_of (co_inflight c) callID \<noteq> None then (Inl ErrDatastore, c)
                        else (Inr (), c\<lparr>co_inflight := AList.update callID
                          \<lparr>mc_principal = principalID, mc_org = orgID, mc_expires = now + ttl\<rparr> (co_inflight c)\<rparr>))))"

definition tx_AcquireMCP :: "int \<Rightarrow> go_string \<Rightarrow> go_string \<Rightarrow> go_string \<Rightarrow> int \<Rightarrow> unit coord_op" where
  "tx_AcquireMCP now callID principalID orgID ttl c =
     (if callID = [] \<or> principalID = [] \<or> orgID = [] \<or> ttl \<le> 0 then (Inl ErrInvalidClaim, c)
      else acquireMCP now callID principalID orgID ttl c)"

definition tx_ReleaseMCP :: "go_string \<Rightarrow> unit coord_op" where
  "tx_ReleaseMCP callID c =
     (if callID = [] then (Inl ErrEmptyCallID, c)
      else (Inr (), c\<lparr>co_inflight := AList.delete callID (co_inflight c)\<rparr>))"

section \<open>The shared account table serves the admission control\<close>

text \<open>The answers that the admission control gets from the tables at an instant.\<close>

definition shared_db :: "Engine \<Rightarrow> int \<Rightarrow> coordination \<Rightarrow> SharedStore" where
  "shared_db engine dbNow c =
     \<lparr>BumpWindow = \<lambda>bucket subject start. (case fst (tx_BumpWindow bucket subject start c) of Inl _ \<Rightarrow> None | Inr n \<Rightarrow> Some n),
      AccountFailureState = \<lambda>subject. Some (tx_AccountFailureState subject dbNow c),
      RecordAccountFailure = \<lambda>subject now.
        (case fst (tx_RecordAccountFailure engine dbNow subject now c) of Inl _ \<Rightarrow> None | Inr n \<Rightarrow> Some n)\<rparr>"

definition stamped :: "coordination \<Rightarrow> bool" where
  "stamped c \<longleftrightarrow> (\<forall>subject r. map_of (co_counters c) (AccountBucket, subject, accountWindow) = Some r \<longrightarrow>
     cr_until r \<noteq> None)"

definition account_state :: "coordination \<Rightarrow> go_string \<Rightarrow> (nat \<times> int) option" where
  "account_state c subject = map_option (\<lambda>(n, t, _). (n, t)) (tx_AccountFailureState subject 0 c)"

definition record_account :: "Engine \<Rightarrow> go_string \<Rightarrow> int \<Rightarrow> coordination \<Rightarrow> nat \<times> coordination" where
  "record_account engine subject t c =
     (case tx_RecordAccountFailure engine t subject t c of (r, c') \<Rightarrow> (projr r, c'))"

definition clear_account :: "go_string \<Rightarrow> coordination \<Rightarrow> coordination" where
  "clear_account subject c = snd (tx_ClearAccount subject c)"

lemmas account_defs = account_state_def record_account_def clear_account_def tx_AccountFailureState_def
  tx_RecordAccountFailure_def tx_ClearAccount_def

interpretation table: account_counters stamped account_state "record_account engine" clear_account for engine
proof
  fix c k t k'
  show "fst (record_account engine k t c) = (case account_state c k of None \<Rightarrow> 1 | Some (n, _) \<Rightarrow> n + 1)"
    by (auto simp: account_defs Let_def split: option.splits)
  show "account_state (clear_account k c) k' = (if k' = k then None else account_state c k')"
    by (auto simp: account_defs AList.delete_conv')
  assume s: "stamped c"
  then show "account_state (snd (record_account engine k t c)) k' =
      (if k' = k then Some (fst (record_account engine k t c),
         case account_state c k of None \<Rightarrow> t | Some (_, u) \<Rightarrow> max u t) else account_state c k')"
  proof (cases "map_of (co_counters c) (AccountBucket, k, accountWindow)")
    case (Some r)
    then obtain u where "cr_until r = Some u" using s by (auto simp: stamped_def)
    with Some show ?thesis by (auto simp: account_defs Let_def AList.update_conv')
  qed (auto simp: account_defs Let_def AList.update_conv')
  show "stamped (snd (record_account engine k t c))"
  proof (cases "map_of (co_counters c) (AccountBucket, k, accountWindow)")
    case (Some r)
    then obtain u where "cr_until r = Some u" using s by (auto simp: stamped_def)
    with Some s show ?thesis by (auto simp: account_defs stamped_def Let_def AList.update_conv')
  qed (use s in \<open>auto simp: account_defs stamped_def Let_def AList.update_conv'\<close>)
  show "stamped (clear_account k c)"
    using s by (auto simp: account_defs stamped_def AList.delete_conv')
qed

datatype account_event = Failure go_string int | Success go_string

fun presented_of :: "account_event \<Rightarrow> go_string" where
  "presented_of (Failure p _) = p"
| "presented_of (Success p) = p"

fun local_event :: "SharedStore \<Rightarrow> account_event \<Rightarrow> Limiter \<Rightarrow> bool \<times> Limiter" where
  "local_event db (Failure p t) l = RecordFailure db t t p l"
| "local_event db (Success p) l = (False, RecordSuccess p l)"

fun shared_event :: "Engine \<Rightarrow> account_event \<Rightarrow> Limiter \<times> coordination \<Rightarrow> bool \<times> Limiter \<times> coordination" where
  "shared_event engine (Failure p t) (l, c) =
     (case RecordFailure (shared_db engine t c) t t p l of
        (crossed, l) \<Rightarrow> (crossed, l, snd (tx_RecordAccountFailure engine t (sharedAccountSubject p) t c)))"
| "shared_event engine (Success p) (l, c) =
     (False, RecordSuccess p l, snd (tx_ClearAccount (sharedAccountSubject p) c))"

primrec run_events :: "(account_event \<Rightarrow> 's \<Rightarrow> bool \<times> 's) \<Rightarrow> account_event list \<Rightarrow> 's \<Rightarrow> bool list \<times> 's" where
  "run_events f [] s = ([], s)"
| "run_events f (e # es) s =
     (case f e s of (crossed, s) \<Rightarrow> (case run_events f es s of (cs, s) \<Rightarrow> (crossed # cs, s)))"

lemma run_events_Cons:
  "run_events f (e # es) s = (fst (f e s) # fst (run_events f es (snd (f e s))), snd (run_events f es (snd (f e s))))"
  by (simp split: prod.split)

text \<open>The simulation: a limiter with its own table against one that uses the shared table.\<close>

definition backends :: "int \<Rightarrow> subjectKey set \<Rightarrow> Limiter \<Rightarrow> Limiter \<times> coordination \<Rightarrow> bool" where
  "backends t K l lc \<longleftrightarrow>
     (case lc of (l', c) \<Rightarrow>
        li_shared l = None \<and> li_shared l' \<noteq> None \<and> stamped c \<and> accounts_refine (li_accounts l) (account_state c) \<and>
        distinct (map fst (li_accounts l)) \<and> fst ` set (li_accounts l) \<subseteq> K \<and>
        latest t (account_state c))"

lemma recordFailure_keys:
  assumes "length accts < MaxTrackedSubjects"
  shows "fst ` set (snd (recordFailure t t key accts)) \<subseteq> insert key (fst ` set accts)"
    "distinct (map fst accts) \<Longrightarrow> distinct (map fst (snd (recordFailure t t key accts)))"
  using assms
  by (auto simp: recordFailure_def Let_def AList.distinct_update AList.dom_update split: option.splits)

lemma recordSuccess_keys:
  "fst ` set (recordSuccess key accts) \<subseteq> fst ` set accts"
  "distinct (map fst accts) \<Longrightarrow> distinct (map fst (recordSuccess key accts))"
  by (auto simp: recordSuccess_def AList.delete_eq) (simp add: AList.distinct_delete flip: AList.delete_eq)

lemma local_Failure:
  "li_shared l = None \<Longrightarrow> local_event db (Failure p t) l =
     (fst (recordFailure t t (bucketKey p) (li_accounts l)),
      l\<lparr>li_accounts := snd (recordFailure t t (bucketKey p) (li_accounts l))\<rparr>)"
  by (simp add: RecordFailure_def split: prod.split)

lemma shared_Failure:
  "li_shared l \<noteq> None \<Longrightarrow> shared_event engine (Failure p t) (l, c) =
     (fst (record_account engine (hex_EncodeToString (bucketKey p)) t c) = FailuresBeforeBackoff + 1, l,
      snd (record_account engine (hex_EncodeToString (bucketKey p)) t c))"
  by (simp add: RecordFailure_def sharedRecordFailure_def shared_db_def sharedAccountSubject_def
      record_account_def tx_RecordAccountFailure_def Let_def)

lemma backendsD:
  assumes "backends t0 K l (l', c)"
  shows "li_shared l = None" "li_shared l' \<noteq> None" "stamped c"
    "accounts_refine (li_accounts l) (account_state c)" "distinct (map fst (li_accounts l))"
    "fst ` set (li_accounts l) \<subseteq> K" "latest t0 (account_state c)"
  using assms unfolding backends_def prod.case by blast+

lemma failure_step:
  assumes "backends t0 K l (l', c)" "t0 \<le> t" "0 < t" "bucketKey p \<in> K" "finite K" "card K < MaxTrackedSubjects"
  shows "fst (local_event db (Failure p t) l) = fst (shared_event engine (Failure p t) (l', c)) \<and>
    backends t K (snd (local_event db (Failure p t) l)) (snd (shared_event engine (Failure p t) (l', c)))"
proof -
  let ?key = "bucketKey p"
  let ?accts = "recordFailure t t ?key (li_accounts l)"
  let ?row = "record_account engine (hex_EncodeToString ?key) t c"
  note b = backendsD [OF assms(1)]
  have small: "length (li_accounts l) < MaxTrackedSubjects"
    using small_bucket [OF b(5,6) assms(5,6)] .
  note old = latest_mono [OF b(7) assms(2)]
  have sim: "fst ?accts = (fst ?row = FailuresBeforeBackoff + 1) \<and> accounts_refine (snd ?accts) (account_state (snd ?row))"
    by (rule table.record_refines [OF b(3,4) small old])
  have "fst ` set (snd ?accts) \<subseteq> K"
    by (rule order_trans [OF recordFailure_keys(1) [OF small]]) (use b(6) assms(4) in simp)
  then have "backends t K (l\<lparr>li_accounts := snd ?accts\<rparr>) (l', snd ?row)"
    unfolding backends_def
    using b(1,2) sim table.record_invar [OF b(3)] recordFailure_keys(2) [OF small b(5)]
      table.record_latest [OF b(3) old assms(3)] by simp
  then show ?thesis
    using sim b(1,2) by (simp add: local_Failure shared_Failure del: local_event.simps shared_event.simps)
qed

lemma success_step:
  assumes "backends t K l (l', c)"
  shows "fst (local_event db (Success p) l) = fst (shared_event engine (Success p) (l', c)) \<and>
    backends t K (snd (local_event db (Success p) l)) (snd (shared_event engine (Success p) (l', c)))"
proof -
  note b = backendsD [OF assms(1)]
  have "fst ` set (recordSuccess (bucketKey p) (li_accounts l)) \<subseteq> K"
    using recordSuccess_keys(1) b(6) by (rule order_trans)
  then show ?thesis
    using b(1,2) table.clear_refines [OF b(4)] table.clear_latest [OF b(7)] table.clear_invar [OF b(3)]
      recordSuccess_keys(2) [OF b(5)]
    by (simp add: backends_def RecordSuccess_def sharedAccountSubject_def clear_account_def)
qed

text \<open>Failures happen at instants after \<open>lo\<close>, in order, and none after \<open>now\<close>.\<close>

fun timely :: "int \<Rightarrow> int \<Rightarrow> account_event list \<Rightarrow> bool" where
  "timely lo now [] \<longleftrightarrow> lo \<le> now"
| "timely lo now (Failure _ t # es) \<longleftrightarrow> lo \<le> t \<and> 0 < t \<and> timely t now es"
| "timely lo now (Success _ # es) \<longleftrightarrow> timely lo now es"

lemma events_refine:
  assumes "backends lo K l lc" "timely lo now es" "bucketKey ` presented_of ` set es \<subseteq> K" "finite K"
    "card K < MaxTrackedSubjects"
  shows "fst (run_events (local_event db) es l) = fst (run_events (shared_event engine) es lc) \<and>
    backends now K (snd (run_events (local_event db) es l)) (snd (run_events (shared_event engine) es lc))"
  using assms
proof (induction es arbitrary: lo l lc)
  case Nil
  then show ?case by (auto simp: backends_def intro: latest_mono)
next
  case (Cons e es)
  obtain l' c where lc: "lc = (l', c)" by (cases lc)
  obtain lo' where step: "fst (local_event db e l) = fst (shared_event engine e lc)" "timely lo' now es"
    "backends lo' K (snd (local_event db e l)) (snd (shared_event engine e lc))"
  proof (cases e)
    case (Failure p t)
    then show ?thesis
      using that [of t] failure_step [of lo K l l' c t p db engine] Cons.prems lc by auto
  next
    case (Success p)
    then show ?thesis
      using that [of lo] success_step [of lo K l l' c db p engine] Cons.prems lc by auto
  qed
  have "fst (run_events (local_event db) es (snd (local_event db e l))) =
      fst (run_events (shared_event engine) es (snd (shared_event engine e lc))) \<and>
    backends now K (snd (run_events (local_event db) es (snd (local_event db e l))))
      (snd (run_events (shared_event engine) es (snd (shared_event engine e lc))))"
    using Cons.IH [OF step(3,2)] Cons.prems by simp
  then show ?case using step(1) by (simp add: run_events_Cons del: run_events.simps)
qed

text \<open>
  C25: the process-local and the installation-wide account backoff are one policy: from empty tables, on any
  sequence of failures and successes over fewer than \<open>MaxTrackedSubjects\<close> accounts, with one clock, no failing
  datastore call and no pruning in between, the node that keeps its own table and the node on the shared
  tables report the threshold crossing at the same failures, and afterwards hold every presented account off
  for the same time, never longer than \<open>MaxAccountBackoff\<close>.
\<close>

theorem backoff_backends_agree:
  assumes "li_shared l = None" "li_accounts l = []" "li_shared l' \<noteq> None" "co_counters c = []"
    and "timely lo now es" "card (bucketKey ` presented_of ` set es) < MaxTrackedSubjects"
    and "run_events (local_event db) es l = (crossed, m)"
    and "run_events (shared_event engine) es (l', c) = (crossed', m', c')"
  shows "crossed = crossed' \<and> AccountDelay db now p m = AccountDelay (shared_db engine now c') now p m' \<and>
    AccountDelay db now p m \<le> MaxAccountBackoff"
proof -
  have "backends lo (bucketKey ` presented_of ` set es) l (l', c)"
    using assms(1-4)
    by (simp add: backends_def stamped_def accounts_refine_def account_state_def tx_AccountFailureState_def
        stored_def latest_def)
  then have run: "crossed = crossed'" and
    sim: "backends now (bucketKey ` presented_of ` set es) m (m', c')"
    using events_refine [of lo _ l "(l', c)" now es db engine] assms(5-8) by auto
  have none: "li_shared m = None" "li_shared m' \<noteq> None" and
    key: "map_of (li_accounts m) (bucketKey p) = stored (account_state c' (sharedAccountSubject p))" and
    late: "latest now (account_state c')"
    using sim by (auto simp: backends_def accounts_refine_def sharedAccountSubject_def)
  have "AccountDelay (shared_db engine now c') now p m' =
      (case account_state c' (sharedAccountSubject p) of None \<Rightarrow> 0 | Some (n, t) \<Rightarrow> max 0 (t + backoffDelay n - now))"
    using none(2) by (auto simp: AccountDelay_def sharedAccountDelay_def shared_db_def account_state_def
        tx_AccountFailureState_def split: option.split)
  then show ?thesis
    using run none(1) stored_delay [OF key late] by (simp add: AccountDelay_def)
qed

definition empty_tables :: coordination where
  "empty_tables = \<lparr>co_leases = [], co_nodes = [], co_counters = [], co_inflight = [], co_rates = [],
     co_seeds = []\<rparr>"

definition sample_events :: "account_event list" where
  "sample_events = [Failure ''alice'' 1, Failure ''alice'' 2, Success ''alice'', Failure ''alice'' 5]"

theorem backoff_backends_agree_witness:
  "AccountDelay sample_db 9 ''alice'' (snd (run_events (local_event sample_db) sample_events sample_limiter)) \<le> MaxAccountBackoff"
  using backoff_backends_agree [of sample_limiter "sample_limiter\<lparr>li_shared := Some 0\<rparr>" empty_tables 1 9 sample_events
      sample_db "fst (run_events (local_event sample_db) sample_events sample_limiter)"
      "snd (run_events (local_event sample_db) sample_events sample_limiter)" EnginePostgres
      "fst (run_events (shared_event EnginePostgres) sample_events (sample_limiter\<lparr>li_shared := Some 0\<rparr>, empty_tables))"
      "fst (snd (run_events (shared_event EnginePostgres) sample_events (sample_limiter\<lparr>li_shared := Some 0\<rparr>, empty_tables)))"
      "snd (snd (run_events (shared_event EnginePostgres) sample_events (sample_limiter\<lparr>li_shared := Some 0\<rparr>, empty_tables)))"
      "''alice''"]
  by (simp add: sample_limiter_def empty_tables_def sample_events_def MaxTrackedSubjects_def del: run_events.simps)

section \<open>MCP admission is bounded\<close>

datatype mcp_op =
  Acquire commit int go_string go_string go_string int
| Release commit go_string

fun mcp_step :: "mcp_op \<Rightarrow> unit coord_op" where
  "mcp_step (Acquire out now callID principalID orgID ttl) =
     transaction out (tx_AcquireMCP now callID principalID orgID ttl)"
| "mcp_step (Release out callID) = transaction out (tx_ReleaseMCP callID)"

text \<open>The claim that an operation leaves committed: its instant and its principal.\<close>

fun charge :: "mcp_op \<Rightarrow> coordination \<Rightarrow> (int \<times> go_string) list" where
  "charge (Acquire out now callID principalID orgID ttl) c =
     (if (out = Committed \<or> out = ReplyLost) \<and> fst (tx_AcquireMCP now callID principalID orgID ttl c) = Inr ()
      then [(now, principalID)] else [])"
| "charge (Release _ _) _ = []"

fun mcp_run :: "mcp_op list \<Rightarrow> coordination \<Rightarrow> (int \<times> go_string) list \<times> coordination" where
  "mcp_run [] c = ([], c)"
| "mcp_run (x # xs) c = (case mcp_run xs (snd (mcp_step x c)) of (ts, c') \<Rightarrow> (charge x c @ ts, c'))"

definition mcp_ok :: "coordination \<Rightarrow> bool" where
  "mcp_ok c \<longleftrightarrow> distinct (map fst (co_inflight c)) \<and> length (co_inflight c) \<le> MCPInstanceLimit \<and>
     (\<forall>p. length (filter (\<lambda>(_, m). mc_principal m = p) (co_inflight c)) \<le> MCPPrincipalLimit) \<and>
     (\<forall>org. length (filter (\<lambda>(_, m). mc_org m = org) (co_inflight c)) \<le> MCPOrganizationLimit)"

lemma update_fresh: "k \<notin> fst ` set al \<Longrightarrow> AList.update k v al = al @ [(k, v)]"
  by (induction al) auto

lemma mcp_ok_filter:
  assumes "mcp_ok c"
  shows "mcp_ok (c\<lparr>co_inflight := filter P (co_inflight c)\<rparr>)"
proof -
  have "length (filter Q (filter P xs)) \<le> length (filter Q xs)" for Q and xs :: "(go_string \<times> mcp_claim) list"
    by (induction xs) auto
  then have "length (filter Q (filter P (co_inflight c))) \<le> n" if "length (filter Q (co_inflight c)) \<le> n" for Q n
    using that order_trans by blast
  moreover have "distinct (map fst (filter P (co_inflight c)))"
    using assms by (auto simp: mcp_ok_def intro: distinct_map_filter)
  ultimately show ?thesis
    using assms le_trans [OF length_filter_le [of P "co_inflight c"]] by (simp add: mcp_ok_def)
qed

lemma acquire_ok:
  assumes "mcp_ok c" "tx_AcquireMCP now callID p org ttl c = (Inr (), c')"
  shows "mcp_ok c'"
proof -
  let ?live = "filter (\<lambda>(_, m). \<not> mc_expires m \<le> now) (co_inflight c)"
  have live: "mcp_ok (c\<lparr>co_inflight := ?live\<rparr>)" using assms(1) by (rule mcp_ok_filter)
  have room: "length ?live < MCPInstanceLimit"
    "length (filter (\<lambda>(_, m). mc_principal m = p) ?live) < MCPPrincipalLimit"
    "length (filter (\<lambda>(_, m). mc_org m = org) ?live) < MCPOrganizationLimit"
    and new: "map_of ?live callID = None"
    and c': "co_inflight c' = AList.update callID \<lparr>mc_principal = p, mc_org = org, mc_expires = now + ttl\<rparr> ?live"
    using assms(2) by (auto simp: tx_AcquireMCP_def acquireMCP_def Let_def not_le split: if_splits)
  have "callID \<notin> fst ` set ?live" using new by (simp only: map_of_eq_None_iff not_False_eq_True)
  then show ?thesis
    using live room unfolding mcp_ok_def c' by (auto simp: update_fresh simp flip: Suc_le_eq)
qed


lemma step_mcp_ok:
  assumes "mcp_ok c"
  shows "mcp_ok (snd (mcp_step x c))"
proof (cases x)
  case (Acquire out now callID p org ttl)
  then show ?thesis
    using assms acquire_ok [OF assms, of now callID p org ttl "snd (tx_AcquireMCP now callID p org ttl c)"]
    by (auto simp: transaction_state prod_eq_iff)
next
  case (Release out callID)
  have "mcp_ok (c\<lparr>co_inflight := AList.delete callID (co_inflight c)\<rparr>)"
    unfolding AList.delete_eq by (rule mcp_ok_filter [OF assms])
  then show ?thesis
    using assms Release by (simp add: transaction_state tx_ReleaseMCP_def)
qed

lemma acquire_rate:
  assumes "tx_AcquireMCP now callID p org ttl c = (Inr u, c')"
  shows "nextRateAt now p c \<le> now + (MCPRateCapacity - 1) * MCPRateRefillInterval \<and>
    co_rates c' = AList.update p (max now (nextRateAt now p c) + MCPRateRefillInterval) (co_rates c)"
proof -
  have frame: "nextRateAt now p (c\<lparr>co_inflight := x\<rparr>) = nextRateAt now p c" for x by (simp add: nextRateAt_def)
  show ?thesis
    using assms by (auto simp: tx_AcquireMCP_def acquireMCP_def Let_def frame max_def split: if_splits)
qed

lemma charge_rate:
  assumes "charge x c = [(t, p)]"
  shows "nextRateAt t p c \<le> t + (MCPRateCapacity - 1) * MCPRateRefillInterval \<and>
    map_of (co_rates (snd (mcp_step x c))) p = Some (max t (nextRateAt t p c) + MCPRateRefillInterval)"
proof (cases x)
  case (Acquire out now callID q org ttl)
  then have "out = Committed \<or> out = ReplyLost" "now = t" "q = p"
    "fst (tx_AcquireMCP t callID p org ttl c) = Inr ()"
    using assms by (auto split: if_splits)
  then show ?thesis
    using acquire_rate [of t callID p org ttl c "()" "snd (tx_AcquireMCP t callID p org ttl c)"] Acquire
    by (auto simp: transaction_state AList.update_conv' prod_eq_iff)
qed (use assms in simp)

lemma no_charge_rate:
  assumes "\<forall>t. (t, p) \<notin> set (charge x c)"
  shows "map_of (co_rates (snd (mcp_step x c))) p = map_of (co_rates c) p"
proof (cases x)
  case (Acquire out now callID q org ttl)
  show ?thesis
  proof (cases "(out = Committed \<or> out = ReplyLost) \<and> fst (tx_AcquireMCP now callID q org ttl c) = Inr ()")
    case True
    then have "q \<noteq> p" using assms Acquire by auto
    then show ?thesis
      using True acquire_rate [of now callID q org ttl c "()" "snd (tx_AcquireMCP now callID q org ttl c)"] Acquire
      by (auto simp: transaction_state AList.update_conv' prod_eq_iff)
  qed (use Acquire in \<open>auto simp: transaction_state\<close>)
qed (simp add: transaction_state tx_ReleaseMCP_def)

lemma charge_cases:
  obtains "charge x c = []" | t q where "charge x c = [(t, q)]"
  by (cases x) (simp_all, metis)

definition charged :: "go_string \<Rightarrow> mcp_op list \<Rightarrow> coordination \<Rightarrow> int list" where
  "charged p xs c = map fst (filter (\<lambda>x. snd x = p) (fst (mcp_run xs c)))"

lemma charged_Cons:
  "charged p (x # xs) c = map fst (filter (\<lambda>y. snd y = p) (charge x c)) @ charged p xs (snd (mcp_step x c))"
  by (simp add: charged_def split: prod.split)

text \<open>From a bucket at \<open>n\<close>, the charge with index \<open>j\<close> finds it at least \<open>j\<close> intervals further.\<close>

lemma charged_after:
  "map_of (co_rates c) p = Some n \<Longrightarrow> j < length (charged p xs c) \<Longrightarrow>
   n + (int j + 1) * MCPRateRefillInterval \<le> charged p xs c ! j + MCPRateCapacity * MCPRateRefillInterval"
proof (induction xs arbitrary: c n j)
  case (Cons x xs)
  show ?case
  proof (cases "\<exists>t. charge x c = [(t, p)]")
    case True
    then obtain t where t: "charge x c = [(t, p)]" by blast
    note rate = charge_rate [OF t]
    have now: "nextRateAt t p c = n" using Cons.prems(1) by (simp add: nextRateAt_def)
    show ?thesis
    proof (cases j)
      case 0
      then show ?thesis using rate now t by (simp add: charged_Cons algebra_simps)
    next
      case (Suc i)
      have "max t n + MCPRateRefillInterval + (int i + 1) * MCPRateRefillInterval
          \<le> charged p xs (snd (mcp_step x c)) ! i + MCPRateCapacity * MCPRateRefillInterval"
        using Cons.IH [of "snd (mcp_step x c)" "max t n + MCPRateRefillInterval" i] Cons.prems(2) rate now t Suc
        by (simp add: charged_Cons)
      then show ?thesis using Suc t by (simp add: charged_Cons algebra_simps)
    qed
  next
    case False
    then have none: "filter (\<lambda>y. snd y = p) (charge x c) = []" "\<forall>t. (t, p) \<notin> set (charge x c)"
      by (cases x c rule: charge_cases; auto)+
    show ?thesis
      using Cons.IH [of "snd (mcp_step x c)" n j] Cons.prems no_charge_rate [OF none(2)] none(1)
      by (simp add: charged_Cons)
  qed
qed (simp add: charged_def)

lemma charged_between:
  "i \<le> j \<Longrightarrow> j < length (charged p xs c) \<Longrightarrow>
   charged p xs c ! i + (int (j - i) + 1) * MCPRateRefillInterval
     \<le> charged p xs c ! j + MCPRateCapacity * MCPRateRefillInterval"
proof (induction xs arbitrary: c i j)
  case (Cons x xs)
  show ?case
  proof (cases "\<exists>t. charge x c = [(t, p)]")
    case True
    then obtain t where t: "charge x c = [(t, p)]" by blast
    show ?thesis
    proof (cases i)
      case i: 0
      show ?thesis
      proof (cases j)
        case 0
        then show ?thesis using i t by (simp add: charged_Cons MCPRateCapacity_def MCPRateRefillInterval_def)
      next
        case (Suc k)
        then show ?thesis
          using i t charge_rate [OF t] Cons.prems
            charged_after [of "snd (mcp_step x c)" p "max t (nextRateAt t p c) + MCPRateRefillInterval" k xs]
          by (simp add: charged_Cons algebra_simps)
      qed
    next
      case (Suc k)
      then show ?thesis
        using Cons.IH [of k "j - 1" "snd (mcp_step x c)"] Cons.prems t by (cases j) (simp_all add: charged_Cons)
    qed
  next
    case False
    then have "filter (\<lambda>y. snd y = p) (charge x c) = []"
      by (cases x c rule: charge_cases) auto
    then show ?thesis using Cons.IH [of i j "snd (mcp_step x c)"] Cons.prems by (simp add: charged_Cons)
  qed
qed (simp add: charged_def)

text \<open>
  C26: whatever calls are claimed and released, in whatever order, with whatever outcome of their
  transactions, at most \<open>MCPPrincipalLimit\<close> calls of a principal, \<open>MCPOrganizationLimit\<close> of an
  organisation and \<open>MCPInstanceLimit\<close> of the installation are in flight; and between any two claims of a
  principal, both included, there are at most \<open>MCPRateCapacity\<close> claims more than refill intervals.
\<close>

theorem mcp_admission_bounded:
  assumes "i \<le> j" "j < length (charged p xs empty_tables)"
  shows "mcp_ok (snd (mcp_run xs empty_tables)) \<and>
    (int (j - i) + 1) * MCPRateRefillInterval
      \<le> MCPRateCapacity * MCPRateRefillInterval + (charged p xs empty_tables ! j - charged p xs empty_tables ! i)"
proof -
  have "mcp_ok (snd (mcp_run xs c))" if "mcp_ok c" for c
    using that
  proof (induction xs arbitrary: c)
    case (Cons x xs)
    then show ?case using Cons.IH [OF step_mcp_ok [of c x]] by (simp add: case_prod_beta)
  qed simp
  moreover have "mcp_ok empty_tables" by (simp add: mcp_ok_def empty_tables_def)
  ultimately show ?thesis using charged_between [OF assms] by simp
qed

definition sample_calls :: "mcp_op list" where
  "sample_calls = [Acquire Committed 7 ''c1'' ''alice'' ''acme'' 60, Acquire ReplyLost 9 ''c2'' ''alice'' ''acme'' 60]"

theorem mcp_admission_bounded_witness:
  "mcp_ok (snd (mcp_run sample_calls empty_tables)) \<and> charged ''alice'' sample_calls empty_tables = [7, 9]"
proof -
  have "charged ''alice'' sample_calls empty_tables = [7, 9]" by code_simp
  then show ?thesis using mcp_admission_bounded [of 0 1 "''alice''" sample_calls] by simp
qed

section \<open>One root key\<close>

text \<open>After a checked registration every live node carries the registrant's root-key fingerprint.\<close>

lemma register_one_root:
  assumes "tx_RegisterNodeChecked q topo n since c = (Inr (), c')" "map_of (co_nodes c') k = Some m"
    "\<forall>(k, m) \<in> set (co_nodes c). hn_NodeID m = k" "hn_HeartbeatAt m \<ge> since"
  shows "hn_RootKeyFingerprint m = hn_RootKeyFingerprint n"
proof -
  have none: "foreignNodes (hn_NodeID n) (hn_RootKeyFingerprint n) since c = []" and c': "c' = upsertNode n c"
    using assms(1)
    by (auto simp: tx_RegisterNodeChecked_def tx_ForeignRootKeyFingerprints_def tx_UpsertNode_def
        split: option.splits Engine.splits if_splits)
  show ?thesis
  proof (cases "k = hn_NodeID n")
    case True
    then show ?thesis
      using assms(2) unfolding c' by (auto simp: upsertNode_def Let_def AList.update_conv' split: option.splits)
  next
    case False
    then have "(k, m) \<in> set (co_nodes c)"
      using assms(2) unfolding c' by (auto simp: upsertNode_def Let_def AList.update_conv' dest: map_of_SomeD)
    then show ?thesis
      using False none assms(3,4) by (fastforce simp: foreignNodes_def filter_empty_conv)
  qed
qed

text \<open>
  The heartbeat of a registered node is not checked: a node whose heartbeat lapsed for longer than the
  liveness window comes back beside a node that registered another root key meanwhile.
\<close>

definition sample_ha_node :: "go_string \<Rightarrow> go_string \<Rightarrow> int \<Rightarrow> HANode" where
  "sample_ha_node nodeID fingerprint now = \<lparr>hn_NodeID = nodeID, hn_BinaryVersion = ''v1'', hn_SchemaVersion = 1,
     hn_RootKeyFingerprint = fingerprint, hn_StartedAt = now, hn_HeartbeatAt = now\<rparr>"

definition sample_queries :: "go_string \<Rightarrow> coordinationQueries" where
  "sample_queries nodeID = \<lparr>cq_engine = EnginePostgres, cq_runtimeNodeID = nodeID, cq_runtimeTemplateStamp = []\<rparr>"

definition sample_lapse :: "(coord_error + unit) list \<times> coordination" where
  "sample_lapse =
     (let (r1, c) = tx_RegisterNodeChecked (sample_queries ''a'') (Inr None) (sample_ha_node ''a'' ''k1'' (seconds 100))
            (seconds 70) empty_tables;
          (r2, c) = tx_RegisterNodeChecked (sample_queries ''b'') (Inr None) (sample_ha_node ''b'' ''k2'' (seconds 140))
            (seconds 110) c;
          (r3, c) = tx_UpsertNode (sample_queries ''a'') (Inr None) (sample_ha_node ''a'' ''k1'' (seconds 141)) c
      in ([r1, r2, r3], c))"

lemma heartbeat_skips_root_check:
  "fst sample_lapse = [Inr (), Inr (), Inr ()] \<and> tx_CountLiveNodes (seconds 111) (snd sample_lapse) = 2 \<and>
   map (hn_RootKeyFingerprint \<circ> snd) (co_nodes (snd sample_lapse)) = [''k1'', ''k2'']"
  by code_simp

end
