(* ===== verification/Scheduler.thy ===== *)
theory Scheduler
  imports Coordination
begin

text \<open>
  \<open>internal/app/scheduler.go\<close>: leadership of the singleton scheduler across nodes. Each node runs the
  loop of \<open>runHA\<close>; its datastore calls interleave with those of other nodes, so the loop is cut at these
  calls and the rest is a function of the call's answer. A term is the goroutine that runs the jobs; its
  context carries the fence it was started with. The datastore's clock does not run backwards. The jobs
  themselves, logging and the registry heartbeat of \<open>OnTick\<close> are left out.
\<close>

definition schedulerLeaseName :: go_string where "schedulerLeaseName = ''scheduler''"
definition defaultLeaseTTL :: int where "defaultLeaseTTL = seconds 30"

datatype pc = Select | Renewing int | Confirming int | Claiming int | Stopping | Stopped

record job_term =
  te_fence :: int
  te_cancelled :: bool
  te_done :: bool

record Scheduler =
  sc_LeaseTTL :: int
  sc_leader :: bool
  sc_fence :: int
  sc_unconfirmedClaim :: bool
  sc_expiresAt :: int
  sc_term :: "job_term option"
  sc_ctxDone :: bool
  sc_pc :: pc

definition start_node :: "int \<Rightarrow> Scheduler" where
  "start_node ttl = \<lparr>sc_LeaseTTL = ttl, sc_leader = False, sc_fence = 0, sc_unconfirmedClaim = False,
     sc_expiresAt = 0, sc_term = None, sc_ctxDone = False, sc_pc = Select\<rparr>"

definition leaseTTL :: "Scheduler \<Rightarrow> int" where
  "leaseTTL s = (if sc_LeaseTTL s \<le> 0 then defaultLeaseTTL else sc_LeaseTTL s)"

definition dropLeadership :: "Scheduler \<Rightarrow> Scheduler" where
  "dropLeadership s = s\<lparr>sc_term := map_option (\<lambda>t. t\<lparr>te_cancelled := True\<rparr>) (sc_term s), sc_leader := False\<rparr>"

definition termDraining :: "Scheduler \<Rightarrow> bool \<times> Scheduler" where
  "termDraining s =
     (case sc_term s of
        None \<Rightarrow> (False, s)
      | Some t \<Rightarrow> (if te_done t then (False, s\<lparr>sc_term := None\<rparr>) else (True, s)))"

definition startTerm :: "int \<Rightarrow> Scheduler \<Rightarrow> Scheduler" where
  "startTerm expires s =
     s\<lparr>sc_unconfirmedClaim := False, sc_expiresAt := expires, sc_leader := True,
       sc_term := Some \<lparr>te_fence = sc_fence s, te_cancelled = False, te_done = False\<rparr>\<rparr>"

text \<open>After the renewal: claim only when the context lives, this node does not lead and no term drains.\<close>

definition afterRenew :: "int \<Rightarrow> Scheduler \<Rightarrow> Scheduler" where
  "afterRenew now s =
     (if sc_ctxDone s then s\<lparr>sc_pc := Select\<rparr>
      else if sc_leader s then s\<lparr>sc_pc := Select\<rparr>
      else (case termDraining s of
              (True, s) \<Rightarrow> s\<lparr>sc_pc := Select\<rparr>
            | (False, s) \<Rightarrow> s\<lparr>sc_pc := (if sc_unconfirmedClaim s then Confirming now else Claiming now)\<rparr>))"

definition onClock :: "coord_error + int \<Rightarrow> Scheduler \<Rightarrow> Scheduler" where
  "onClock answer s =
     (case answer of
        Inl _ \<Rightarrow> (if sc_leader s then dropLeadership s else s)\<lparr>sc_pc := Select\<rparr>
      | Inr now \<Rightarrow>
          (let s = (if sc_leader s \<and> \<not> now < sc_expiresAt s then dropLeadership s else s) in
           if sc_leader s then s\<lparr>sc_pc := Renewing now\<rparr> else afterRenew now s))"

definition onRenew :: "int \<Rightarrow> coord_error + bool \<Rightarrow> Scheduler \<Rightarrow> Scheduler" where
  "onRenew now answer s =
     afterRenew now
       (case answer of
          Inl _ \<Rightarrow> dropLeadership s
        | Inr held \<Rightarrow> (if \<not> held then dropLeadership s else s\<lparr>sc_expiresAt := now + leaseTTL s\<rparr>))"

definition onConfirm :: "int \<Rightarrow> coord_error + bool \<Rightarrow> Scheduler \<Rightarrow> Scheduler" where
  "onConfirm now answer s =
     (let s = (case answer of
                 Inl _ \<Rightarrow> s
               | Inr held \<Rightarrow>
                   (if \<not> held then s\<lparr>sc_unconfirmedClaim := False, sc_fence := 0\<rparr>
                    else if \<not> sc_ctxDone s then startTerm (now + leaseTTL s) s else s))
      in s\<lparr>sc_pc := (if \<not> sc_leader s \<and> \<not> sc_unconfirmedClaim s \<and> \<not> sc_ctxDone s then Claiming now else Select)\<rparr>)"

definition onClaim :: "int \<Rightarrow> int \<times> bool \<times> coord_error option \<Rightarrow> Scheduler \<Rightarrow> Scheduler" where
  "onClaim now answer s =
     (case answer of (gotFence, held, err) \<Rightarrow>
        (let s = (if gotFence \<noteq> 0 \<and> (held \<or> err \<noteq> None)
                  then s\<lparr>sc_fence := gotFence, sc_unconfirmedClaim := True\<rparr> else s);
             s = (if err = None \<and> held \<and> \<not> sc_ctxDone s then startTerm (now + leaseTTL s) s else s)
         in s\<lparr>sc_pc := Select\<rparr>))"

definition joined :: "Scheduler \<Rightarrow> bool" where
  "joined s = (case sc_term s of None \<Rightarrow> True | Some t \<Rightarrow> te_done t)"

section \<open>The cluster\<close>

text \<open>
  The nodes by their id, the coordination tables, the datastore's clock and the log of the guarded
  write transactions that committed, latest last, each with its node and fence.
\<close>

record cluster =
  cl_node :: "go_string \<Rightarrow> Scheduler"
  cl_db :: coordination
  cl_clock :: int
  cl_log :: "(go_string \<times> int) list"

abbreviation lease_row :: "cluster \<Rightarrow> lease option" where
  "lease_row s \<equiv> map_of (co_leases (cl_db s)) schedulerLeaseName"

abbreviation on_node :: "go_string \<Rightarrow> Scheduler \<Rightarrow> cluster \<Rightarrow> cluster" where
  "on_node n sc s \<equiv> s\<lparr>cl_node := (cl_node s)(n := sc)\<rparr>"

inductive cluster_step :: "cluster \<Rightarrow> cluster \<Rightarrow> bool" where
  advance: "0 \<le> d \<Longrightarrow> cluster_step s (s\<lparr>cl_clock := cl_clock s + d\<rparr>)"
| clocked: "sc_pc (cl_node s n) = Select \<Longrightarrow>
    cluster_step s (on_node n (onClock (Inr (cl_clock s)) (cl_node s n)) s)"
| clock_failed: "sc_pc (cl_node s n) = Select \<Longrightarrow>
    cluster_step s (on_node n (onClock (Inl e) (cl_node s n)) s)"
| renewed: "sc_pc (cl_node s n) = Renewing now \<Longrightarrow>
    Coordination_RenewLease out q topo schedulerLeaseName n (sc_fence (cl_node s n)) now
      (now + leaseTTL (cl_node s n)) (cl_db s) = (answer, db) \<Longrightarrow>
    cluster_step s ((on_node n (onRenew now answer (cl_node s n)) s)\<lparr>cl_db := db\<rparr>)"
| confirmed: "sc_pc (cl_node s n) = Confirming now \<Longrightarrow>
    Coordination_RenewLease out q topo schedulerLeaseName n (sc_fence (cl_node s n)) now
      (now + leaseTTL (cl_node s n)) (cl_db s) = (answer, db) \<Longrightarrow>
    cluster_step s ((on_node n (onConfirm now answer (cl_node s n)) s)\<lparr>cl_db := db\<rparr>)"
| claimed: "sc_pc (cl_node s n) = Claiming now \<Longrightarrow>
    Coordination_ClaimLease out q topo schedulerLeaseName n now
      (now + leaseTTL (cl_node s n)) (cl_db s) = (answer', db) \<Longrightarrow>
    cluster_step s ((on_node n (onClaim now answer' (cl_node s n)) s)\<lparr>cl_db := db\<rparr>)"
| job_write: "sc_term (cl_node s n) = Some t \<Longrightarrow> \<not> te_done t \<Longrightarrow>
    GuardSingletonLease (Some \<lparr>sl_name = schedulerLeaseName, sl_owner = n, sl_fence = te_fence t\<rparr>)
      (cl_clock s) (cl_db s) = None \<Longrightarrow>
    cluster_step s (s\<lparr>cl_log := cl_log s @ [(n, te_fence t)]\<rparr>)"
| term_exits: "sc_term (cl_node s n) = Some t \<Longrightarrow> te_cancelled t \<or> sc_ctxDone (cl_node s n) \<Longrightarrow>
    cluster_step s (on_node n ((cl_node s n)\<lparr>sc_term := Some (t\<lparr>te_done := True\<rparr>)\<rparr>) s)"
| cancelled: "cluster_step s (on_node n ((cl_node s n)\<lparr>sc_ctxDone := True\<rparr>) s)"
| stopping: "sc_pc (cl_node s n) = Select \<Longrightarrow> sc_ctxDone (cl_node s n) \<Longrightarrow>
    cluster_step s (on_node n ((dropLeadership (cl_node s n))\<lparr>sc_pc := Stopping\<rparr>) s)"
| released: "sc_pc (cl_node s n) = Stopping \<Longrightarrow> sc_fence (cl_node s n) \<noteq> 0 \<Longrightarrow> joined (cl_node s n) \<Longrightarrow>
    Coordination_ReleaseLease out schedulerLeaseName n (sc_fence (cl_node s n)) (cl_db s) = (r, db) \<Longrightarrow>
    cluster_step s ((on_node n ((cl_node s n)\<lparr>sc_pc := Stopped\<rparr>) s)\<lparr>cl_db := db\<rparr>)"
| left_to_expire: "sc_pc (cl_node s n) = Stopping \<Longrightarrow>
    cluster_step s (on_node n ((cl_node s n)\<lparr>sc_pc := Stopped\<rparr>) s)"
| restarted: "cluster_step s (on_node n (start_node ttl) s)"
| other_tables: "map_of (co_leases db) schedulerLeaseName = lease_row s \<Longrightarrow> cluster_step s (s\<lparr>cl_db := db\<rparr>)"

definition start_cluster :: "(go_string \<Rightarrow> int) \<Rightarrow> int \<Rightarrow> cluster" where
  "start_cluster ttl clock =
     \<lparr>cl_node = \<lambda>n. start_node (ttl n), cl_db = empty_tables, cl_clock = clock, cl_log = []\<rparr>"

section \<open>What the calls do to the lease\<close>

abbreviation scheduler_lease :: "coordination \<Rightarrow> lease option" where
  "scheduler_lease db \<equiv> map_of (co_leases db) schedulerLeaseName"

lemma tx_RenewLease_cases:
  assumes "map_of (co_leases db) name = row"
  obtains "snd (tx_RenewLease q topo name n f now expires db) = db"
      "fst (tx_RenewLease q topo name n f now expires db) \<noteq> Inr True"
  | l where "row = Some l" "ls_owner l = n" "ls_fence l = f" "now < ls_expires l"
      "tx_RenewLease q topo name n f now expires db =
        (Inr True, db\<lparr>co_leases := AList.update name (l\<lparr>ls_expires := expires\<rparr>) (co_leases db)\<rparr>)"
proof (cases "leaseRefused q topo name n")
  case refused: None
  show ?thesis
  proof (cases row)
    case None
    then show ?thesis using that(1) refused assms by (simp add: tx_RenewLease_def)
  next
    case (Some l)
    show ?thesis
    proof (cases "ls_owner l = n \<and> ls_fence l = f \<and> now < ls_expires l")
      case True
      then show ?thesis using that(2) [OF Some] refused assms Some by (simp add: tx_RenewLease_def)
    next
      case False
      then show ?thesis
        by (intro that(1)) (use refused assms Some in \<open>auto simp: tx_RenewLease_def\<close>)
    qed
  qed
next
  case (Some e)
  then show ?thesis using that(1) by (simp add: tx_RenewLease_def)
qed

lemma renew_lease:
  assumes "Coordination_RenewLease out q topo schedulerLeaseName n f now expires db = (answer, db')"
  obtains "scheduler_lease db' = scheduler_lease db" "answer \<noteq> Inr True"
  | l where "scheduler_lease db = Some l" "ls_owner l = n" "ls_fence l = f" "now < ls_expires l"
      "scheduler_lease db' = Some (l\<lparr>ls_expires := expires\<rparr>)"
proof -
  let ?op = "tx_RenewLease q topo schedulerLeaseName n f now expires"
  have db': "db' = snd (transaction out ?op db)" and answer: "answer = fst (transaction out ?op db)"
    using assms by (simp_all add: Coordination_RenewLease_def)
  show ?thesis
  proof (rule tx_RenewLease_cases [OF refl, where db = db and name = schedulerLeaseName and q = q and topo = topo
        and n = n and f = f and now = now and expires = expires])
    assume "snd (?op db) = db" "fst (?op db) \<noteq> Inr True"
    then show ?thesis
      by (intro that(1)) (simp_all add: db' answer transaction_frame transaction_Inr)
  next
    fix l
    assume l: "scheduler_lease db = Some l" "ls_owner l = n" "ls_fence l = f" "now < ls_expires l"
      and op: "?op db = (Inr True, db\<lparr>co_leases := AList.update schedulerLeaseName (l\<lparr>ls_expires := expires\<rparr>) (co_leases db)\<rparr>)"
    show ?thesis
    proof (cases "out = Committed \<or> out = ReplyLost")
      case True
      then show ?thesis
        by (intro that(2) [OF l]) (simp add: db' transaction_commit [of out ?op, OF _ op] AList.update_conv')
    next
      case False
      then show ?thesis
        by (intro that(1)) (simp_all add: db' answer transaction_abort transaction_Inr)
    qed
  qed
qed

lemma claim_lease:
  assumes "Coordination_ClaimLease out q topo schedulerLeaseName n now expires db = ((got, held, err), db')"
  obtains "scheduler_lease db' = scheduler_lease db" "\<not> (held \<and> err = None)"
  | f where "scheduler_lease db' = Some \<lparr>ls_owner = n, ls_fence = f, ls_acquired = now, ls_expires = expires\<rparr>"
      "got = f" "case scheduler_lease db of None \<Rightarrow> f = 1 | Some l \<Rightarrow> ls_expires l \<le> now \<and> f = ls_fence l + 1"
proof -
  let ?op = "tx_ClaimLease q topo schedulerLeaseName n now expires"
  obtain r c where run: "transaction out ?op db = (r, c)" by (cases "transaction out ?op db")
  have db': "db' = snd (transaction out ?op db)"
    using assms run by (cases r) (auto simp: Coordination_ClaimLease_def)
  have held: "fst (transaction out ?op db) = Inr (got, True)" if "held" "err = None"
    using assms run that by (cases r) (auto simp: Coordination_ClaimLease_def)
  consider (refused) "snd (?op db) = db" "\<And>g. fst (?op db) \<noteq> Inr (g, True)"
    | (taken) f where "?op db = (Inr (f, True), snd (?op db))"
      "scheduler_lease (snd (?op db)) = Some \<lparr>ls_owner = n, ls_fence = f, ls_acquired = now, ls_expires = expires\<rparr>"
      "case scheduler_lease db of None \<Rightarrow> f = 1 | Some l \<Rightarrow> ls_expires l \<le> now \<and> f = ls_fence l + 1"
    by (cases "leaseRefused q topo schedulerLeaseName n = None \<and>
          (case scheduler_lease db of None \<Rightarrow> True | Some l \<Rightarrow> ls_expires l \<le> now)")
       (auto simp: tx_ClaimLease_def Let_def AList.update_conv' split: option.splits)
  then show ?thesis
  proof cases
    case refused
    have "\<not> (held \<and> err = None)" using held refused(2) by (auto simp: transaction_Inr)
    then show ?thesis
      by (intro that(1)) (simp_all add: db' transaction_frame refused(1))
  next
    case taken
    show ?thesis
    proof (cases "out = Committed \<or> out = ReplyLost")
      case True
      then have "got = f" using assms taken(1)
        by (auto simp: Coordination_ClaimLease_def transaction_def split: if_splits prod.splits)
      then show ?thesis
        by (intro that(2) [OF _ _ taken(3)]) (simp_all add: db' transaction_commit [of out ?op, OF True taken(1)] taken(2))
    next
      case False
      then have "\<not> (held \<and> err = None)" using held by (auto simp: transaction_Inr)
      then show ?thesis
        by (intro that(1)) (use False in \<open>simp_all add: db' transaction_abort\<close>)
    qed
  qed
qed

lemma release_lease:
  assumes "Coordination_ReleaseLease out schedulerLeaseName n f db = (r, db')"
  obtains "scheduler_lease db' = scheduler_lease db"
  | l where "scheduler_lease db = Some l" "ls_owner l = n" "ls_fence l = f"
      "scheduler_lease db' = Some (l\<lparr>ls_expires := accountWindow\<rparr>)"
proof -
  have "db' = snd (transaction out (tx_ReleaseLease schedulerLeaseName n f) db)"
    using assms by (simp add: Coordination_ReleaseLease_def)
  then show ?thesis
    using that by (auto simp: transaction_state tx_ReleaseLease_def AList.update_conv' split: option.splits if_splits)
qed


section \<open>Leadership\<close>

text \<open>A node that leads and has not reached the deadline of its last good lease.\<close>

definition leads :: "go_string \<Rightarrow> cluster \<Rightarrow> bool" where
  "leads n s \<longleftrightarrow> sc_leader (cl_node s n) \<and> cl_clock s < sc_expiresAt (cl_node s n)"

definition node_ok :: "int \<Rightarrow> Scheduler \<Rightarrow> bool" where
  "node_ok clock s \<longleftrightarrow>
     (case sc_pc s of
        Select \<Rightarrow> True
      | Renewing now \<Rightarrow> now \<le> clock
      | Confirming now \<Rightarrow> now \<le> clock \<and> \<not> sc_leader s
      | Claiming now \<Rightarrow> now \<le> clock \<and> \<not> sc_leader s
      | _ \<Rightarrow> \<not> sc_leader s)"

definition holds :: "go_string \<Rightarrow> cluster \<Rightarrow> bool" where
  "holds n s \<longleftrightarrow> (\<exists>l. lease_row s = Some l \<and> ls_owner l = n \<and> ls_fence l = sc_fence (cl_node s n) \<and>
     sc_expiresAt (cl_node s n) \<le> ls_expires l)"

definition logged :: "lease option \<Rightarrow> (go_string \<times> int) list \<Rightarrow> bool" where
  "logged row log \<longleftrightarrow> sorted (map snd log) \<and>
     (\<forall>m n f. (m, f) \<in> set log \<longrightarrow> (n, f) \<in> set log \<longrightarrow> m = n) \<and>
     (\<forall>(m, f) \<in> set log. \<exists>l. row = Some l \<and> f \<le> ls_fence l \<and> (f = ls_fence l \<longrightarrow> m = ls_owner l))"

definition cluster_ok :: "cluster \<Rightarrow> bool" where
  "cluster_ok s \<longleftrightarrow> (\<forall>n. node_ok (cl_clock s) (cl_node s n)) \<and> (\<forall>n. leads n s \<longrightarrow> holds n s) \<and>
     (\<forall>l. lease_row s = Some l \<longrightarrow> 1 \<le> ls_fence l) \<and> logged (lease_row s) (cl_log s)"

lemma dropLeadership_simps [simp]:
  "sc_leader (dropLeadership s) = False" "sc_fence (dropLeadership s) = sc_fence s"
  "sc_expiresAt (dropLeadership s) = sc_expiresAt s" "sc_pc (dropLeadership s) = sc_pc s"
  by (simp_all add: dropLeadership_def)

lemma termDraining_simps [simp]:
  "sc_leader (snd (termDraining s)) = sc_leader s" "sc_fence (snd (termDraining s)) = sc_fence s"
  "sc_expiresAt (snd (termDraining s)) = sc_expiresAt s"
  by (auto simp: termDraining_def split: option.split)

lemma startTerm_simps [simp]:
  "sc_leader (startTerm e s)" "sc_fence (startTerm e s) = sc_fence s" "sc_expiresAt (startTerm e s) = e"
  "sc_pc (startTerm e s) = sc_pc s" "sc_ctxDone (startTerm e s) = sc_ctxDone s"
  by (simp_all add: startTerm_def)

lemma afterRenew_unfold:
  "afterRenew now s =
     (if sc_ctxDone s \<or> sc_leader s \<or> fst (termDraining s)
      then (if sc_ctxDone s \<or> sc_leader s then s else snd (termDraining s))\<lparr>sc_pc := Select\<rparr>
      else (snd (termDraining s))\<lparr>sc_pc := (if sc_unconfirmedClaim (snd (termDraining s))
        then Confirming now else Claiming now)\<rparr>)"
  by (cases "termDraining s") (auto simp: afterRenew_def split: bool.split)

lemma afterRenew_simps [simp]:
  "sc_leader (afterRenew now s) = sc_leader s" "sc_fence (afterRenew now s) = sc_fence s"
  "sc_expiresAt (afterRenew now s) = sc_expiresAt s"
  by (simp_all add: afterRenew_unfold)

lemma node_ok_frame [simp]:
  "node_ok clock (s\<lparr>sc_term := x\<rparr>) = node_ok clock s" "node_ok clock (s\<lparr>sc_ctxDone := y\<rparr>) = node_ok clock s"
  by (cases "sc_pc s"; simp add: node_ok_def)+

lemma afterRenew_ok: "now \<le> clock \<Longrightarrow> node_ok clock (afterRenew now s)"
  by (simp add: afterRenew_unfold node_ok_def)

lemma node_ok_steps:
  "node_ok clock (onClock (Inr clock) s)"
  "node_ok clock (onClock (Inl e) s)"
  "now \<le> clock \<Longrightarrow> node_ok clock (onRenew now answer s)"
  "now \<le> clock \<Longrightarrow> node_ok clock (onConfirm now answer s)"
  "node_ok clock (onClaim now answer' s)"
  "node_ok clock (start_node ttl)"
  by (simp_all add: onClock_def Let_def afterRenew_ok onRenew_def split: prod.split)
     (simp_all add: node_ok_def onConfirm_def onClaim_def start_node_def Let_def split: prod.split)

lemma leader_onClock:
  "sc_leader (onClock answer s) \<Longrightarrow> sc_leader s \<and> sc_expiresAt (onClock answer s) = sc_expiresAt s \<and>
     sc_fence (onClock answer s) = sc_fence s"
  by (auto simp: onClock_def Let_def split: sum.splits if_splits)

lemma leader_onRenew:
  "sc_leader (onRenew now answer s) \<Longrightarrow> answer = Inr True \<and> sc_expiresAt (onRenew now answer s) = now + leaseTTL s \<and>
     sc_fence (onRenew now answer s) = sc_fence s"
  by (auto simp: onRenew_def split: sum.splits if_splits)

lemma leader_onConfirm:
  "sc_leader (onConfirm now answer s) \<Longrightarrow> \<not> sc_leader s \<Longrightarrow>
     answer = Inr True \<and> sc_expiresAt (onConfirm now answer s) = now + leaseTTL s \<and>
     sc_fence (onConfirm now answer s) = sc_fence s"
  by (auto simp: onConfirm_def Let_def split: sum.splits if_splits)

lemma leader_onClaim:
  "sc_leader (onClaim now (got, held, err) s) \<Longrightarrow> \<not> sc_leader s \<Longrightarrow> got \<noteq> 0 \<Longrightarrow>
     held \<and> err = None \<and> sc_expiresAt (onClaim now (got, held, err) s) = now + leaseTTL s \<and>
     sc_fence (onClaim now (got, held, err) s) = got"
  by (auto simp: onClaim_def Let_def leaseTTL_def split: if_splits)


lemma logged_expires: "logged (Some l) log \<Longrightarrow> logged (Some (l\<lparr>ls_expires := e\<rparr>)) log"
  by (simp add: logged_def)

lemma logged_next:
  assumes "logged row log" "case row of None \<Rightarrow> True | Some l \<Rightarrow> ls_fence l < ls_fence l'"
  shows "logged (Some l') log"
proof -
  have "f < ls_fence l'" if "(m, f) \<in> set log" for m f
    using assms that unfolding logged_def by (auto split: option.splits)
  then have "\<forall>(m, f) \<in> set log. f \<le> ls_fence l' \<and> (f = ls_fence l' \<longrightarrow> m = ls_owner l')"
    by fastforce
  then show ?thesis using assms(1) unfolding logged_def by simp
qed

lemma logged_snoc:
  assumes "logged (Some l) log" "ls_owner l = n" "ls_fence l = f"
  shows "logged (Some l) (log @ [(n, f)])"
proof -
  have below: "g \<le> f \<and> (g = f \<longrightarrow> m = n)" if "(m, g) \<in> set log" for m g
    using assms that unfolding logged_def by fastforce
  then have "sorted (map snd log @ [f])"
    using assms(1) unfolding logged_def by (auto simp: sorted_append)
  moreover have "(a, g) \<in> set (log @ [(n, f)]) \<longrightarrow> (b, g) \<in> set (log @ [(n, f)]) \<longrightarrow> a = b" for a b g
    using below assms(1) unfolding logged_def by (simp; blast)
  ultimately show ?thesis using assms unfolding logged_def by auto
qed

lemma cluster_okD:
  assumes "cluster_ok s"
  shows "node_ok (cl_clock s) (cl_node s n)" "leads n s \<Longrightarrow> holds n s"
    "lease_row s = Some l \<Longrightarrow> 1 \<le> ls_fence l" "logged (lease_row s) (cl_log s)"
  using assms unfolding cluster_ok_def by blast+

lemma leads_owner: "cluster_ok s \<Longrightarrow> leads n s \<Longrightarrow> lease_row s = Some l \<Longrightarrow>
    ls_owner l = n \<and> ls_fence l = sc_fence (cl_node s n) \<and> sc_expiresAt (cl_node s n) \<le> ls_expires l"
  using cluster_okD(2) [of s n] by (auto simp: holds_def)

text \<open>A step of one node that leaves the lease as it is.\<close>

lemma step_same_lease:
  assumes ok: "cluster_ok s" and row: "scheduler_lease db = lease_row s"
    and node: "node_ok (cl_clock s) sc"
    and own: "sc_leader sc \<Longrightarrow> sc_leader (cl_node s n) \<and> sc_expiresAt sc = sc_expiresAt (cl_node s n) \<and>
      sc_fence sc = sc_fence (cl_node s n)"
  shows "cluster_ok ((on_node n sc s)\<lparr>cl_db := db\<rparr>)" (is "cluster_ok ?s'")
proof -
  have "leads m ?s' \<longrightarrow> holds m ?s'" for m
    using cluster_okD(2) [OF ok, of m] own row by (auto simp: leads_def holds_def)
  moreover have "node_ok (cl_clock ?s') (cl_node ?s' m)" for m
    using cluster_okD(1) [OF ok, of m] node by simp
  ultimately show ?thesis
    using ok row unfolding cluster_ok_def by auto
qed

text \<open>A step of one node that writes the lease while no other node leads.\<close>

lemma step_new_lease:
  assumes ok: "cluster_ok s" and row: "scheduler_lease db = Some l" "1 \<le> ls_fence l"
    and node: "node_ok (cl_clock s) sc" and log: "logged (Some l) (cl_log s)"
    and others: "\<And>m. m \<noteq> n \<Longrightarrow> \<not> leads m s"
    and own: "sc_leader sc \<Longrightarrow> cl_clock s < sc_expiresAt sc \<Longrightarrow>
      ls_owner l = n \<and> ls_fence l = sc_fence sc \<and> sc_expiresAt sc \<le> ls_expires l"
  shows "cluster_ok ((on_node n sc s)\<lparr>cl_db := db\<rparr>)" (is "cluster_ok ?s'")
proof -
  have "leads m ?s' \<longrightarrow> holds m ?s'" for m
    using others [of m] own row(1) by (auto simp: leads_def holds_def)
  moreover have "node_ok (cl_clock ?s') (cl_node ?s' m)" for m
    using cluster_okD(1) [OF ok, of m] node by simp
  ultimately show ?thesis
    using row log unfolding cluster_ok_def by auto
qed

lemma same_db: "(on_node n sc s)\<lparr>cl_db := cl_db s\<rparr> = on_node n sc s"
  by simp

lemmas step_node = step_same_lease [OF _ refl, unfolded same_db]


lemma renew_step:
  assumes ok: "cluster_ok s"
    and call: "Coordination_RenewLease out q topo schedulerLeaseName n (sc_fence (cl_node s n)) now expires (cl_db s) =
      (answer, db)"
    and node: "node_ok (cl_clock s) sc"
    and own: "sc_leader sc \<Longrightarrow> answer = Inr True \<and> sc_expiresAt sc = expires \<and> sc_fence sc = sc_fence (cl_node s n)"
  shows "cluster_ok ((on_node n sc s)\<lparr>cl_db := db\<rparr>)"
  using call
proof (rule renew_lease)
  assume row: "scheduler_lease db = lease_row s" and "answer \<noteq> Inr True"
  then show ?thesis using own by (intro step_same_lease [OF ok row node]) auto
next
  fix l
  assume l: "lease_row s = Some l" "ls_owner l = n" "ls_fence l = sc_fence (cl_node s n)"
    and row: "scheduler_lease db = Some (l\<lparr>ls_expires := expires\<rparr>)"
  have "\<not> leads m s" if "m \<noteq> n" for m
    using leads_owner [OF ok _ l(1)] l(2) that by blast
  moreover have "logged (Some (l\<lparr>ls_expires := expires\<rparr>)) (cl_log s)"
    using cluster_okD(4) [OF ok] l(1) by (intro logged_expires) simp
  ultimately show ?thesis
    using own l cluster_okD(3) [OF ok l(1)] by (intro step_new_lease [OF ok row _ node]) auto
qed

lemma claim_step:
  assumes ok: "cluster_ok s" and idle: "\<not> sc_leader (cl_node s n)" "now \<le> cl_clock s"
    and call: "Coordination_ClaimLease out q topo schedulerLeaseName n now (now + leaseTTL (cl_node s n)) (cl_db s) =
      (answer, db)"
  shows "cluster_ok ((on_node n (onClaim now answer (cl_node s n)) s)\<lparr>cl_db := db\<rparr>)"
proof -
  let ?sc = "onClaim now answer (cl_node s n)"
  obtain got held err where answer: "answer = (got, held, err)" by (cases answer)
  have node: "node_ok (cl_clock s) ?sc" by (rule node_ok_steps)
  show ?thesis
  proof (rule claim_lease [OF call [unfolded answer]])
    assume row: "scheduler_lease db = lease_row s" and "\<not> (held \<and> err = None)"
    then have "\<not> sc_leader ?sc"
      using idle(1) answer by (auto simp: onClaim_def Let_def)
    then show ?thesis by (intro step_same_lease [OF ok row node]) simp
  next
    fix f
    assume row: "scheduler_lease db = Some \<lparr>ls_owner = n, ls_fence = f, ls_acquired = now,
        ls_expires = now + leaseTTL (cl_node s n)\<rparr>" and got: "got = f"
      and old: "case lease_row s of None \<Rightarrow> f = 1 | Some l \<Rightarrow> ls_expires l \<le> now \<and> f = ls_fence l + 1"
    have f: "1 \<le> f" using old cluster_okD(3) [OF ok] by (fastforce split: option.splits)
    have others: "\<not> leads m s" for m
    proof
      assume m: "leads m s"
      then obtain l where l: "lease_row s = Some l" "sc_expiresAt (cl_node s m) \<le> ls_expires l"
        using cluster_okD(2) [OF ok, of m] by (auto simp: holds_def)
      then show False using m old idle(2) by (simp add: leads_def)
    qed
    have "logged (Some \<lparr>ls_owner = n, ls_fence = f, ls_acquired = now,
        ls_expires = now + leaseTTL (cl_node s n)\<rparr>) (cl_log s)"
      using cluster_okD(4) [OF ok] by (rule logged_next) (use old in \<open>auto split: option.splits\<close>)
    then show ?thesis
      using f others leader_onClaim [of now got held err "cl_node s n"] got idle(1) answer
      by (intro step_new_lease [OF ok row _ node]) auto
  qed
qed

lemma cluster_step_ok: "cluster_step s s' \<Longrightarrow> cluster_ok s \<Longrightarrow> cluster_ok s'"
proof (induction rule: cluster_step.induct)
  case (advance d s)
  have "node_ok (cl_clock s + d) (cl_node s n)" for n
    using cluster_okD(1) [OF advance(2), of n] advance(1) by (auto simp: node_ok_def split: pc.splits)
  moreover have "leads n s" if "leads n (s\<lparr>cl_clock := cl_clock s + d\<rparr>)" for n
    using that advance(1) by (simp add: leads_def)
  ultimately show ?case
    using advance(2) by (auto simp: cluster_ok_def holds_def)
next
  case (clocked s n)
  then show ?case by (intro step_node node_ok_steps leader_onClock)
next
  case (clock_failed s n e)
  then show ?case by (intro step_node node_ok_steps leader_onClock)
next
  case (renewed s n now out q topo answer db)
  have "now \<le> cl_clock s"
    using cluster_okD(1) [OF renewed(3), of n] renewed(1) by (simp add: node_ok_def)
  then show ?case
    using renew_step [OF renewed(3,2) node_ok_steps(3) leader_onRenew] by blast
next
  case (confirmed s n now out q topo answer db)
  have "now \<le> cl_clock s" "\<not> sc_leader (cl_node s n)"
    using cluster_okD(1) [OF confirmed(3), of n] confirmed(1) by (simp_all add: node_ok_def)
  then show ?case
    using renew_step [OF confirmed(3,2) node_ok_steps(4) leader_onConfirm] by blast
next
  case (claimed s n now out q topo answer' db)
  have "now \<le> cl_clock s" "\<not> sc_leader (cl_node s n)"
    using cluster_okD(1) [OF claimed(3), of n] claimed(1) by (simp_all add: node_ok_def)
  then show ?case using claim_step [OF claimed(3) _ _ claimed(2)] by blast
next
  case (job_write s n t)
  then obtain l where "lease_row s = Some l" "ls_owner l = n" "ls_fence l = te_fence t"
    by (auto simp: GuardSingletonLease_def split: option.splits if_splits)
  then have "logged (lease_row s) (cl_log s @ [(n, te_fence t)])"
    using logged_snoc cluster_okD(4) [OF job_write(4)] by auto
  then show ?case using job_write(4) by (auto simp: cluster_ok_def leads_def holds_def)
next
  case (term_exits s n t)
  then show ?case
    using cluster_okD(1) [OF term_exits(3), of n] by (intro step_node) simp_all
next
  case (cancelled s n)
  then show ?case
    using cluster_okD(1) [OF cancelled(1), of n] by (intro step_node) simp_all
next
  case (stopping s n)
  then show ?case by (intro step_node) (auto simp: node_ok_def)
next
  case (released s n out r db)
  have idle: "\<not> sc_leader (cl_node s n)"
    using cluster_okD(1) [OF released(5), of n] released(1) by (simp add: node_ok_def)
  from released(4) show ?case
  proof (rule release_lease)
    assume "scheduler_lease db = lease_row s"
    then show ?thesis using idle by (intro step_same_lease [OF released(5)]) (auto simp: node_ok_def)
  next
    fix l
    assume l: "lease_row s = Some l" "ls_owner l = n"
      and row: "scheduler_lease db = Some (l\<lparr>ls_expires := accountWindow\<rparr>)"
    have "\<not> leads m s" if "m \<noteq> n" for m
      using leads_owner [OF released(5) _ l(1)] l(2) that by blast
    moreover have "logged (Some (l\<lparr>ls_expires := accountWindow\<rparr>)) (cl_log s)"
      using cluster_okD(4) [OF released(5)] l(1) by (intro logged_expires) simp
    ultimately show ?thesis
      using idle l cluster_okD(3) [OF released(5) l(1)]
      by (intro step_new_lease [OF released(5) row]) (auto simp: node_ok_def)
  qed
next
  case (left_to_expire s n)
  have "\<not> sc_leader (cl_node s n)"
    using cluster_okD(1) [OF left_to_expire(2), of n] left_to_expire(1) by (simp add: node_ok_def)
  then show ?case using left_to_expire by (intro step_node) (auto simp: node_ok_def)
next
  case (restarted s n ttl)
  then show ?case by (intro step_node node_ok_steps) (auto simp: start_node_def)
next
  case (other_tables db s)
  then show ?case by (simp add: cluster_ok_def leads_def holds_def)
qed

lemma reachable_ok: "cluster_step\<^sup>*\<^sup>* (start_cluster ttl clock) s \<Longrightarrow> cluster_ok s"
proof (induction rule: rtranclp_induct)
  case base
  show ?case
    by (simp add: cluster_ok_def leads_def start_cluster_def empty_tables_def logged_def node_ok_def start_node_def)
qed (rule cluster_step_ok)


text \<open>
  C19: no split brain: however the nodes' heartbeats interleave, whatever datastore calls fail, roll back or lose
  their reply, and whenever nodes pause, stop or restart, while one node leads within the deadline it
  knows of, no other node does, and no other node's term can commit a write.
\<close>

theorem no_split_brain:
  assumes "cluster_step\<^sup>*\<^sup>* (start_cluster ttl clock) s" "leads m s"
  shows "(leads n s \<longrightarrow> n = m) \<and>
    (GuardSingletonLease (Some \<lparr>sl_name = schedulerLeaseName, sl_owner = n, sl_fence = f\<rparr>) (cl_clock s) (cl_db s) = None
      \<longrightarrow> n = m \<and> f = sc_fence (cl_node s m))"
proof -
  note ok = reachable_ok [OF assms(1)]
  obtain l where "lease_row s = Some l"
    using cluster_okD(2) [OF ok assms(2)] by (auto simp: holds_def)
  then show ?thesis
    using leads_owner [OF ok assms(2)] leads_owner [OF ok, of n]
    by (auto simp: GuardSingletonLease_def split: if_splits)
qed

text \<open>
  C20: the fence orders the terms: in the log of the committed writes of the scheduler's jobs the fence never
  decreases and two writes under one fence come from one node, so once a later term has written, no paused
  leader of an earlier term writes again.
\<close>

theorem fenced_writes:
  assumes "cluster_step\<^sup>*\<^sup>* (start_cluster ttl clock) s"
  shows "sorted (map snd (cl_log s)) \<and>
    (\<forall>m n f. (m, f) \<in> set (cl_log s) \<longrightarrow> (n, f) \<in> set (cl_log s) \<longrightarrow> m = n)"
  using cluster_okD(4) [OF reachable_ok [OF assms]] unfolding logged_def by blast


















section \<open>A sample run\<close>

definition sample_clocked :: cluster where
  "sample_clocked = (let s = start_cluster (\<lambda>_. 0) 100 in on_node ''a'' (onClock (Inr (cl_clock s)) (cl_node s ''a'')) s)"

definition sample_claim :: "(int \<times> bool \<times> coord_error option) \<times> coordination" where
  "sample_claim = Coordination_ClaimLease Committed
     \<lparr>cq_engine = EnginePostgres, cq_runtimeNodeID = ''a'', cq_runtimeTemplateStamp = ''t''\<rparr> (Inr None)
     schedulerLeaseName ''a'' 100 (100 + leaseTTL (cl_node sample_clocked ''a'')) (cl_db sample_clocked)"

definition sample_leader :: cluster where
  "sample_leader = (on_node ''a'' (onClaim 100 (fst sample_claim) (cl_node sample_clocked ''a'')) sample_clocked)
     \<lparr>cl_db := snd sample_claim\<rparr>"

definition sample_written :: cluster where
  "sample_written = sample_leader\<lparr>cl_log := cl_log sample_leader @ [(''a'', 1)]\<rparr>"

lemma sample_clocked_reached: "cluster_step\<^sup>*\<^sup>* (start_cluster (\<lambda>_. 0) 100) sample_clocked"
  unfolding sample_clocked_def Let_def
  by (rule r_into_rtranclp, rule cluster_step.clocked) (simp add: start_cluster_def start_node_def)

lemma sample_leader_reached: "cluster_step\<^sup>*\<^sup>* (start_cluster (\<lambda>_. 0) 100) sample_leader"
proof -
  have "sc_pc (cl_node sample_clocked ''a'') = Claiming 100" by code_simp
  then have "cluster_step sample_clocked sample_leader"
    unfolding sample_leader_def using surjective_pairing [of sample_claim]
    by (rule cluster_step.claimed [OF _ sample_claim_def [symmetric, THEN trans]])
  then show ?thesis using sample_clocked_reached by (rule rtranclp.rtrancl_into_rtrancl [rotated])
qed

lemma sample_written_reached: "cluster_step\<^sup>*\<^sup>* (start_cluster (\<lambda>_. 0) 100) sample_written"
proof -
  obtain t where "sc_term (cl_node sample_leader ''a'') = Some t" "\<not> te_done t" "te_fence t = 1"
    by (rule that [of "\<lparr>te_fence = 1, te_cancelled = False, te_done = False\<rparr>"]) (code_simp | simp)+
  moreover have "GuardSingletonLease (Some \<lparr>sl_name = schedulerLeaseName, sl_owner = ''a'', sl_fence = 1\<rparr>)
      (cl_clock sample_leader) (cl_db sample_leader) = None" by code_simp
  ultimately have "cluster_step sample_leader sample_written"
    using cluster_step.job_write [of sample_leader "''a''" t] by (simp add: sample_written_def)
  with sample_leader_reached show ?thesis by (rule rtranclp.rtrancl_into_rtrancl)
qed

theorem no_split_brain_witness: "leads ''a'' sample_leader \<and> \<not> leads ''b'' sample_leader"
proof -
  have "leads ''a'' sample_leader" by code_simp
  then show ?thesis using no_split_brain [OF sample_leader_reached, of "''a''" "''b''"] by auto
qed

theorem fenced_writes_witness: "cl_log sample_written = [(''a'', 1)] \<and> sorted (map snd (cl_log sample_written))"
  using fenced_writes [OF sample_written_reached]
  by (simp add: sample_written_def sample_leader_def sample_clocked_def start_cluster_def Let_def)



end
