(* ===== verification/Transactions.thy ===== *)
theory Transactions
  imports Authz Coordination
begin

text \<open>
  \<open>internal/store/tx/tx.go\<close>: the transaction boundary. An attempt begins a transaction, checks the
  singleton lease its context carries, runs the caller's closure with a fresh authorizer, commits or
  rolls back, and makes the captured denials durable before its outcome is answered; a transient failure
  retries the whole attempt. The closure is an argument, as is what the database answers to each attempt
  (the records \<open>attempt_env\<close> and \<open>flush_env\<close>) and whether the deadline fired during a backoff. The data
  behind the repositories is a type variable. An error is what \<open>errors.Is\<close> and \<open>errors.As\<close> find in its
  chain: \<open>fmt.Errorf\<close> with \<open>%w\<close> keeps that, with \<open>%v\<close> it does not.
\<close>

record go_error =
  er_retrySerialization :: bool
  er_pgCode :: "go_string option"
  er_sqliteCode :: "nat option"
  er_authz :: "authz_error option"
  er_leaseLost :: bool

definition plain_error :: go_error where
  "plain_error = \<lparr>er_retrySerialization = False, er_pgCode = None, er_sqliteCode = None, er_authz = None,
     er_leaseLost = False\<rparr>"

definition attempts :: nat where "attempts = 4"

definition SQLITE_BUSY :: nat where "SQLITE_BUSY = 5"
definition SQLITE_LOCKED :: nat where "SQLITE_LOCKED = 6"

definition retryable :: "Engine \<Rightarrow> go_error \<Rightarrow> bool" where
  "retryable engine err =
     (if er_retrySerialization err then True
      else if engine = EnginePostgres then er_pgCode err = Some ''40001'' \<or> er_pgCode err = Some ''40P01''
      else (case er_sqliteCode err of
              None \<Rightarrow> False
            | Some code \<Rightarrow> code mod 256 = SQLITE_BUSY \<or> code mod 256 = SQLITE_LOCKED))"

text \<open>
  \<open>retryLoop\<close> with the number of attempts left, the index of this attempt and the last error; both the
  exhaustion and the deadline wrap the last error.
\<close>

fun retryFrom ::
  "Engine \<Rightarrow> (nat \<Rightarrow> bool) \<Rightarrow> (nat \<Rightarrow> 's \<Rightarrow> (go_error + 'r) \<times> 's) \<Rightarrow> nat \<Rightarrow> nat \<Rightarrow> go_error \<Rightarrow> 's
     \<Rightarrow> (go_error + 'r) \<times> 's" where
  "retryFrom engine expired attemptFn 0 attempt last_err s = (Inl last_err, s)"
| "retryFrom engine expired attemptFn (Suc left) attempt last_err s =
     (if attempt > 0 \<and> expired attempt then (Inl last_err, s)
      else (case attemptFn attempt s of
              (Inr v, s') \<Rightarrow> (Inr v, s')
            | (Inl err, s') \<Rightarrow>
                (if \<not> retryable engine err then (Inl err, s')
                 else retryFrom engine expired attemptFn left (attempt + 1) err s')))"

definition retryLoop ::
  "Engine \<Rightarrow> (nat \<Rightarrow> bool) \<Rightarrow> (nat \<Rightarrow> 's \<Rightarrow> (go_error + 'r) \<times> 's) \<Rightarrow> 's \<Rightarrow> (go_error + 'r) \<times> 's" where
  "retryLoop engine expired attemptFn s = retryFrom engine expired attemptFn attempts 0 plain_error s"

section \<open>Attempts\<close>

text \<open>
  The committed data, the durable denial records, the next token and the dead ones, and the number of
  closures that were committed (a count of the model only). A commit succeeds, fails with the transaction
  rolled back, or takes effect while its reply is lost.
\<close>

record 'd world =
  wd_data :: 'd
  wd_trail :: "Denial list"
  wd_nextTok :: TxToken
  wd_dead :: "TxToken set"
  wd_commits :: nat

datatype commit_result = CommitOK | CommitFailed go_error | CommitLost go_error

record flush_env =
  fe_begin :: "go_error option"
  fe_write :: "Denial \<Rightarrow> go_error option"
  fe_commit :: commit_result

record attempt_env =
  ae_begin :: "go_error option"
  ae_guard :: "go_error option"
  ae_lease :: "singletonLease option"
  ae_clock :: int
  ae_tables :: coordination
  ae_commit :: commit_result
  ae_flush :: "nat \<Rightarrow> flush_env"
  ae_flush_expired :: "nat \<Rightarrow> bool"

type_synonym ('d, 'r) WriteFn = "nat \<Rightarrow> 'd \<Rightarrow> TxAuthorizer \<Rightarrow> (go_error + 'r) \<times> 'd \<times> TxAuthorizer"

fun write_denials :: "(Denial \<Rightarrow> go_error option) \<Rightarrow> Denial list \<Rightarrow> go_error option" where
  "write_denials w [] = None"
| "write_denials w (d # ds) = (case w d of Some e \<Rightarrow> Some e | None \<Rightarrow> write_denials w ds)"

definition flushOnce :: "flush_env \<Rightarrow> Denial list \<Rightarrow> 'd world \<Rightarrow> (go_error + unit) \<times> 'd world" where
  "flushOnce env denials w =
     (case fe_begin env of
        Some e \<Rightarrow> (Inl e, w)
      | None \<Rightarrow>
          (case write_denials (fe_write env) denials of
             Some e \<Rightarrow> (Inl e, w)
           | None \<Rightarrow>
               (case fe_commit env of
                  CommitOK \<Rightarrow> (Inr (), w\<lparr>wd_trail := wd_trail w @ denials\<rparr>)
                | CommitFailed e \<Rightarrow> (Inl e, w)
                | CommitLost e \<Rightarrow> (Inl e, w\<lparr>wd_trail := wd_trail w @ denials\<rparr>))))"

definition settleDenials ::
  "Engine \<Rightarrow> attempt_env \<Rightarrow> TxAuthorizer \<Rightarrow> go_error + 'r \<Rightarrow> 'd world \<Rightarrow> (go_error + 'r) \<times> 'd world" where
  "settleDenials engine env az outcome w =
     (if (case outcome of Inl e \<Rightarrow> retryable engine e | Inr _ \<Rightarrow> False) then (outcome, w)
      else if ta_captureErr az then (Inl plain_error, w)
      else if ta_denials az = [] then (outcome, w)
      else (case retryLoop engine (ae_flush_expired env) (\<lambda>i. flushOnce (ae_flush env i) (ta_denials az)) w of
              (Inl e, w) \<Rightarrow> (Inl e, w)
            | (Inr _, w) \<Rightarrow> (outcome, w)))"

definition NewTxAuthorizer :: "TxToken \<Rightarrow> TxAuthorizer" where
  "NewTxAuthorizer tok =
     \<lparr>ta_tok = tok, ta_denials = [], ta_captureErr = False, ta_object = \<lparr>ob_Type = [], ob_ID = []\<rparr>\<rparr>"

text \<open>
  The guard: \<open>ae_guard\<close> is the error of its statement. Without a lease in the context nothing is asked.
\<close>

definition guardLease :: "attempt_env \<Rightarrow> go_error option" where
  "guardLease env =
     (if ae_lease env = None then None
      else (case ae_guard env of
              Some e \<Rightarrow> Some e
            | None \<Rightarrow>
                (case GuardSingletonLease (ae_lease env) (ae_clock env) (ae_tables env) of
                   Some _ \<Rightarrow> Some (plain_error\<lparr>er_leaseLost := True\<rparr>)
                 | None \<Rightarrow> None)))"

definition finish :: "commit_result \<Rightarrow> 'r \<Rightarrow> 'd \<Rightarrow> 'd world \<Rightarrow> (go_error + 'r) \<times> 'd world" where
  "finish c v d w =
     (let done = w\<lparr>wd_data := d, wd_commits := wd_commits w + 1\<rparr> in
      case c of CommitOK \<Rightarrow> (Inr v, done) | CommitFailed e \<Rightarrow> (Inl e, w) | CommitLost e \<Rightarrow> (Inl e, done))"

definition runTransaction ::
  "attempt_env \<Rightarrow> TxToken \<Rightarrow> ('d, 'r) WriteFn \<Rightarrow> nat \<Rightarrow> 'd world
     \<Rightarrow> (TxAuthorizer option \<times> (go_error + 'r)) \<times> 'd world" where
  "runTransaction env tok fn i w =
     (case guardLease env of
        Some e \<Rightarrow> ((None, Inl e), w)
      | None \<Rightarrow>
          (case fn i (wd_data w) (NewTxAuthorizer tok) of
             (Inl e, _, az) \<Rightarrow> ((Some az, Inl e), w)
           | (Inr v, d, az) \<Rightarrow> (case finish (ae_commit env) v d w of (outcome, w) \<Rightarrow> ((Some az, outcome), w))))"

definition settled ::
  "Engine \<Rightarrow> attempt_env \<Rightarrow> (TxAuthorizer option \<times> (go_error + 'r)) \<times> 'd world \<Rightarrow> (go_error + 'r) \<times> 'd world" where
  "settled engine env r =
     (case r of
        ((None, outcome), w) \<Rightarrow> (outcome, w)
      | ((Some az, outcome), w) \<Rightarrow> settleDenials engine env az outcome w)"

definition withToken :: "(TxToken \<Rightarrow> 'd world \<Rightarrow> (go_error + 'r) \<times> 'd world) \<Rightarrow> 'd world \<Rightarrow> (go_error + 'r) \<times> 'd world" where
  "withToken body w =
     (let tok = wd_nextTok w; (outcome, w) = body tok (w\<lparr>wd_nextTok := tok + 1\<rparr>)
      in (outcome, w\<lparr>wd_dead := Invalidate tok (wd_dead w)\<rparr>))"

definition writeOnce ::
  "Engine \<Rightarrow> (nat \<Rightarrow> attempt_env) \<Rightarrow> ('d, 'r) WriteFn \<Rightarrow> nat \<Rightarrow> 'd world \<Rightarrow> (go_error + 'r) \<times> 'd world" where
  "writeOnce engine envs fn i w =
     withToken (\<lambda>tok w.
       (case ae_begin (envs i) of
          Some e \<Rightarrow> (Inl e, w)
        | None \<Rightarrow> settled engine (envs i) (runTransaction (envs i) tok fn i w))) w"

text \<open>The serialized variant takes the advisory lock with its begin, before the token is minted.\<close>

definition writePostgresSerializedOnce ::
  "(nat \<Rightarrow> attempt_env) \<Rightarrow> ('d, 'r) WriteFn \<Rightarrow> nat \<Rightarrow> 'd world \<Rightarrow> (go_error + 'r) \<times> 'd world" where
  "writePostgresSerializedOnce envs fn i w =
     (case ae_begin (envs i) of
        Some e \<Rightarrow> (Inl e, w)
      | None \<Rightarrow> withToken (\<lambda>tok w. settled EnginePostgres (envs i) (runTransaction (envs i) tok fn i w)) w)"

text \<open>A read attempt has no guard, and its closure reaches no writing repository.\<close>

definition readOnce ::
  "Engine \<Rightarrow> (nat \<Rightarrow> attempt_env) \<Rightarrow> (nat \<Rightarrow> 'd \<Rightarrow> TxAuthorizer \<Rightarrow> (go_error + unit) \<times> TxAuthorizer) \<Rightarrow> nat
     \<Rightarrow> 'd world \<Rightarrow> (go_error + unit) \<times> 'd world" where
  "readOnce engine envs fn i w =
     withToken (\<lambda>tok w.
       (case ae_begin (envs i) of
          Some e \<Rightarrow> (Inl e, w)
        | None \<Rightarrow>
            (case fn i (wd_data w) (NewTxAuthorizer tok) of
               (Inl e, az) \<Rightarrow> settleDenials engine (envs i) az (Inl e) w
             | (Inr u, az) \<Rightarrow>
                 settleDenials engine (envs i) az
                   (case ae_commit (envs i) of CommitOK \<Rightarrow> Inr u | CommitFailed e \<Rightarrow> Inl e | CommitLost e \<Rightarrow> Inl e)
                   w))) w"

section \<open>The entry points\<close>

text \<open>The advisory-lock key of a name: the 32-bit FNV-1a hash, read as a signed number.\<close>

definition serializationKey :: "go_string \<Rightarrow> int" where
  "serializationKey name =
     sint (foldl (\<lambda>h c. xor h (of_nat (of_char c)) * 16777619) (2166136261 :: 32 word) name)"

definition WriteResult ::
  "Engine \<Rightarrow> (nat \<Rightarrow> bool) \<Rightarrow> (nat \<Rightarrow> attempt_env) \<Rightarrow> ('d, 'r) WriteFn \<Rightarrow> 'd world \<Rightarrow> (go_error + 'r) \<times> 'd world" where
  "WriteResult engine expired envs fn w = retryLoop engine expired (writeOnce engine envs fn) w"

definition Write ::
  "Engine \<Rightarrow> (nat \<Rightarrow> bool) \<Rightarrow> (nat \<Rightarrow> attempt_env) \<Rightarrow> ('d, unit) WriteFn \<Rightarrow> 'd world
     \<Rightarrow> go_error option \<times> 'd world" where
  "Write engine expired envs fn w =
     (case WriteResult engine expired envs fn w of (Inl e, w) \<Rightarrow> (Some e, w) | (Inr _, w) \<Rightarrow> (None, w))"

definition Read ::
  "Engine \<Rightarrow> (nat \<Rightarrow> bool) \<Rightarrow> (nat \<Rightarrow> attempt_env)
     \<Rightarrow> (nat \<Rightarrow> 'd \<Rightarrow> TxAuthorizer \<Rightarrow> (go_error + unit) \<times> TxAuthorizer) \<Rightarrow> 'd world \<Rightarrow> (go_error + unit) \<times> 'd world" where
  "Read engine expired envs fn w = retryLoop engine expired (readOnce engine envs fn) w"

definition WriteSerialized ::
  "Engine \<Rightarrow> (nat \<Rightarrow> bool) \<Rightarrow> (nat \<Rightarrow> attempt_env) \<Rightarrow> ('d, unit) WriteFn \<Rightarrow> 'd world \<Rightarrow> (go_error + unit) \<times> 'd world" where
  "WriteSerialized engine expired envs fn w =
     retryLoop engine expired
       (if engine \<noteq> EnginePostgres then writeOnce engine envs fn else writePostgresSerializedOnce envs fn) w"

section \<open>What the database promises\<close>

text \<open>
  A driver's error carries no authorization sentinel. A serialization failure means that the transaction
  was rolled back, so an error that hides a commit that took effect is not transient.
\<close>

definition commit_sound :: "Engine \<Rightarrow> commit_result \<Rightarrow> bool" where
  "commit_sound engine c \<longleftrightarrow>
     (case c of CommitOK \<Rightarrow> True | CommitFailed e \<Rightarrow> er_authz e = None
      | CommitLost e \<Rightarrow> er_authz e = None \<and> \<not> retryable engine e)"

definition silent :: "go_error option \<Rightarrow> bool" where
  "silent r \<longleftrightarrow> (case r of None \<Rightarrow> True | Some e \<Rightarrow> er_authz e = None)"

definition driver_errors :: "Engine \<Rightarrow> (nat \<Rightarrow> attempt_env) \<Rightarrow> bool" where
  "driver_errors engine envs \<longleftrightarrow>
     (\<forall>i. silent (ae_begin (envs i)) \<and> silent (ae_guard (envs i)) \<and> commit_sound engine (ae_commit (envs i)) \<and>
       (\<forall>j. silent (fe_begin (ae_flush (envs i) j)) \<and> (\<forall>d. silent (fe_write (ae_flush (envs i) j) d)) \<and>
          commit_sound engine (fe_commit (ae_flush (envs i) j))))"

lemma driver_errorsD:
  assumes "driver_errors engine envs"
  shows "silent (ae_begin (envs i))" "silent (ae_guard (envs i))" "commit_sound engine (ae_commit (envs i))"
    and "silent (fe_begin (ae_flush (envs i) j))" "silent (fe_write (ae_flush (envs i) j) d)"
    and "commit_sound engine (fe_commit (ae_flush (envs i) j))"
  using assms unfolding driver_errors_def by blast+

section \<open>The retry loop\<close>

text \<open>
  Whatever a transient failure keeps holds where the last attempt starts, and that attempt gives the answer.
\<close>

lemma retryFrom_last:
  assumes "retryFrom engine expired f n i e s = (r, s')" "P s"
    and "\<And>j t e' t'. P t \<Longrightarrow> f j t = (Inl e', t') \<Longrightarrow> retryable engine e' \<Longrightarrow> P t'"
  shows "(r = Inl e \<and> s' = s) \<or> (\<exists>j t. j < i + n \<and> P t \<and> f j t = (r, s'))"
  using assms(1,2)
proof (induction n arbitrary: i e s)
  case (Suc n)
  show ?case
  proof (cases "i > 0 \<and> expired i")
    case False
    obtain o1 s1 where f: "f i s = (o1, s1)" by (cases "f i s")
    show ?thesis
    proof (cases "\<exists>e1. o1 = Inl e1 \<and> retryable engine e1")
      case True
      then obtain e1 where e1: "o1 = Inl e1" "retryable engine e1" by blast
      then have "(r = Inl e1 \<and> s' = s1) \<or> (\<exists>j t. j < i + 1 + n \<and> P t \<and> f j t = (r, s'))"
        using Suc.prems f False assms(3) by (intro Suc.IH) (auto split: if_splits)
      then show ?thesis
        using f e1 Suc.prems(2) by (auto intro: exI [of _ i])
    next
      case False': False
      then have "f i s = (r, s')" using Suc.prems f False by (auto split: if_splits sum.splits)
      then show ?thesis using Suc.prems(2) by (auto intro: exI [of _ i])
    qed
  qed (use Suc.prems in simp)
qed simp

lemma retryLoop_last:
  assumes "retryLoop engine expired f s = (r, s')" "P s"
    and "\<And>j t e' t'. P t \<Longrightarrow> f j t = (Inl e', t') \<Longrightarrow> retryable engine e' \<Longrightarrow> P t'"
  obtains j t where "j < attempts" "P t" "f j t = (r, s')"
proof -
  obtain o1 s1 where f: "f 0 s = (o1, s1)" by (cases "f 0 s")
  have "\<exists>j t. j < attempts \<and> P t \<and> f j t = (r, s')"
  proof (cases "\<exists>e1. o1 = Inl e1 \<and> retryable engine e1")
    case True
    then obtain e1 where e1: "o1 = Inl e1" "retryable engine e1" by blast
    then have "retryFrom engine expired f 3 1 e1 s1 = (r, s')"
      using assms(1) f by (simp add: retryLoop_def attempts_def numeral_nat)
    from retryFrom_last [of _ _ _ _ _ _ _ _ _ P, OF this] have
      "(r = Inl e1 \<and> s' = s1) \<or> (\<exists>j t. j < 1 + 3 \<and> P t \<and> f j t = (r, s'))"
      using assms f e1 by blast
    then show ?thesis using f e1 assms(2) by (auto simp: attempts_def intro: exI [of _ 0])
  next
    case False
    then have "f 0 s = (r, s')"
      using assms(1) f by (auto simp: retryLoop_def attempts_def numeral_nat split: sum.splits if_splits)
    then show ?thesis using assms(2) by (auto simp: attempts_def intro: exI [of _ 0])
  qed
  then show ?thesis using that by blast
qed

text \<open>A measure that every attempt raises by at most one ends at most \<open>attempts\<close> higher.\<close>

lemma retryFrom_measure:
  assumes "\<And>j t. \<mu> (snd (f j t)) \<le> (\<mu> t :: nat) + 1"
  shows "\<mu> (snd (retryFrom engine expired f n i e s)) \<le> \<mu> s + n"
proof (induction n arbitrary: i e s)
  case (Suc n)
  obtain o1 s1 where f: "f i s = (o1, s1)" by (cases "f i s")
  have "\<mu> s1 \<le> \<mu> s + 1" using assms [of i s] f by simp
  then have "\<mu> (snd (retryFrom engine expired f n (i + 1) e1 s1)) \<le> \<mu> s + Suc n" for e1
    using Suc.IH [of "i + 1" e1 s1] by linarith
  then show ?case
    using f \<open>\<mu> s1 \<le> \<mu> s + 1\<close> by (auto split: sum.splits)
qed simp

lemma retryFrom_invariant:
  assumes "P s" "\<And>j t. P t \<Longrightarrow> P (snd (f j t))"
  shows "P (snd (retryFrom engine expired f n i e s))"
  using assms(1)
proof (induction n arbitrary: i e s)
  case (Suc n)
  obtain o1 s1 where f: "f i s = (o1, s1)" by (cases "f i s")
  have "P s1" using assms(2) [OF Suc.prems, of i] f by simp
  then show ?case using Suc f by (auto split: sum.splits)
qed simp

lemma retryLoop_invariant:
  assumes "P s" "\<And>j t. P t \<Longrightarrow> P (snd (f j t))"
  shows "P (snd (retryLoop engine expired f s))"
  using retryFrom_invariant [of P, OF assms] by (simp add: retryLoop_def)

section \<open>One attempt\<close>

lemma write_denials_silent:
  assumes "\<And>d. silent (w d)"
  shows "silent (write_denials w ds)"
proof (induction ds)
  case (Cons d ds)
  then show ?case using assms [of d] by (cases "w d") (simp_all add: silent_def)
qed (simp add: silent_def)

definition flushed :: "Engine \<Rightarrow> Denial list \<Rightarrow> 'd world \<Rightarrow> (go_error + unit) \<times> 'd world \<Rightarrow> bool" where
  "flushed engine ds w r \<longleftrightarrow>
     (case r of
        (Inr _, w') \<Rightarrow> w' = w\<lparr>wd_trail := wd_trail w @ ds\<rparr>
      | (Inl e, w') \<Rightarrow> er_authz e = None \<and>
          (w' = w \<or> w' = w\<lparr>wd_trail := wd_trail w @ ds\<rparr> \<and> \<not> retryable engine e))"

lemma flushOnce_flushed:
  assumes "driver_errors engine envs"
  shows "flushed engine ds w (flushOnce (ae_flush (envs i) j) ds w)"
  using driver_errorsD(4-6) [OF assms, of i j] write_denials_silent [of "fe_write (ae_flush (envs i) j)" ds]
  by (auto simp: flushed_def flushOnce_def silent_def commit_sound_def split: option.splits commit_result.splits)

lemma flush_loop:
  assumes "driver_errors engine envs"
  shows "flushed engine ds w (retryLoop engine expired (\<lambda>j. flushOnce (ae_flush (envs i) j) ds) w)"
proof -
  let ?f = "\<lambda>j. flushOnce (ae_flush (envs i) j) ds"
  obtain r w' where l: "retryLoop engine expired ?f w = (r, w')" by (cases "retryLoop engine expired ?f w")
  have keep: "t' = w" if "t = w" "?f j t = (Inl e', t')" "retryable engine e'" for j t e' t'
    using flushOnce_flushed [OF assms, of ds w i j] that by (auto simp: flushed_def)
  obtain j t where "t = w" "?f j t = (r, w')"
    by (rule retryLoop_last [OF l, of "\<lambda>t. t = w"]) (use keep in blast)+
  then show ?thesis
    using flushOnce_flushed [OF assms, of ds w i j] l by simp
qed

text \<open>
  How the settlement of an attempt ends: the transient outcome passes through; the outcome is answered with
  its denials durable; or another error is answered, which is not an authorization error.
\<close>

lemma settleDenials_cases:
  assumes "driver_errors engine envs" "settleDenials engine (envs i) az outcome w = (r, w')"
  obtains (retry) e where "outcome = Inl e" "retryable engine e" "r = outcome" "w' = w"
    | (answered) "r = outcome" "\<not> ta_captureErr az" "w' = w\<lparr>wd_trail := wd_trail w @ ta_denials az\<rparr>"
        "\<forall>e. outcome = Inl e \<longrightarrow> \<not> retryable engine e"
    | (loud) e where "r = Inl e" "er_authz e = None" "w' = w" "ta_captureErr az \<or> ta_denials az \<noteq> []"
    | (lost) e where "r = Inl e" "er_authz e = None" "\<not> retryable engine e"
        "w' = w\<lparr>wd_trail := wd_trail w @ ta_denials az\<rparr>"
proof (cases "\<exists>e. outcome = Inl e \<and> retryable engine e")
  case True
  then show ?thesis using assms(2) retry by (auto simp: settleDenials_def)
next
  case False
  then have live: "\<not> (case outcome of Inl e \<Rightarrow> retryable engine e | Inr _ \<Rightarrow> False)"
    and calm: "\<forall>e. outcome = Inl e \<longrightarrow> \<not> retryable engine e"
    by (auto split: sum.splits)
  show ?thesis
  proof (cases "ta_captureErr az \<or> ta_denials az = []")
    case True
    then show ?thesis
      using assms(2) live calm answered loud
      by (auto simp: settleDenials_def plain_error_def split: if_splits)
  next
    case False
    let ?l = "retryLoop engine (ae_flush_expired (envs i)) (\<lambda>j. flushOnce (ae_flush (envs i) j) (ta_denials az)) w"
    have fl: "flushed engine (ta_denials az) w ?l" by (rule flush_loop [OF assms(1)])
    obtain lr lw where l: "?l = (lr, lw)" by (cases ?l)
    show ?thesis
    proof (cases lr)
      case (Inl e)
      then have "r = Inl e" "w' = lw" using assms(2) live False l by (auto simp: settleDenials_def)
      then show ?thesis using fl l Inl loud lost False by (auto simp: flushed_def)
    next
      case (Inr u)
      then have "r = outcome" "w' = lw" using assms(2) live False l by (auto simp: settleDenials_def)
      then show ?thesis using fl l Inr answered calm False by (auto simp: flushed_def)
    qed
  qed
qed

text \<open>The settlement touches nothing but the trail, whatever the drivers answer.\<close>

definition same_tokens :: "'d world \<Rightarrow> 'd world \<Rightarrow> bool" where
  "same_tokens w w' \<longleftrightarrow> wd_nextTok w' = wd_nextTok w \<and> wd_dead w' = wd_dead w"

lemma flushOnce_tokens: "same_tokens w0 w \<Longrightarrow> same_tokens w0 (snd (flushOnce env ds w))"
  by (auto simp: flushOnce_def same_tokens_def split: option.splits commit_result.splits)

lemma settleDenials_tokens: "same_tokens w0 w \<Longrightarrow> same_tokens w0 (snd (settleDenials engine env az outcome w))"
  using retryLoop_invariant [of "same_tokens w0" w "\<lambda>j. flushOnce (ae_flush env j) (ta_denials az)" engine
      "ae_flush_expired env", OF _ flushOnce_tokens]
  by (auto simp: settleDenials_def split: sum.splits prod.splits)

lemma settled_tokens: "same_tokens w0 w \<Longrightarrow> same_tokens w0 (snd (settled engine env ((oaz, outcome), w)))"
  by (auto simp: settled_def settleDenials_tokens split: option.splits)

lemma runTransaction_tokens: "same_tokens w (snd (runTransaction env tok fn i w))"
  by (auto simp: runTransaction_def finish_def same_tokens_def Let_def
      split: option.splits sum.splits prod.splits commit_result.splits)

lemma settled_run_tokens: "same_tokens w (snd (settled engine env (runTransaction env tok fn i w)))"
proof -
  obtain oaz oc w1 where r: "runTransaction env tok fn i w = ((oaz, oc), w1)"
    by (cases "runTransaction env tok fn i w") (metis prod.exhaust)
  show ?thesis
    using runTransaction_tokens [of w env tok fn i] r settled_tokens [of w w1 engine env oaz oc] by simp
qed

definition minted :: "'d world \<Rightarrow> 'd world \<Rightarrow> bool" where
  "minted w w' \<longleftrightarrow> wd_nextTok w \<le> wd_nextTok w' \<and> wd_nextTok w' \<le> wd_nextTok w + 1 \<and>
     wd_dead w \<union> {wd_nextTok w..<wd_nextTok w'} \<subseteq> wd_dead w'"

lemma withToken_minted:
  assumes "\<And>tok w. same_tokens w (snd (body tok w))"
  shows "minted w (snd (withToken body w))"
  using assms [of "w\<lparr>wd_nextTok := wd_nextTok w + 1\<rparr>" "wd_nextTok w"]
  by (auto simp: withToken_def same_tokens_def minted_def Invalidate_def Let_def split: prod.splits)

text \<open>
  The ends of a write attempt: nothing committed and no denial answered; the closure's own refusal,
  answered with its records; committed and answered; committed, but answered with an error.
\<close>

definition failed_end :: "Engine \<Rightarrow> 'd world \<Rightarrow> go_error + 'r \<Rightarrow> 'd world \<Rightarrow> bool" where
  "failed_end engine w r w' \<longleftrightarrow>
     (\<exists>e. r = Inl e \<and> (er_authz e = None \<or> retryable engine e) \<and>
        (retryable engine e \<longrightarrow> wd_trail w' = wd_trail w) \<and>
        wd_data w' = wd_data w \<and> wd_commits w' = wd_commits w)"

definition refused_end ::
  "Engine \<Rightarrow> (go_error + 'r) \<times> 'd \<times> TxAuthorizer \<Rightarrow> 'd world \<Rightarrow> go_error + 'r \<Rightarrow> 'd world \<Rightarrow> bool" where
  "refused_end engine res w r w' \<longleftrightarrow>
     (\<exists>e d az. res = (Inl e, d, az) \<and> r = Inl e \<and> \<not> retryable engine e \<and> \<not> ta_captureErr az \<and>
        wd_trail w' = wd_trail w @ ta_denials az \<and> wd_data w' = wd_data w \<and> wd_commits w' = wd_commits w)"

definition committed_end ::
  "(go_error + 'r) \<times> 'd \<times> TxAuthorizer \<Rightarrow> 'd world \<Rightarrow> go_error + 'r \<Rightarrow> 'd world \<Rightarrow> bool" where
  "committed_end res w r w' \<longleftrightarrow>
     (\<exists>v d az. res = (Inr v, d, az) \<and> r = Inr v \<and> \<not> ta_captureErr az \<and>
        wd_trail w' = wd_trail w @ ta_denials az \<and> wd_data w' = d \<and> wd_commits w' = wd_commits w + 1)"

definition unanswered_end ::
  "Engine \<Rightarrow> (go_error + 'r) \<times> 'd \<times> TxAuthorizer \<Rightarrow> 'd world \<Rightarrow> go_error + 'r \<Rightarrow> 'd world \<Rightarrow> bool" where
  "unanswered_end engine res w r w' \<longleftrightarrow>
     (\<exists>e v d az. res = (Inr v, d, az) \<and> r = Inl e \<and> er_authz e = None \<and>
        (retryable engine e \<longrightarrow> wd_trail w' = wd_trail w \<and> (ta_captureErr az \<or> ta_denials az \<noteq> [])) \<and>
        wd_data w' = d \<and> wd_commits w' = wd_commits w + 1)"

lemmas attempt_ends = failed_end_def refused_end_def committed_end_def unanswered_end_def

lemma settle_error:
  assumes "driver_errors engine envs" "settleDenials engine (envs i) az (Inl e) w = (r, w')"
    and "res = (Inl e, d, az)"
  shows "failed_end engine w r w' \<or> refused_end engine res w r w'"
  using assms(1,2)
  by (rule settleDenials_cases) (use assms(3) in \<open>auto simp: attempt_ends\<close>)

lemma settle_committed:
  assumes "driver_errors engine envs" "settleDenials engine (envs i) az outcome w1 = (r, w')"
    and "res = (Inr v, d, az)" "w1 = w\<lparr>wd_data := d, wd_commits := wd_commits w + 1\<rparr>"
    and "outcome = Inr v \<or> (\<exists>e. outcome = Inl e \<and> er_authz e = None \<and> \<not> retryable engine e)"
  shows "committed_end res w r w' \<or> unanswered_end engine res w r w'"
  using assms(1,2)
  by (rule settleDenials_cases) (use assms(3-5) in \<open>auto simp: attempt_ends\<close>)

lemma settle_rolled_back:
  assumes "driver_errors engine envs" "settleDenials engine (envs i) az (Inl e) w = (r, w')" "er_authz e = None"
  shows "failed_end engine w r w'"
  using assms(1,2)
  by (rule settleDenials_cases) (use assms(3) in \<open>auto simp: attempt_ends\<close>)

lemma guardLease_silent: "silent (ae_guard env) \<Longrightarrow> guardLease env = Some e \<Longrightarrow> er_authz e = None"
  by (auto simp: guardLease_def silent_def plain_error_def split: if_splits option.splits)

lemma settled_run_ends:
  assumes "driver_errors engine envs" "settled engine (envs i) (runTransaction (envs i) tok fn i w) = (r, w')"
  defines "res \<equiv> fn i (wd_data w) (NewTxAuthorizer tok)"
  shows "failed_end engine w r w' \<or> refused_end engine res w r w' \<or> committed_end res w r w' \<or>
    unanswered_end engine res w r w'"
proof (cases "guardLease (envs i)")
  case (Some e)
  then show ?thesis
    using assms(2) guardLease_silent [OF driver_errorsD(2) [OF assms(1)] Some]
    by (auto simp: runTransaction_def settled_def attempt_ends)
next
  case None
  obtain o1 d az where f: "fn i (wd_data w) (NewTxAuthorizer tok) = (o1, d, az)" by (metis prod.exhaust)
  then have res: "res = (o1, d, az)" by (simp add: res_def)
  show ?thesis
  proof (cases o1)
    case (Inl e)
    then show ?thesis
      using assms(2) None f settle_error [OF assms(1), of i az e w r w' res d] res
      by (auto simp: runTransaction_def settled_def)
  next
    case (Inr v)
    let ?w1 = "w\<lparr>wd_data := d, wd_commits := wd_commits w + 1\<rparr>"
    have s: "case ae_commit (envs i) of
        CommitOK \<Rightarrow> settleDenials engine (envs i) az (Inr v) ?w1 = (r, w')
      | CommitFailed e \<Rightarrow> settleDenials engine (envs i) az (Inl e) w = (r, w')
      | CommitLost e \<Rightarrow> settleDenials engine (envs i) az (Inl e) ?w1 = (r, w')"
      using assms(2) None f Inr
      by (simp add: runTransaction_def settled_def finish_def Let_def split: commit_result.splits)
    show ?thesis
      using s driver_errorsD(3) [OF assms(1), of i] res Inr
        settle_committed [OF assms(1), of i az _ ?w1 r w' res v d w] settle_rolled_back [OF assms(1), of i az _ w r w']
      by (auto simp: commit_sound_def split: commit_result.splits)
  qed
qed

lemma failed_end_cong:
  "wd_trail w = wd_trail v \<Longrightarrow> wd_data w = wd_data v \<Longrightarrow> wd_commits w = wd_commits v \<Longrightarrow>
   wd_trail w' = wd_trail v' \<Longrightarrow> wd_data w' = wd_data v' \<Longrightarrow> wd_commits w' = wd_commits v' \<Longrightarrow>
   failed_end engine w r w' = failed_end engine v r v' \<and>
   refused_end engine res w r w' = refused_end engine res v r v' \<and>
   committed_end res w r w' = committed_end res v r v' \<and>
   unanswered_end engine res w r w' = unanswered_end engine res v r v'"
  by (simp add: attempt_ends)

lemma writeOnce_ends:
  assumes "driver_errors engine envs" "writeOnce engine envs fn i w = (r, w')"
  defines "res \<equiv> fn i (wd_data w) (NewTxAuthorizer (wd_nextTok w))"
  shows "failed_end engine w r w' \<or> refused_end engine res w r w' \<or> committed_end res w r w' \<or>
    unanswered_end engine res w r w'"
proof (cases "ae_begin (envs i)")
  case (Some e)
  then have "failed_end engine w r w'"
    using assms(2) driver_errorsD(1) [OF assms(1), of i]
    by (auto simp: writeOnce_def withToken_def failed_end_def silent_def Let_def)
  then show ?thesis ..
next
  case None
  let ?w = "w\<lparr>wd_nextTok := wd_nextTok w + 1\<rparr>"
  let ?s = "settled engine (envs i) (runTransaction (envs i) (wd_nextTok w) fn i ?w)"
  obtain r1 w1 where s: "?s = (r1, w1)" by (cases ?s)
  then have "r1 = r" "w' = w1\<lparr>wd_dead := Invalidate (wd_nextTok w) (wd_dead w1)\<rparr>"
    using assms(2) None by (auto simp: writeOnce_def withToken_def)
  then show ?thesis
    using settled_run_ends [OF assms(1) s] failed_end_cong [of ?w w w1 w' engine r]
    by (simp add: res_def)
qed

section \<open>Loops of attempts\<close>

text \<open>
  What the retry loop needs of an attempt: it mints at most one token, which is dead when the attempt is
  over, and under the drivers' promises (\<open>sound\<close>) a transient failure leaves no denial record.
\<close>

locale retried_attempts =
  fixes engine :: Engine and attemptFn :: "nat \<Rightarrow> 'd world \<Rightarrow> (go_error + 'r) \<times> 'd world" and sound :: bool
  assumes mints: "minted w (snd (attemptFn i w))"
    and retry_unrecorded: "sound \<Longrightarrow> attemptFn i w = (Inl e, w') \<Longrightarrow> retryable engine e \<Longrightarrow> wd_trail w' = wd_trail w"
begin

lemma loop_attempts: "wd_nextTok (snd (retryLoop engine expired attemptFn w)) \<le> wd_nextTok w + attempts"
  unfolding retryLoop_def by (rule retryFrom_measure) (use mints in \<open>simp add: minted_def\<close>)

definition tokens_dead :: "TxToken \<Rightarrow> 'd world \<Rightarrow> bool" where
  "tokens_dead t w \<longleftrightarrow> t \<le> wd_nextTok w \<and> {t..<wd_nextTok w} \<subseteq> wd_dead w"

lemma attempt_tokens_dead:
  assumes "tokens_dead t w"
  shows "tokens_dead t (snd (attemptFn i w))"
proof -
  have "{t..<wd_nextTok (snd (attemptFn i w))} \<subseteq> {t..<wd_nextTok w} \<union> {wd_nextTok w..<wd_nextTok (snd (attemptFn i w))}"
    by auto
  then show ?thesis
    using assms mints [of w i] unfolding tokens_dead_def minted_def by (meson order_trans Un_least sup.boundedE)
qed

lemma loop_tokens_dead:
  assumes "wd_nextTok w \<le> t" "t < wd_nextTok (snd (retryLoop engine expired attemptFn w))"
  shows "t \<in> wd_dead (snd (retryLoop engine expired attemptFn w))"
proof -
  have "tokens_dead (wd_nextTok w) (snd (retryLoop engine expired attemptFn w))"
    by (rule retryLoop_invariant) (simp_all add: attempt_tokens_dead, simp add: tokens_dead_def)
  then show ?thesis using assms by (auto simp: tokens_dead_def)
qed

lemma loop_last_attempt:
  assumes "sound" "retryLoop engine expired attemptFn w = (r, w')"
  obtains i t where "i < attempts" "wd_trail t = wd_trail w" "attemptFn i t = (r, w')"
  using assms(2)
  by (rule retryLoop_last [where P = "\<lambda>t. wd_trail t = wd_trail w"])
    (simp_all add: retry_unrecorded [OF assms(1)])

end

lemma same_tokens_refl [simp]: "same_tokens w w"
  by (simp add: same_tokens_def)

lemma readOnce_minted: "minted w (snd (readOnce engine envs fn i w))"
  unfolding readOnce_def
  by (rule withToken_minted) (simp add: settleDenials_tokens split: option.split sum.split prod.split)

lemma writeOnce_minted: "minted w (snd (writeOnce engine envs fn i w))"
  unfolding writeOnce_def
  by (rule withToken_minted) (simp add: settled_run_tokens split: option.split)

lemma serialized_minted: "minted w (snd (writePostgresSerializedOnce envs fn i w))"
  using withToken_minted [of "\<lambda>tok w. settled EnginePostgres (envs i) (runTransaction (envs i) tok fn i w)" w]
  by (auto simp: writePostgresSerializedOnce_def settled_run_tokens minted_def split: option.split)

lemma writeOnce_unrecorded:
  assumes "driver_errors engine envs" "writeOnce engine envs fn i w = (Inl e, w')" "retryable engine e"
  shows "wd_trail w' = wd_trail w"
  using writeOnce_ends [OF assms(1,2)] assms(3) by (auto simp: attempt_ends)

lemma serialized_unrecorded:
  assumes "driver_errors EnginePostgres envs" "writePostgresSerializedOnce envs fn i w = (Inl e, w')"
    and "retryable EnginePostgres e"
  shows "wd_trail w' = wd_trail w"
proof (cases "ae_begin (envs i)")
  case None
  then have "writeOnce EnginePostgres envs fn i w = writePostgresSerializedOnce envs fn i w"
    by (simp add: writeOnce_def writePostgresSerializedOnce_def)
  then show ?thesis using writeOnce_unrecorded [OF assms(1) _ assms(3)] assms(2) by metis
qed (use assms(2) in \<open>simp add: writePostgresSerializedOnce_def\<close>)

lemma readOnce_unrecorded:
  assumes "driver_errors engine envs" "readOnce engine envs fn i w = (Inl e, w')" "retryable engine e"
  shows "wd_trail w' = wd_trail w"
proof (cases "ae_begin (envs i)")
  case None
  let ?w = "w\<lparr>wd_nextTok := wd_nextTok w + 1\<rparr>"
  obtain o1 :: "go_error + unit" and az where f: "fn i (wd_data w) (NewTxAuthorizer (wd_nextTok w)) = (o1, az)"
    by fastforce
  let ?outcome = "case o1 of Inl e \<Rightarrow> Inl e
    | Inr u \<Rightarrow> (case ae_commit (envs i) of CommitOK \<Rightarrow> Inr u | CommitFailed e \<Rightarrow> Inl e | CommitLost e \<Rightarrow> Inl e)"
  obtain r1 w1 where s: "settleDenials engine (envs i) az (?outcome :: go_error + unit) ?w = (r1, w1)"
    by fastforce
  then have r1: "r1 = Inl e" and w': "wd_trail w' = wd_trail w1"
    using assms(2) None f by (cases o1; auto simp: readOnce_def withToken_def Let_def)+
  from assms(1) s show ?thesis
    by (rule settleDenials_cases) (use r1 w' assms(3) in auto)
next
  case (Some e1)
  then show ?thesis using assms(2) by (auto simp: readOnce_def withToken_def Let_def)
qed

interpretation writing: retried_attempts engine "writeOnce engine envs fn" "driver_errors engine envs"
  for engine envs and fn :: "('d, 'r) WriteFn"
  by unfold_locales (rule writeOnce_minted, rule writeOnce_unrecorded)

interpretation serialized: retried_attempts EnginePostgres "writePostgresSerializedOnce envs fn"
    "driver_errors EnginePostgres envs"
  for envs and fn :: "('d, 'r) WriteFn"
  by unfold_locales (rule serialized_minted, rule serialized_unrecorded)

interpretation reading: retried_attempts engine "readOnce engine envs fn" "driver_errors engine envs"
  for engine envs and fn :: "nat \<Rightarrow> 'd \<Rightarrow> TxAuthorizer \<Rightarrow> (go_error + unit) \<times> TxAuthorizer"
  by unfold_locales (rule readOnce_minted, rule readOnce_unrecorded)

section \<open>Properties of the boundary\<close>

text \<open>A closure that captures audit records only where it fails.\<close>

definition captures_on_failure :: "('d, 'r) WriteFn \<Rightarrow> bool" where
  "captures_on_failure fn \<longleftrightarrow>
     (\<forall>i d tok v d' az. fn i d (NewTxAuthorizer tok) = (Inr v, d', az) \<longrightarrow> ta_denials az = [] \<and> \<not> ta_captureErr az)"

text \<open>Before the last attempt of such a write nothing has been committed.\<close>

lemma last_uncommitted:
  assumes "driver_errors engine envs" "captures_on_failure fn" "WriteResult engine expired envs fn w = (r, w')"
  obtains i t where "i < attempts" "wd_commits t = wd_commits w" "wd_data t = wd_data w"
    "writeOnce engine envs fn i t = (r, w')"
proof -
  let ?P = "\<lambda>t. wd_commits t = wd_commits w \<and> wd_data t = wd_data w"
  have quiet: "\<not> (ta_captureErr az \<or> ta_denials az \<noteq> [])"
    if "fn i d (NewTxAuthorizer tok) = (Inr v, d', az)" for i d tok v d' az
    using assms(2) that unfolding captures_on_failure_def by blast
  have keep: "?P t'" if "?P t" "writeOnce engine envs fn j t = (Inl e, t')" "retryable engine e" for j t e t'
    using writeOnce_ends [OF assms(1) that(2)] that(1,3) quiet by (auto simp: attempt_ends)
  show ?thesis
    by (rule retryLoop_last [OF assms(3) [unfolded WriteResult_def], of ?P]) (use keep that in blast)+
qed

lemma denial_attempt:
  assumes "driver_errors engine envs" "WriteResult engine expired envs fn w = (Inl e, w')"
    and "er_authz e \<noteq> None" "\<not> retryable engine e"
  shows "\<exists>i < attempts. \<exists>tok d az. fn i (wd_data w') (NewTxAuthorizer tok) = (Inl e, d, az) \<and>
    \<not> ta_captureErr az \<and> wd_trail w' = wd_trail w @ ta_denials az"
proof -
  obtain i t where i: "i < attempts" and t: "wd_trail t = wd_trail w" "writeOnce engine envs fn i t = (Inl e, w')"
    using writing.loop_last_attempt [OF assms(1) assms(2) [unfolded WriteResult_def]] .
  have "refused_end engine (fn i (wd_data t) (NewTxAuthorizer (wd_nextTok t))) t (Inl e) w'"
    using writeOnce_ends [OF assms(1) t(2)] assms(3,4)
    by (auto simp: failed_end_def committed_end_def unanswered_end_def)
  then have "wd_data w' = wd_data t"
    and "\<exists>d az. fn i (wd_data t) (NewTxAuthorizer (wd_nextTok t)) = (Inl e, d, az) \<and>
      \<not> ta_captureErr az \<and> wd_trail w' = wd_trail t @ ta_denials az"
    by (auto simp: refused_end_def)
  then show ?thesis using i t(1) by metis
qed

lemma denial_uncommitted:
  assumes "driver_errors engine envs" "captures_on_failure fn" "WriteResult engine expired envs fn w = (Inl e, w')"
    and "er_authz e \<noteq> None"
  shows "wd_data w' = wd_data w \<and> wd_commits w' = wd_commits w"
proof (rule last_uncommitted [OF assms(1-3)])
  fix i t
  assume "wd_commits t = wd_commits w" "wd_data t = wd_data w" "writeOnce engine envs fn i t = (Inl e, w')"
  then show ?thesis using writeOnce_ends [OF assms(1), of fn i t "Inl e" w'] assms(4) by (auto simp: attempt_ends)
qed

text \<open>
  C11: a uniform denial is answered only with its record durable, exactly once: when a write answers a
  refusal, the last attempt's closure returned exactly it, and the trail has grown by precisely the denials
  that attempt captured, whatever earlier attempts captured. The data is as before the write and nothing was
  committed, if the closure captures records only where it fails.
\<close>

theorem denial_recorded_once:
  assumes "driver_errors engine envs" "WriteResult engine expired envs fn w = (Inl e, w')"
    and "er_authz e \<noteq> None" "\<not> retryable engine e"
  shows "(\<exists>i < attempts. \<exists>tok d az. fn i (wd_data w') (NewTxAuthorizer tok) = (Inl e, d, az) \<and>
      \<not> ta_captureErr az \<and> wd_trail w' = wd_trail w @ ta_denials az) \<and>
    (captures_on_failure fn \<longrightarrow> wd_data w' = wd_data w \<and> wd_commits w' = wd_commits w)"
  using denial_attempt [OF assms] denial_uncommitted [OF assms(1) _ assms(2,3)] by blast

text \<open>
  C13: a write runs its closure at most four times (an attempt mints one token), and every proof of any of
  its attempts is refused by the store once it has returned.
\<close>

theorem write_proofs_expire:
  assumes "w' = snd (WriteResult engine expired envs fn w)"
  shows "wd_nextTok w' \<le> wd_nextTok w + 4 \<and>
    (\<forall>p reg so tok. pf_tok p \<in> {wd_nextTok w..<wd_nextTok w'} \<longrightarrow>
      (\<exists>e. Verify reg (wd_dead w') (Some p) so tok = Inl e))"
  using writing.loop_attempts [of engine expired envs fn w] writing.loop_tokens_dead [of w _ engine expired envs fn]
  by (auto simp: assms WriteResult_def attempts_def Verify_def)

text \<open>
  C12: a write commits at most once, and exactly once when it answers a result, if its closure captures
  audit records only where it fails; the result and the data are those of the committed attempt.
\<close>

theorem write_at_most_once:
  assumes "driver_errors engine envs" "captures_on_failure fn"
    and "WriteResult engine expired envs fn w = (r, w')"
  shows "wd_commits w' \<le> wd_commits w + 1 \<and> (wd_commits w' = wd_commits w \<longrightarrow> wd_data w' = wd_data w) \<and>
    (\<forall>v. r = Inr v \<longrightarrow> wd_commits w' = wd_commits w + 1 \<and>
      (\<exists>i < attempts. \<exists>tok az. fn i (wd_data w) (NewTxAuthorizer tok) = (Inr v, wd_data w', az)))"
proof (rule last_uncommitted [OF assms])
  fix i t
  assume i: "i < attempts" and t: "wd_commits t = wd_commits w" "wd_data t = wd_data w"
    "writeOnce engine envs fn i t = (r, w')"
  show ?thesis using writeOnce_ends [OF assms(1) t(3)] t(1,2) i by (auto simp: attempt_ends)
qed

section \<open>Witnesses\<close>

definition fresh :: "'d \<Rightarrow> 'd world" where
  "fresh d = \<lparr>wd_data = d, wd_trail = [], wd_nextTok = 5, wd_dead = {}, wd_commits = 0\<rparr>"

definition quiet_env :: attempt_env where
  "quiet_env = \<lparr>ae_begin = None, ae_guard = None, ae_lease = None, ae_clock = 0, ae_tables = empty_tables,
     ae_commit = CommitOK, ae_flush = \<lambda>_. \<lparr>fe_begin = None, fe_write = \<lambda>_. None, fe_commit = CommitOK\<rparr>,
     ae_flush_expired = \<lambda>_. False\<rparr>"

lemma quiet_driver: "driver_errors engine (\<lambda>_. quiet_env)"
  by (simp add: driver_errors_def quiet_env_def silent_def commit_sound_def)

text \<open>A closure that loses a race in its first attempt and is refused in the second.\<close>

definition raced_refusal :: "(nat, unit) WriteFn" where
  "raced_refusal i d az =
     (case Authorize sample_registry (sample_resolver [] False) sample_ctx (sample_caller ClassHuman)
        ''value.reveal'' sample_scope az of
        (Inl e, az) \<Rightarrow>
          (Inl (if i = 0 then plain_error\<lparr>er_retrySerialization := True\<rparr> else plain_error\<lparr>er_authz := Some e\<rparr>), d + 1, az)
      | (Inr _, az) \<Rightarrow> (Inr (), d, az))"

definition refused_write :: "(go_error + unit) \<times> nat world" where
  "refused_write = WriteResult EnginePostgres (\<lambda>_. False) (\<lambda>_. quiet_env) raced_refusal (fresh 0)"

lemma refused_write_answer: "fst refused_write = Inl (plain_error\<lparr>er_authz := Some ErrNotFound\<rparr>)"
  by code_simp

theorem denial_recorded_once_witness:
  "(\<exists>i < attempts. \<exists>tok d az. raced_refusal i (wd_data (snd refused_write)) (NewTxAuthorizer tok) =
      (Inl (plain_error\<lparr>er_authz := Some ErrNotFound\<rparr>), d, az) \<and> \<not> ta_captureErr az \<and>
    wd_trail (snd refused_write) = ta_denials az) \<and> wd_data (snd refused_write) = 0"
proof -
  have "captures_on_failure raced_refusal"
    unfolding captures_on_failure_def raced_refusal_def
    by (auto simp: NewTxAuthorizer_def split: prod.splits sum.splits dest!: Authorize_unchanged)
  moreover have "WriteResult EnginePostgres (\<lambda>_. False) (\<lambda>_. quiet_env) raced_refusal (fresh 0) =
      (Inl (plain_error\<lparr>er_authz := Some ErrNotFound\<rparr>), snd refused_write)"
    using refused_write_answer by (metis refused_write_def prod.collapse)
  moreover have "er_authz (plain_error\<lparr>er_authz := Some ErrNotFound\<rparr>) \<noteq> None"
    "\<not> retryable EnginePostgres (plain_error\<lparr>er_authz := Some ErrNotFound\<rparr>)"
    by (simp_all add: plain_error_def retryable_def)
  moreover have "wd_trail (fresh 0) = []" "wd_data (fresh 0) = 0" by (simp_all add: fresh_def)
  ultimately show ?thesis using denial_recorded_once [OF quiet_driver] by (metis append_Nil)
qed

theorem write_proofs_expire_witness:
  "wd_nextTok (snd refused_write) = 7 \<and>
   (\<exists>e. Verify sample_registry (wd_dead (snd refused_write))
      (Some ((sample_proof False)\<lparr>pf_tok := 6\<rparr>)) ''value.get'' (Some 6) = Inl e)"
proof -
  have t: "wd_nextTok (snd refused_write) = 7" by code_simp
  show ?thesis
    using write_proofs_expire [OF refl, of EnginePostgres "\<lambda>_. False" "\<lambda>_. quiet_env" raced_refusal "fresh 0",
        folded refused_write_def] t
    by (simp add: fresh_def)
qed

definition raced_increment :: "(nat, nat) WriteFn" where
  "raced_increment i d az =
     (if i = 0 then (Inl (plain_error\<lparr>er_pgCode := Some ''40001''\<rparr>), d + 7, az) else (Inr (d + 1), d + 1, az))"

theorem write_at_most_once_witness:
  "WriteResult EnginePostgres (\<lambda>_. False) (\<lambda>_. quiet_env) raced_increment (fresh 0) =
     (Inr 1, (fresh 1)\<lparr>wd_nextTok := 7, wd_dead := {5, 6}, wd_commits := 1\<rparr>) \<and>
   (\<exists>i < attempts. \<exists>tok az. raced_increment i 0 (NewTxAuthorizer tok) = (Inr 1, 1, az))"
proof -
  have r: "WriteResult EnginePostgres (\<lambda>_. False) (\<lambda>_. quiet_env) raced_increment (fresh 0) =
     (Inr 1, (fresh 1)\<lparr>wd_nextTok := 7, wd_dead := {5, 6}, wd_commits := 1\<rparr>)"
    by code_simp
  have "captures_on_failure raced_increment"
    by (auto simp: captures_on_failure_def raced_increment_def NewTxAuthorizer_def)
  from write_at_most_once [OF quiet_driver this r] r show ?thesis
    by (simp add: fresh_def)
qed

end
