(* ===== verification/Reveal_Gate.thy ===== *)
theory Reveal_Gate
  imports Transactions
begin

text \<open>
  The reveal gate of \<open>internal/service/keys.go\<close>: authorization, attempt limiting and the audit record of
  every attempt at a change that could disclose a secret value, inside the transaction boundary of
  \<open>Transactions\<close>. The limiter's map is an association list from subjects to attempt times, as in
  \<open>Admission\<close>; every call that reads the clock or mints an id takes them from its own \<open>Ctx\<close>.
\<close>

definition GateAttemptsPerMinute :: nat where "GateAttemptsPerMinute = 20"
definition maxTrackedGateSubjects :: nat where "maxTrackedGateSubjects = 4096"

definition gateSubject :: "PrincipalID \<Rightarrow> go_string \<Rightarrow> go_string" where
  "gateSubject who keyID = Itoa (length who) @ '':'' @ who @ '':'' @ keyID"

definition gateLive :: "int \<Rightarrow> windows \<Rightarrow> windows" where
  "gateLive cutoff hits = filter (\<lambda>(_, times). times \<noteq> [] \<and> last times > cutoff) hits"

definition gate_allow :: "PrincipalID \<Rightarrow> go_string \<Rightarrow> int \<Rightarrow> windows \<Rightarrow> bool \<times> windows" where
  "gate_allow who keyID now hits =
     (let subject = gateSubject who keyID; cutoff = now - seconds 60;
          kept = filter (\<lambda>t. t > cutoff) (hitsOf hits subject)
      in if length kept \<ge> GateAttemptsPerMinute then (False, AList.update subject kept hits)
         else if kept = [] \<and> length hits \<ge> maxTrackedGateSubjects then
           (let hits = gateLive cutoff hits in
            if length hits \<ge> maxTrackedGateSubjects then (False, hits)
            else (True, AList.update subject (kept @ [now]) hits))
         else (True, AList.update subject (kept @ [now]) hits))"

definition newAuditEvent ::
  "Ctx \<Rightarrow> EventType \<Rightarrow> PrincipalID \<Rightarrow> Object \<Rightarrow> Outcome \<Rightarrow> go_string \<Rightarrow> Payload \<Rightarrow> Event option" where
  "newAuditEvent ctx typ who obj outcome correlationID payload =
     (case NewEventID (ctx_uuid ctx) of None \<Rightarrow> None
      | Some eid \<Rightarrow>
          (let wire = FromContext (ctx_attached ctx) in
           Some \<lparr>ev_ID = eid, ev_Type = typ, ev_SchemaVersion = 1, ev_OccurredAt = ctx_now ctx,
             ev_OccurredAsserted = False, ev_Actor = \<lparr>ac_ID = who, ac_Class = [], ac_CredentialID = []\<rparr>,
             ev_AuthorityID = [], ev_Object = obj, ev_Outcome = outcome, ev_CorrelationID = correlationID,
             ev_SourceIP = cx_SourceIP wire, ev_UserAgent = cx_UserAgent wire, ev_Origin = cx_Origin wire,
             ev_Payload = payload\<rparr>))"

definition EventKeyRevealGateAttempt :: EventType where
  "EventKeyRevealGateAttempt = ''settings.key_reveal_gate_attempt''"

datatype gate_error = GateAuthz authz_error | GateEventID | ErrLimitExceeded

record GateKey =
  gk_ID :: go_string
  gk_Name :: go_string
  gk_Classification :: go_string

definition gateObject :: "GateKey \<Rightarrow> Object" where
  "gateObject key = \<lparr>ob_Type = ''key'', ob_ID = gk_ID key\<rparr>"

definition attemptEvent :: "Ctx \<Rightarrow> Identity \<Rightarrow> GateKey \<Rightarrow> go_string \<Rightarrow> Outcome \<Rightarrow> Event option" where
  "attemptEvent ctx caller key gate outcome =
     newAuditEvent ctx EventKeyRevealGateAttempt (id_Principal caller) (gateObject key) outcome []
       [(''key_id'', VString (gk_ID key)), (''name'', VString (SanitizeFreeText (gk_Name key))),
        (''gate'', VString gate)]"

text \<open>
  \<open>ctx\<close> is the context of the authorization and \<open>ctx'\<close> that of the attempt's own event, \<open>now\<close> the
  limiter's clock.
\<close>

definition revealGate ::
  "Registry \<Rightarrow> Resolver \<Rightarrow> Ctx \<Rightarrow> int \<Rightarrow> Ctx \<Rightarrow> Identity \<Rightarrow> Scope \<Rightarrow> Operation \<Rightarrow> GateKey \<Rightarrow> go_string \<Rightarrow> windows
     \<Rightarrow> TxAuthorizer \<Rightarrow> (gate_error + unit) \<times> windows \<times> TxAuthorizer" where
  "revealGate reg r ctx now ctx' caller scope op key gate hits az =
     (let az = AttributeDenials (gateObject key) az;
          (auth, az) = Authorize reg r ctx caller op scope az;
          (within, hits) = gate_allow (id_Principal caller) (gk_ID key) now hits;
          outcome = (case auth of Inl _ \<Rightarrow> OutcomeDenied
                     | Inr _ \<Rightarrow> (if within then OutcomeSuccess else OutcomeFailure))
      in case attemptEvent ctx' caller key gate outcome of
           None \<Rightarrow> (Inl GateEventID, hits, az)
         | Some ev \<Rightarrow>
             (let az = CaptureAudit TrailTenant \<lparr>Org = Org scope, Project = Project scope, Env = []\<rparr> ev az in
              case auth of
                Inl e \<Rightarrow> (Inl (GateAuthz e), hits, az)
              | Inr _ \<Rightarrow> (if within then (Inr (), hits, az) else (Inl ErrLimitExceeded, hits, az))))"

definition gate_go_error :: "gate_error \<Rightarrow> go_error" where
  "gate_go_error e = (case e of GateAuthz a \<Rightarrow> plain_error\<lparr>er_authz := Some a\<rparr> | _ \<Rightarrow> plain_error)"

section \<open>The edit of a declaration\<close>

text \<open>
  The closure of \<open>Keys.UpdateDeclaration\<close>. What an attempt reads is its \<open>declaration_call\<close>: the resolution
  of the actor (which may capture a record where it fails), the resolver behind the authorizations, the
  project lock, the check that the definitions are managed here, the key, its parsed declaration, and the
  gate's contexts, clock and limiter. The part behind the gate is the argument \<open>rest\<close>.
\<close>

definition OpKeyUpdateDeclaration :: Operation where "OpKeyUpdateDeclaration = ''key.update-declaration''"
definition OpKeySecretRuleChange :: Operation where "OpKeySecretRuleChange = ''key.secret-rule-change''"

record 'e declaration_call =
  dc_resolve :: "TxAuthorizer \<Rightarrow> (go_error + Identity) \<times> TxAuthorizer"
  dc_resolver :: Resolver
  dc_ctx :: Ctx
  dc_lock :: "go_error option"
  dc_managed :: "go_error option"
  dc_get :: "go_error + GateKey"
  dc_before :: "go_error + 'e"
  dc_gate_ctx :: Ctx
  dc_now :: int
  dc_event_ctx :: Ctx
  dc_hits :: windows

definition service_authorize ::
  "Registry \<Rightarrow> 'e declaration_call \<Rightarrow> Operation \<Rightarrow> Scope \<Rightarrow> TxAuthorizer
     \<Rightarrow> (go_error + Identity \<times> Proof) \<times> TxAuthorizer" where
  "service_authorize reg c op scope az =
     (case dc_resolve c az of
        (Inl e, az) \<Rightarrow> (Inl e, az)
      | (Inr caller, az) \<Rightarrow>
          (case Authorize reg (dc_resolver c) (dc_ctx c) caller op scope az of
             (Inl e, az) \<Rightarrow> (Inl (plain_error\<lparr>er_authz := Some e\<rparr>), az)
           | (Inr p, az) \<Rightarrow> (Inr (caller, p), az)))"

definition keyLookup :: "'e declaration_call \<Rightarrow> go_error + GateKey \<times> 'e" where
  "keyLookup c =
     (case dc_lock c of Some e \<Rightarrow> Inl e
      | None \<Rightarrow> (case dc_managed c of Some e \<Rightarrow> Inl e
      | None \<Rightarrow> (case dc_get c of Inl e \<Rightarrow> Inl e
      | Inr key \<Rightarrow> (case dc_before c of Inl e \<Rightarrow> Inl e
      | Inr before \<Rightarrow> Inr (key, before)))))"

definition UpdateDeclaration ::
  "Registry \<Rightarrow> ('e \<Rightarrow> 'e \<Rightarrow> bool) \<Rightarrow> (nat \<Rightarrow> 'e declaration_call) \<Rightarrow> Scope \<Rightarrow> 'e
     \<Rightarrow> (Identity \<Rightarrow> Proof \<Rightarrow> GateKey \<Rightarrow> bool \<Rightarrow> ('d, 'r) WriteFn) \<Rightarrow> ('d, 'r) WriteFn" where
  "UpdateDeclaration reg vdc calls scope decl rest i d az =
     (let c = calls i in
      case service_authorize reg c OpKeyUpdateDeclaration scope az of
        (Inl e, az) \<Rightarrow> (Inl e, d, az)
      | (Inr (caller, p), az) \<Rightarrow>
          (case keyLookup c of
             Inl e \<Rightarrow> (Inl e, d, az)
           | Inr (key, before) \<Rightarrow>
               (let rulesChanged = vdc before decl in
                if rulesChanged \<and> gk_Classification key = ''secret'' then
                  (case revealGate reg (dc_resolver c) (dc_gate_ctx c) (dc_now c) (dc_event_ctx c) caller scope
                          OpKeySecretRuleChange key ''value-dependent-rule-change'' (dc_hits c) az of
                     (Inl e, _, az) \<Rightarrow> (Inl (gate_go_error e), d, az)
                   | (Inr _, _, az) \<Rightarrow> rest caller p key rulesChanged i d az)
                else rest caller p key rulesChanged i d az)))"

section \<open>The limiter\<close>

lemma gateSubject_inj: "gateSubject p k = gateSubject p' k' \<Longrightarrow> p = p' \<and> k = k'"
proof -
  assume eq: "gateSubject p k = gateSubject p' k'"
  have "takeWhile (\<lambda>c. c \<noteq> CHR '':'') (gateSubject q j) = Itoa (length q)" for q j
    using Itoa_no_colon [of "length q"] by (auto simp: gateSubject_def takeWhile_append)
  then have "length p = length p'" using eq Itoa_inj by metis
  then show ?thesis using eq by (simp add: gateSubject_def)
qed

definition gate_ok :: "windows \<Rightarrow> bool" where
  "gate_ok hits \<longleftrightarrow> distinct (map fst hits) \<and> length hits \<le> maxTrackedGateSubjects \<and> (\<forall>k. sorted (hitsOf hits k))"

lemma hitsOf_gateLive:
  "distinct (map fst hits) \<Longrightarrow>
   hitsOf (gateLive cutoff hits) k = (let h = hitsOf hits k in if h \<noteq> [] \<and> last h > cutoff then h else [])"
  by (induction hits)
    (force simp: hitsOf_def gateLive_def Let_def split: option.splits dest: map_of_SomeD)+

lemma sorted_le_last: "sorted xs \<Longrightarrow> (x :: int) \<in> set xs \<Longrightarrow> x \<le> last xs"
  by (induction xs) auto

lemma filter_gateLive:
  assumes "gate_ok hits" "cutoff \<le> c"
  shows "filter (\<lambda>t. t > c) (hitsOf (gateLive cutoff hits) k) = filter (\<lambda>t. t > c) (hitsOf hits k)"
proof -
  have h: "hitsOf (gateLive cutoff hits) k =
      (let h = hitsOf hits k in if h \<noteq> [] \<and> last h > cutoff then h else [])"
    using assms(1) by (intro hitsOf_gateLive) (simp add: gate_ok_def)
  have "filter (\<lambda>t. t > c) (hitsOf hits k) = []" if "hitsOf hits k \<noteq> []" "last (hitsOf hits k) \<le> cutoff"
  proof -
    have "t \<le> last (hitsOf hits k)" if "t \<in> set (hitsOf hits k)" for t
      using assms(1) that by (simp add: gate_ok_def sorted_le_last)
    then show ?thesis using that(2) assms(2) by (force simp: filter_empty_conv)
  qed
  then show ?thesis using h by (cases "hitsOf hits k = []") (auto simp: Let_def)
qed

text \<open>The admitted attempts of a sequence of timed attempts.\<close>

fun gateAdmitted :: "(int \<times> PrincipalID \<times> go_string) list \<Rightarrow> windows \<Rightarrow> (int \<times> PrincipalID \<times> go_string) list" where
  "gateAdmitted [] hits = []"
| "gateAdmitted ((t, who, keyID) # rest) hits =
     (case gate_allow who keyID t hits of
        (ok, hits) \<Rightarrow> (if ok then [(t, who, keyID)] else []) @ gateAdmitted rest hits)"

lemma gateLive_ok:
  assumes "gate_ok hits"
  shows "gate_ok (gateLive cutoff hits)"
proof -
  have "length (gateLive cutoff hits) \<le> length hits" "distinct (map fst (gateLive cutoff hits))"
    using assms by (simp_all add: gateLive_def gate_ok_def distinct_map_filter)
  then show ?thesis
    using assms hitsOf_gateLive [of hits cutoff] by (auto simp: gate_ok_def Let_def)
qed

lemma length_update_le: "length (AList.update k v b) \<le> length b + 1"
  by (induction b) auto

lemma length_update_mem: "k \<in> fst ` set b \<Longrightarrow> length (AList.update k v b) = length b"
  by (induction b) auto

lemma update_gate_ok:
  assumes "gate_ok hits" "sorted v" "length hits < maxTrackedGateSubjects \<or> k \<in> fst ` set hits"
  shows "gate_ok (AList.update k v hits)"
proof -
  have "length (AList.update k v hits) \<le> maxTrackedGateSubjects"
    using assms(1,3) length_update_le [of k v hits] length_update_mem [of k hits v]
    by (cases "k \<in> fst ` set hits") (simp_all add: gate_ok_def)
  then show ?thesis using assms(1,2) by (auto simp: gate_ok_def AList.distinct_update hitsOf_update)
qed

lemma hitsOf_mem: "hitsOf hits k \<noteq> [] \<Longrightarrow> k \<in> fst ` set hits"
  by (auto simp: hitsOf_def split: option.splits dest: map_of_SomeD intro: rev_image_eqI)

lemma gate_allow_step:
  assumes "gate_ok hits" "gate_allow who keyID t hits = (ok, hits')" "\<forall>u \<in> set (hitsOf hits (gateSubject who keyID)). u \<le> t"
  shows "gate_ok hits'"
    and "ok \<Longrightarrow> length (filter (\<lambda>u. u > t - seconds 60) (hitsOf hits (gateSubject who keyID))) < GateAttemptsPerMinute"
    and "c \<ge> t - seconds 60 \<Longrightarrow> filter (\<lambda>u. u > c) (hitsOf hits' k) =
      filter (\<lambda>u. u > c) (hitsOf hits k @ (if ok \<and> k = gateSubject who keyID then [t] else []))"
proof -
  define sub cut where "sub = gateSubject who keyID" and "cut = t - seconds 60"
  define kept where "kept = filter (\<lambda>u. u > cut) (hitsOf hits sub)"
  have sorted: "sorted kept" "sorted (kept @ [t])"
    using assms(1,3) by (auto simp: gate_ok_def sorted_append kept_def sub_def intro: sorted_wrt_filter)
  have recent: "filter (\<lambda>u. u > c) kept = filter (\<lambda>u. u > c) (hitsOf hits sub)" if "c \<ge> cut" for c
    unfolding kept_def filter_filter using that by (intro filter_cong) auto
  have mem: "kept \<noteq> [] \<Longrightarrow> sub \<in> fst ` set hits"
    using hitsOf_mem [of hits sub] by (cases "hitsOf hits sub") (auto simp: kept_def)
  have run: "(if length kept \<ge> GateAttemptsPerMinute then (False, AList.update sub kept hits)
      else if kept = [] \<and> length hits \<ge> maxTrackedGateSubjects then
        if length (gateLive cut hits) \<ge> maxTrackedGateSubjects then (False, gateLive cut hits)
        else (True, AList.update sub (kept @ [t]) (gateLive cut hits))
      else (True, AList.update sub (kept @ [t]) hits)) = (ok, hits')"
    using assms(2) unfolding gate_allow_def Let_def sub_def [symmetric] cut_def [symmetric] kept_def [symmetric] .
  consider (limit) "length kept \<ge> GateAttemptsPerMinute"
    | (full) "length kept < GateAttemptsPerMinute" "kept = [] \<and> length hits \<ge> maxTrackedGateSubjects"
        "length (gateLive cut hits) \<ge> maxTrackedGateSubjects"
    | (swept) "length kept < GateAttemptsPerMinute" "kept = [] \<and> length hits \<ge> maxTrackedGateSubjects"
        "length (gateLive cut hits) < maxTrackedGateSubjects"
    | (room) "length kept < GateAttemptsPerMinute" "\<not> (kept = [] \<and> length hits \<ge> maxTrackedGateSubjects)"
    by linarith
  then have "gate_ok hits' \<and> (ok \<longrightarrow> length kept < GateAttemptsPerMinute) \<and>
      (\<forall>c k. c \<ge> cut \<longrightarrow> filter (\<lambda>u. u > c) (hitsOf hits' k) =
        filter (\<lambda>u. u > c) (hitsOf hits k @ (if ok \<and> k = sub then [t] else [])))"
  proof cases
    case limit
    then have "kept \<noteq> []" "ok = False" "hits' = AList.update sub kept hits"
      using run by (auto simp: GateAttemptsPerMinute_def)
    then show ?thesis
      using update_gate_ok [OF assms(1) sorted(1)] mem recent by (simp add: hitsOf_update)
  next
    case full
    then have "ok = False" "hits' = gateLive cut hits" using run by auto
    then show ?thesis using gateLive_ok [OF assms(1)] filter_gateLive [OF assms(1)] by simp
  next
    case swept
    then have "ok = True" "hits' = AList.update sub (kept @ [t]) (gateLive cut hits)" using run by auto
    then show ?thesis
      using swept update_gate_ok [OF gateLive_ok [OF assms(1)] sorted(2)] filter_gateLive [OF assms(1)] recent
      by (simp add: hitsOf_update)
  next
    case room
    then have "ok = True" "hits' = AList.update sub (kept @ [t]) hits" using run by auto
    then show ?thesis
      using room update_gate_ok [OF assms(1) sorted(2)] mem recent by (auto simp: hitsOf_update)
  qed
  then show "gate_ok hits'"
    and "ok \<Longrightarrow> length (filter (\<lambda>u. u > t - seconds 60) (hitsOf hits (gateSubject who keyID))) < GateAttemptsPerMinute"
    and "c \<ge> t - seconds 60 \<Longrightarrow> filter (\<lambda>u. u > c) (hitsOf hits' k) =
      filter (\<lambda>u. u > c) (hitsOf hits k @ (if ok \<and> k = gateSubject who keyID then [t] else []))"
    unfolding kept_def cut_def sub_def by blast+
qed

lemma gate_allow_times:
  assumes "gate_ok hits" "gate_allow who keyID t hits = (ok, hits')"
  shows "set (hitsOf hits' k) \<subseteq> insert t (set (hitsOf hits k))"
proof -
  have "set (hitsOf (gateLive c hits) k) \<subseteq> set (hitsOf hits k)" for c
    using assms(1) hitsOf_gateLive [of hits c k] by (auto simp: gate_ok_def Let_def split: if_splits)
  from this [of "t - seconds 60"] show ?thesis
    using assms(2) by (auto simp: gate_allow_def Let_def hitsOf_update split: if_splits)
qed

lemma gate_window_run:
  assumes "sorted (lo # map fst as)" "gate_ok hits" "\<And>k u. u \<in> set (hitsOf hits k) \<Longrightarrow> u \<le> lo"
    and "remembers lo hist (hitsOf hits (gateSubject who keyID))"
    and "\<And>s. length (in_window s hist) \<le> GateAttemptsPerMinute"
  shows "length (in_window s (hist @ map fst (filter (\<lambda>x. snd x = (who, keyID)) (gateAdmitted as hits)))) \<le> GateAttemptsPerMinute"
  using assms
proof (induction "as" arbitrary: lo hist hits)
  case (Cons x as)
  obtain t p j where x: "x = (t, p, j)" by (metis prod.exhaust)
  obtain ok hits' where run: "gate_allow p j t hits = (ok, hits')" by (cases "gate_allow p j t hits")
  have lo: "lo \<le> t" and sorted: "sorted (t # map fst as)" using Cons.prems(1) x by auto
  have past: "\<forall>u \<in> set (hitsOf hits (gateSubject p j)). u \<le> t"
    using Cons.prems(3) lo by (meson order_trans)
  note step = gate_allow_step [OF Cons.prems(2) run past]
  let ?mine = "ok \<and> (p, j) = (who, keyID)"
  let ?hist = "hist @ (if ?mine then [t] else [])"
  have subject: "(gateSubject who keyID = gateSubject p j) = ((p, j) = (who, keyID))"
    using gateSubject_inj [of who keyID p j] by auto
  have "remembers t ?hist (hitsOf hits' (gateSubject who keyID))"
    using Cons.prems(4) lo step(3) [of _ "gateSubject who keyID"] subject by (auto simp: remembers_def)
  moreover have "length (in_window s ?hist) \<le> GateAttemptsPerMinute" for s
  proof (cases ?mine)
    case True
    then have "length (filter (\<lambda>u. u > t - seconds 60) hist) < GateAttemptsPerMinute"
      using step(2) Cons.prems(4) lo by (auto simp: remembers_def)
    then show ?thesis using True Cons.prems(5) in_window_snoc [of s hist "int GateAttemptsPerMinute" t] by auto
  qed (use Cons.prems(5) in auto)
  moreover have "u \<le> t" if "u \<in> set (hitsOf hits' k)" for k u
    using that gate_allow_times [OF Cons.prems(2) run, of k] Cons.prems(3) lo by force
  ultimately have "length (in_window s (?hist @ map fst (filter (\<lambda>x. snd x = (who, keyID)) (gateAdmitted as hits'))))
      \<le> GateAttemptsPerMinute"
    using Cons.IH [OF sorted step(1), of ?hist] by blast
  moreover have "map fst (filter (\<lambda>x. snd x = (who, keyID)) (gateAdmitted (x # as) hits)) =
      (if ?mine then [t] else []) @ map fst (filter (\<lambda>x. snd x = (who, keyID)) (gateAdmitted as hits'))"
    using run x by auto
  ultimately show ?case by simp
qed (simp add: in_window_def)

text \<open>
  Whatever the other principals and keys do and however many there are, no minute contains more than
  twenty admitted attempts of one principal on one key, while the clock does not run backwards.
\<close>

theorem gate_rate:
  assumes "sorted (map fst as)"
  shows "length (in_window s (map fst (filter (\<lambda>x. snd x = (who, keyID)) (gateAdmitted as [])))) \<le> 20"
proof (cases "as")
  case (Cons x rest)
  have "length (in_window s ([] @ map fst (filter (\<lambda>x. snd x = (who, keyID)) (gateAdmitted as [])))) \<le> GateAttemptsPerMinute"
    using assms Cons
    by (intro gate_window_run [where lo = "fst x"])
       (auto simp: remembers_def hitsOf_def in_window_def gate_ok_def)
  then show ?thesis by (simp add: GateAttemptsPerMinute_def)
qed (simp add: in_window_def)

theorem gate_rate_witness:
  "length (in_window 30 (map fst (filter (\<lambda>x. snd x = (''u'', ''k''))
     (gateAdmitted (map (\<lambda>t. (t, ''u'', ''k'')) [1, 2, 3]) [])))) \<le> 20"
  by (rule gate_rate) simp

section \<open>The gate\<close>

lemma attemptEvent_minted: "ctx_uuid ctx \<noteq> None \<Longrightarrow> \<exists>ev. attemptEvent ctx caller key gate outcome = Some ev"
  by (auto simp: attemptEvent_def newAuditEvent_def NewEventID_def Let_def)

lemma attemptEvent_fields:
  assumes "attemptEvent ctx caller key gate outcome = Some ev"
  shows "ev_Type ev = EventKeyRevealGateAttempt" "ev_Outcome ev = outcome" "ev_Object ev = gateObject key"
    and "ac_ID (ev_Actor ev) = id_Principal caller"
  using assms by (auto simp: attemptEvent_def newAuditEvent_def Let_def split: option.splits)

text \<open>
  C15: the gate is no oracle: what a caller without the capability is told is the refusal of the
  authorization, on the first attempt and on every later one; neither the limiter's state nor the clock
  changes it, and both records of the attempt are captured.
\<close>

theorem reveal_gate_no_oracle:
  assumes "Authorize reg r ctx caller op scope (AttributeDenials (gateObject key) az) = (Inl e, az1)"
    and "ctx_uuid ctx' \<noteq> None"
  shows "\<exists>ev. attemptEvent ctx' caller key gate OutcomeDenied = Some ev \<and>
    (\<forall>now hits. fst (revealGate reg r ctx now ctx' caller scope op key gate hits az) = Inl (GateAuthz e) \<and>
       snd (snd (revealGate reg r ctx now ctx' caller scope op key gate hits az)) =
         CaptureAudit TrailTenant \<lparr>Org = Org scope, Project = Project scope, Env = []\<rparr> ev az1)"
  using assms attemptEvent_minted [OF assms(2), of caller key gate OutcomeDenied]
  by (auto simp: revealGate_def Let_def split: prod.split)

lemma revealGate_refusedD:
  assumes "revealGate reg r ctx now ctx' caller scope op key gate hits az = (Inl (GateAuthz a), hits', az')"
  obtains az1 ev where "Authorize reg r ctx caller op scope (AttributeDenials (gateObject key) az) = (Inl a, az1)"
    "attemptEvent ctx' caller key gate OutcomeDenied = Some ev"
    "az' = CaptureAudit TrailTenant \<lparr>Org = Org scope, Project = Project scope, Env = []\<rparr> ev az1"
  using assms
  by (auto simp: revealGate_def Let_def split: prod.splits option.splits sum.splits if_splits)

lemma recorded_single:
  assumes "recorded ctx caller op a a'" "ta_denials a = []" "\<not> ta_captureErr a'"
  obtains d where "ta_denials a' = [d]" "ev_Type (dn_Event d) = ''grant.denied''"
    "ac_ID (ev_Actor (dn_Event d)) = id_Principal caller" "(''operation'', VString op) \<in> set (ev_Payload (dn_Event d))"
proof (cases "NewEventID (ctx_uuid ctx)")
  case None
  then show ?thesis using assms by (simp add: recorded_def)
next
  case (Some eid)
  let ?d = "last (ta_denials a')"
  have rec: "a' = a\<lparr>ta_denials := ta_denials a @ [?d]\<rparr> \<and>
      ev_Type (dn_Event ?d) = ''grant.denied'' \<and> ac_ID (ev_Actor (dn_Event ?d)) = id_Principal caller \<and>
      (''operation'', VString op) \<in> set (ev_Payload (dn_Event ?d))"
    using assms(1) Some by (simp add: recorded_def Let_def)
  then have "ta_denials a' = ta_denials a @ [?d]" by (metis TxAuthorizer.select_convs(2) TxAuthorizer.surjective TxAuthorizer.update_convs(2))
  then show ?thesis using that [of ?d] rec assms(2) by simp
qed

text \<open>
  An attempt of a caller who may not reveal to change the rules of a secret key: each step before the gate
  passes or fails with an error that is no refusal, the key found is this one, its rules change, and the
  authorization behind the gate fails.
\<close>

definition unrevealing_edit ::
  "Registry \<Rightarrow> ('e \<Rightarrow> 'e \<Rightarrow> bool) \<Rightarrow> Scope \<Rightarrow> 'e \<Rightarrow> Identity \<Rightarrow> GateKey \<Rightarrow> 'e declaration_call \<Rightarrow> bool" where
  "unrevealing_edit reg vdc scope decl caller key c \<longleftrightarrow> gk_Classification key = ''secret'' \<and>
     (\<forall>az. dc_resolve c az = (Inr caller, az) \<or> (\<exists>e az'. dc_resolve c az = (Inl e, az') \<and> er_authz e = None)) \<and>
     (\<forall>az e az'. Authorize reg (dc_resolver c) (dc_ctx c) caller OpKeyUpdateDeclaration scope az = (Inl e, az')
        \<longrightarrow> e \<notin> {ErrNotFound, ErrUnauthorized}) \<and>
     (case keyLookup c of Inl e \<Rightarrow> er_authz e = None | Inr (k, before) \<Rightarrow> k = key \<and> vdc before decl) \<and>
     (\<forall>az. \<exists>e az'. Authorize reg (dc_resolver c) (dc_gate_ctx c) caller OpKeySecretRuleChange scope az = (Inl e, az'))"

abbreviation rule_gate :: "Registry \<Rightarrow> 'e declaration_call \<Rightarrow> Identity \<Rightarrow> Scope \<Rightarrow> GateKey \<Rightarrow> TxAuthorizer
    \<Rightarrow> (gate_error + unit) \<times> windows \<times> TxAuthorizer" where
  "rule_gate reg c caller scope key az \<equiv> revealGate reg (dc_resolver c) (dc_gate_ctx c) (dc_now c) (dc_event_ctx c)
     caller scope OpKeySecretRuleChange key ''value-dependent-rule-change'' (dc_hits c) az"

lemma unrevealing_gate:
  assumes "unrevealing_edit reg vdc scope decl caller key c"
  obtains e hits az' where "rule_gate reg c caller scope key az = (Inl e, hits, az')"
proof -
  obtain e az1 where "Authorize reg (dc_resolver c) (dc_gate_ctx c) caller OpKeySecretRuleChange scope
      (AttributeDenials (gateObject key) az) = (Inl e, az1)"
    using assms unfolding unrevealing_edit_def by blast
  then have "\<exists>e hits az'. rule_gate reg c caller scope key az = (Inl e, hits, az')"
    by (auto simp: revealGate_def Let_def split: prod.split option.split)
  then show thesis using that by blast
qed

text \<open>Such an attempt never reaches \<open>rest\<close>, and a refusal it answers is the gate's.\<close>

lemma unrevealing_attempt:
  assumes edit: "unrevealing_edit reg vdc scope decl caller key (calls i)"
  shows "\<exists>e az'. UpdateDeclaration reg vdc calls scope decl rest i d az = (Inl e, d, az') \<and>
    (er_authz e \<in> {Some ErrNotFound, Some ErrUnauthorized} \<longrightarrow>
       (\<exists>a hits. a \<in> {ErrNotFound, ErrUnauthorized} \<and>
          rule_gate reg (calls i) caller scope key az = (Inl (GateAuthz a), hits, az')))"
proof -
  let ?c = "calls i"
  have secret: "gk_Classification key = ''secret''"
    and resolve: "dc_resolve ?c az = (Inr caller, az) \<or> (\<exists>e az'. dc_resolve ?c az = (Inl e, az') \<and> er_authz e = None)"
    and auth: "\<And>e az'. Authorize reg (dc_resolver ?c) (dc_ctx ?c) caller OpKeyUpdateDeclaration scope az = (Inl e, az')
        \<Longrightarrow> e \<notin> {ErrNotFound, ErrUnauthorized}"
    and look: "case keyLookup ?c of Inl e \<Rightarrow> er_authz e = None | Inr (k, before) \<Rightarrow> k = key \<and> vdc before decl"
    using edit unfolding unrevealing_edit_def by blast+
  obtain ge hits gaz where gate: "rule_gate reg ?c caller scope key az = (Inl ge, hits, gaz)"
    by (rule unrevealing_gate [OF edit])
  obtain o1 az1 where a: "Authorize reg (dc_resolver ?c) (dc_ctx ?c) caller OpKeyUpdateDeclaration scope az = (o1, az1)"
    by (cases "Authorize reg (dc_resolver ?c) (dc_ctx ?c) caller OpKeyUpdateDeclaration scope az")
  have pass: "az1 = az" if "o1 = Inr p" for p using Authorize_unchanged a that by blast
  from resolve show ?thesis
  proof
    assume r: "dc_resolve ?c az = (Inr caller, az)"
    show ?thesis
    proof (cases o1)
      case (Inl e)
      then show ?thesis using r a auth [of e az1]
        by (simp add: UpdateDeclaration_def service_authorize_def plain_error_def)
    next
      case (Inr p)
      then have sa: "service_authorize reg ?c OpKeyUpdateDeclaration scope az = (Inr (caller, p), az)"
        using r a pass by (simp add: service_authorize_def)
      show ?thesis
      proof (cases "keyLookup ?c")
        case (Inl e)
        then show ?thesis using sa look by (simp add: UpdateDeclaration_def)
      next
        case (Inr kb)
        then obtain before where "keyLookup ?c = Inr (key, before)" "vdc before decl"
          using look by (cases kb) auto
        then have "UpdateDeclaration reg vdc calls scope decl rest i d az = (Inl (gate_go_error ge), d, gaz)"
          using sa secret gate by (simp add: UpdateDeclaration_def)
        then show ?thesis
          using gate by (cases ge) (auto simp: gate_go_error_def plain_error_def)
      qed
    qed
  qed (auto simp: UpdateDeclaration_def service_authorize_def)
qed

text \<open>
  C14: a caller who may edit definitions but not reveal cannot change the rules of a secret key, and every
  try is on record: whatever the rest of the closure does and however many attempts the boundary runs, the
  write fails, no data changes and nothing is committed; when it answers a refusal, exactly two records are
  durable, the denial of the reveal-gated operation naming the caller and the denied attempt on the key.
\<close>

theorem refused_reveal_recorded:
  assumes "driver_errors engine envs" "\<And>i. resolver_errors (dc_resolver (calls i))"
    and edit: "\<And>i. unrevealing_edit reg vdc scope decl caller key (calls i)"
    and run: "WriteResult engine expired envs (UpdateDeclaration reg vdc calls scope decl rest) w = (r, w')"
  shows "\<exists>e. r = Inl e \<and> wd_data w' = wd_data w \<and> wd_commits w' = wd_commits w \<and>
    (er_authz e \<in> {Some ErrNotFound, Some ErrUnauthorized} \<and> \<not> retryable engine e \<longrightarrow>
     (\<exists>denied attempt. wd_trail w' = wd_trail w @ [denied, attempt] \<and>
        ev_Type (dn_Event denied) = ''grant.denied'' \<and> ac_ID (ev_Actor (dn_Event denied)) = id_Principal caller \<and>
        (''operation'', VString OpKeySecretRuleChange) \<in> set (ev_Payload (dn_Event denied)) \<and>
        ev_Type (dn_Event attempt) = EventKeyRevealGateAttempt \<and> ev_Outcome (dn_Event attempt) = OutcomeDenied \<and>
        ev_Object (dn_Event attempt) = gateObject key \<and> dn_Trail attempt = TrailTenant))"
proof -
  let ?fn = "UpdateDeclaration reg vdc calls scope decl rest"
  have attempt: "\<exists>e az'. ?fn i d az = (Inl e, d, az') \<and>
      (er_authz e \<in> {Some ErrNotFound, Some ErrUnauthorized} \<longrightarrow>
         (\<exists>a hits. a \<in> {ErrNotFound, ErrUnauthorized} \<and>
            rule_gate reg (calls i) caller scope key az = (Inl (GateAuthz a), hits, az')))" for i d az
    using edit by (rule unrevealing_attempt)
  have "captures_on_failure ?fn"
    unfolding captures_on_failure_def
  proof (intro allI impI)
    fix i d tok v d' az
    assume "?fn i d (NewTxAuthorizer tok) = (Inr v, d', az)"
    then show "ta_denials az = [] \<and> \<not> ta_captureErr az"
      using attempt [of i d "NewTxAuthorizer tok"] by auto
  qed
  then obtain i t where t: "wd_commits t = wd_commits w" "wd_data t = wd_data w" "writeOnce engine envs ?fn i t = (r, w')"
    by (rule last_uncommitted [OF assms(1) _ run])
  obtain e az where fn: "?fn i (wd_data t) (NewTxAuthorizer (wd_nextTok t)) = (Inl e, wd_data t, az)"
    using attempt [of i "wd_data t" "NewTxAuthorizer (wd_nextTok t)"] by (elim exE conjE)
  obtain e where e: "r = Inl e" "wd_data w' = wd_data w" "wd_commits w' = wd_commits w"
    using writeOnce_ends [OF assms(1) t(3)] t(1,2) fn by (auto simp: attempt_ends)
  show ?thesis
  proof (intro exI [of _ e] conjI impI e)
    assume h: "er_authz e \<in> {Some ErrNotFound, Some ErrUnauthorized} \<and> \<not> retryable engine e"
    obtain j tok d az where fn: "?fn j (wd_data w') (NewTxAuthorizer tok) = (Inl e, d, az)"
      and az: "\<not> ta_captureErr az" and trail: "wd_trail w' = wd_trail w @ ta_denials az"
      using denial_attempt [OF assms(1) run [unfolded e(1)]] h by auto
    then obtain a hits where a: "a \<in> {ErrNotFound, ErrUnauthorized}"
      and gate: "rule_gate reg (calls j) caller scope key (NewTxAuthorizer tok) = (Inl (GateAuthz a), hits, az)"
      using attempt [of j "wd_data w'" "NewTxAuthorizer tok"] h unfolding fn by (elim exE conjE) (simp, blast)
    from gate obtain az1 ev where auth: "Authorize reg (dc_resolver (calls j)) (dc_gate_ctx (calls j)) caller
        OpKeySecretRuleChange scope (AttributeDenials (gateObject key) (NewTxAuthorizer tok)) = (Inl a, az1)"
      and ev: "attemptEvent (dc_event_ctx (calls j)) caller key ''value-dependent-rule-change'' OutcomeDenied = Some ev"
      and az1: "az = CaptureAudit TrailTenant \<lparr>Org = Org scope, Project = Project scope, Env = []\<rparr> ev az1"
      by (rule revealGate_refusedD)
    have rec: "recorded (dc_gate_ctx (calls j)) caller OpKeySecretRuleChange
        (AttributeDenials (gateObject key) (NewTxAuthorizer tok)) az1"
      using Authorize_refusal [OF assms(2) auth a]
      by (auto simp: settings_missing_def OpKeySecretRuleChange_def OpEnvDelete_def)
    have "ta_denials (AttributeDenials (gateObject key) (NewTxAuthorizer tok)) = []" "\<not> ta_captureErr az1"
      using az az1 by (simp_all add: CaptureAudit_def AttributeDenials_def NewTxAuthorizer_def)
    from recorded_single [OF rec this] obtain denied where "ta_denials az1 = [denied]" "ev_Type (dn_Event denied) = ''grant.denied''"
      "ac_ID (ev_Actor (dn_Event denied)) = id_Principal caller"
      "(''operation'', VString OpKeySecretRuleChange) \<in> set (ev_Payload (dn_Event denied))"
      .
    then show "\<exists>denied attempt. wd_trail w' = wd_trail w @ [denied, attempt] \<and>
        ev_Type (dn_Event denied) = ''grant.denied'' \<and> ac_ID (ev_Actor (dn_Event denied)) = id_Principal caller \<and>
        (''operation'', VString OpKeySecretRuleChange) \<in> set (ev_Payload (dn_Event denied)) \<and>
        ev_Type (dn_Event attempt) = EventKeyRevealGateAttempt \<and> ev_Outcome (dn_Event attempt) = OutcomeDenied \<and>
        ev_Object (dn_Event attempt) = gateObject key \<and> dn_Trail attempt = TrailTenant"
      using trail az1 attemptEvent_fields [OF ev] by (simp add: CaptureAudit_def)
  qed
qed

section \<open>Witnesses\<close>

definition sample_key :: GateKey where
  "sample_key = \<lparr>gk_ID = ''k1'', gk_Name = ''DB_URL'', gk_Classification = ''secret''\<rparr>"

text \<open>The rows of the policy that the closure asks for, a project, and the edit of a declaration there.\<close>

definition edit_registry :: Registry where
  "edit_registry =
     (let row = (\<lambda>cap. \<lparr>os_class = ClassTenant, os_level = LevelProject, os_formula = [atom cap LevelProject],
        os_storeOps = [], os_postGrantForbidden = False, os_events = [''settings.key_reveal_gate_attempt''],
        os_auditedNone = False, os_reviewExempt = False\<rparr>)
      in \<lparr>reg_ops = [OpKeyUpdateDeclaration \<mapsto> row CapDefinitionsEdit, OpKeySecretRuleChange \<mapsto> row CapReveal]\<rparr>)"

definition edit_scope :: Scope where "edit_scope = \<lparr>Org = ''o'', Project = ''p'', Env = []\<rparr>"

definition edit_grants :: "Capability list \<Rightarrow> Grant list" where
  "edit_grants caps = map (\<lambda>c. \<lparr>grant_Cap = c, grant_Scope = edit_scope\<rparr>) caps"

definition edit_call :: "Capability list \<Rightarrow> nat declaration_call" where
  "edit_call caps = \<lparr>dc_resolve = \<lambda>az. (Inr (sample_caller ClassHuman), az),
     dc_resolver = (sample_resolver (edit_grants caps) False)\<lparr>ResolveChain := Inr\<rparr>, dc_ctx = sample_ctx,
     dc_lock = None, dc_managed = None, dc_get = Inr sample_key, dc_before = Inr 1, dc_gate_ctx = sample_ctx,
     dc_now = 7, dc_event_ctx = sample_ctx\<lparr>ctx_uuid := Some ''id-2''\<rparr>, dc_hits = []\<rparr>"

definition sample_edit :: "Capability list \<Rightarrow> (nat, unit) WriteFn" where
  "sample_edit caps = UpdateDeclaration edit_registry (\<noteq>) (\<lambda>_. edit_call caps) edit_scope (2 :: nat)
     (\<lambda>_ _ _ _ _ d az. (Inr (), d + 1, az))"

theorem reveal_gate_no_oracle_witness:
  "fst (revealGate sample_registry (sample_resolver [] False) sample_ctx 7 sample_ctx (sample_caller ClassHuman)
     sample_scope ''value.reveal'' sample_key ''declassification'' [] sample_authorizer) = Inl (GateAuthz ErrNotFound)"
proof -
  let ?run = "Authorize sample_registry (sample_resolver [] False) sample_ctx (sample_caller ClassHuman)
      ''value.reveal'' sample_scope (AttributeDenials (gateObject sample_key) sample_authorizer)"
  have "?run = (Inl ErrNotFound, snd ?run)" by (rule prod_eqI) (code_simp, simp)
  from reveal_gate_no_oracle [OF this, of sample_ctx "''declassification''"] show ?thesis
    by (auto simp: sample_ctx_def)
qed

lemma edit_unrevealing:
  "unrevealing_edit edit_registry (\<noteq>) edit_scope (2 :: nat) (sample_caller ClassHuman) sample_key (edit_call [CapDefinitionsEdit])"
proof -
  let ?c = "edit_call [CapDefinitionsEdit]"
  have "\<exists>p. Authorize edit_registry (dc_resolver ?c) (dc_ctx ?c) (sample_caller ClassHuman) OpKeyUpdateDeclaration
      edit_scope az = (Inr p, az)" for az
    by (simp add: edit_call_def edit_registry_def edit_grants_def edit_scope_def sample_resolver_def sample_ctx_def
        sample_caller_def Authorize_def authorization_spec_def authorizeTenant_def tenantConjuncts_def scope_Level_def
        truncate_at_def covers_def selfConfigProfile_def level_defs machineRevealWithdrawn_def IsServiceAccountKind_def
        assuranceInadequate_def cap_defs OpKeyUpdateDeclaration_def OpKeySecretRuleChange_def OpSelfConfigApply_def
        OpSelfConfigTest_def ClassHuman_def ClassWorkload_def ClassAutomation_def OpEnvDelete_def Let_def)
  moreover have "\<exists>az'. Authorize edit_registry (dc_resolver ?c) (dc_gate_ctx ?c) (sample_caller ClassHuman)
      OpKeySecretRuleChange edit_scope az = (Inl ErrNotFound, az')" for az
    by (simp add: edit_call_def edit_registry_def edit_grants_def edit_scope_def sample_resolver_def sample_ctx_def
        sample_caller_def Authorize_def authorization_spec_def authorizeTenant_def scope_Level_def refuse_def
        truncate_at_def covers_def level_defs cap_defs OpKeyUpdateDeclaration_def OpKeySecretRuleChange_def Let_def)
  ultimately show ?thesis
    unfolding unrevealing_edit_def
    by (auto simp: edit_call_def keyLookup_def sample_key_def) (metis Inl_Inr_False prod.inject)+
qed

theorem refused_reveal_recorded_witness:
  "\<exists>denied attempt. wd_trail (snd (WriteResult EnginePostgres (\<lambda>_. False) (\<lambda>_. quiet_env)
        (sample_edit [CapDefinitionsEdit]) (fresh 0))) = [denied, attempt] \<and>
     ev_Object (dn_Event attempt) = gateObject sample_key"
proof -
  let ?run = "WriteResult EnginePostgres (\<lambda>_. False) (\<lambda>_. quiet_env) (sample_edit [CapDefinitionsEdit]) (fresh 0)"
  have e: "fst ?run = Inl (plain_error\<lparr>er_authz := Some ErrNotFound\<rparr>)" by code_simp
  have r: "resolver_errors (dc_resolver (edit_call [CapDefinitionsEdit]))"
    by (simp add: edit_call_def resolver_errors_def sample_resolver_def)
  have run: "WriteResult EnginePostgres (\<lambda>_. False) (\<lambda>_. quiet_env) (UpdateDeclaration edit_registry (\<noteq>)
      (\<lambda>_. edit_call [CapDefinitionsEdit]) edit_scope 2 (\<lambda>_ _ _ _ _ d az. (Inr (), d + 1, az))) (fresh 0) = (fst ?run, snd ?run)"
    by (simp add: sample_edit_def)
  have "er_authz (plain_error\<lparr>er_authz := Some ErrNotFound\<rparr>) \<in> {Some ErrNotFound, Some ErrUnauthorized} \<and>
      \<not> retryable EnginePostgres (plain_error\<lparr>er_authz := Some ErrNotFound\<rparr>)"
    by (simp add: plain_error_def retryable_def)
  then show ?thesis
    using refused_reveal_recorded [OF quiet_driver r edit_unrevealing run] unfolding e
    by (elim exE conjE) (simp add: fresh_def, blast)
qed

text \<open>
  The settlement of a committed attempt can make the boundary run it again: the gate's success record is
  flushed after the commit, and a flush that exhausts its retries on serialization failures returns an error
  that still wraps the last of them. The change is then applied four times, and the caller is told it failed.
\<close>

definition contended_env :: attempt_env where
  "contended_env = quiet_env\<lparr>ae_flush := \<lambda>_. \<lparr>fe_begin = None, fe_write = \<lambda>_. None,
     fe_commit = CommitFailed (plain_error\<lparr>er_pgCode := Some ''40001''\<rparr>)\<rparr>\<rparr>"

lemma flush_exhaustion_repeats_commit:
  "WriteResult EnginePostgres (\<lambda>_. False) (\<lambda>_. contended_env) (sample_edit [CapDefinitionsEdit, CapReveal]) (fresh 0) =
     (Inl (plain_error\<lparr>er_pgCode := Some ''40001''\<rparr>),
      (fresh 4)\<lparr>wd_nextTok := 9, wd_dead := {5, 6, 7, 8}, wd_commits := 4\<rparr>)"
  by code_simp

end
