(* ===== verification/Definitions.thy ===== *)
theory Definitions
  imports Schema_Names "HOL-Library.List_Lexorder"
begin

text \<open>
  \<open>internal/definitions\<close>: definition bundles, their matching against the stored definitions of a project,
  the diff and the drift classification, with the export of \<open>internal/service/definitions.go\<close>. A declaration
  (\<open>schema.Declaration\<close>) is a type variable; \<open>schema.ValueDependentChange\<close> and the canonical form that
  \<open>schema.CompileClassified\<close> returns are arguments, as is the size of the JSON encoding. A canonical bundle
  is its wire model; environments and key groups are both the pair of an id and a name.
\<close>

section \<open>Data\<close>

datatype definitions_error =
  StaleID go_string | BothBind go_string | SameFinalName
| DanglingGroup go_string | DanglingEnvironment go_string | AdditiveModification go_string | BaseAhead
| VersionMismatch | TooManyEntries | IDsWithoutBase | BadClassification go_string | BadDeclaration go_string
| BadPresence go_string | BundleTooLarge

record entity =
  en_id :: go_string
  en_name :: go_string

record 'd Key =
  ky_ID :: go_string
  ky_Name :: go_string
  ky_FolderPath :: go_string
  ky_Classification :: go_string
  ky_Description :: go_string
  ky_Deprecated :: bool
  ky_DeprecationNote :: go_string
  ky_Group :: go_string
  ky_Declaration :: 'd
  ky_RequiredIn :: Presence
  ky_ForbiddenIn :: Presence

record 'd Bundle =
  bu_FormatVersion :: int
  bu_BaseRevision :: "int option"
  bu_Environments :: "entity list"
  bu_KeyGroups :: "entity list"
  bu_Keys :: "'d Key list"

record 'd CurrentKey =
  ck_ID :: go_string
  ck_Name :: go_string
  ck_FolderPath :: go_string
  ck_Classification :: go_string
  ck_Description :: go_string
  ck_Deprecated :: bool
  ck_DeprecationNote :: go_string
  ck_GroupID :: go_string
  ck_Declaration :: 'd
  ck_Required :: Presence
  ck_Forbidden :: Presence

record 'd CurrentState =
  cs_SchemaRevision :: int
  cs_Environments :: "entity list"
  cs_KeyGroups :: "entity list"
  cs_Keys :: "'d CurrentKey list"

definition Additive :: "'d Bundle \<Rightarrow> bool" where
  "Additive b = (bu_BaseRevision b = None)"

definition bundleKeyEntities :: "'d Key list \<Rightarrow> entity list" where
  "bundleKeyEntities keys = map (\<lambda>k. \<lparr>en_id = ky_ID k, en_name = ky_Name k\<rparr>) keys"

definition currentKeyEntities :: "'d CurrentKey list \<Rightarrow> entity list" where
  "currentKeyEntities keys = map (\<lambda>k. \<lparr>en_id = ck_ID k, en_name = ck_Name k\<rparr>) keys"

section \<open>Matching\<close>

record kindMatch =
  km_boundDBID :: "go_string list"
  km_creates :: "nat list"
  km_deletes :: "go_string list"

text \<open>
  The two passes over the bundle return the bound id of each entry, empty for none; \<open>seen\<close> are the ids
  that \<open>boundBy\<close> holds.
\<close>

fun bindIDs :: "go_string list \<Rightarrow> go_string set \<Rightarrow> entity list \<Rightarrow> definitions_error + go_string list" where
  "bindIDs db seen [] = Inr []"
| "bindIDs db seen (e # es) =
     (if en_id e = [] then map_sum id ((#) []) (bindIDs db seen es)
      else if en_id e \<notin> set db then Inl (StaleID (en_id e))
      else if en_id e \<in> seen then Inl (BothBind (en_id e))
      else map_sum id ((#) (en_id e)) (bindIDs db (insert (en_id e) seen) es))"

fun bindNames ::
  "(go_string \<rightharpoonup> go_string) \<Rightarrow> go_string set \<Rightarrow> entity list \<Rightarrow> go_string list \<Rightarrow> go_string list" where
  "bindNames byName seen (e # es) (b # bs) =
     (if en_id e \<noteq> [] then b # bindNames byName seen es bs
      else (case byName (en_name e) of
              Some dbID \<Rightarrow>
                (if dbID \<notin> seen then dbID # bindNames byName (insert dbID seen) es bs
                 else [] # bindNames byName seen es bs)
            | None \<Rightarrow> [] # bindNames byName seen es bs))"
| "bindNames byName seen _ _ = []"

definition matchEntities :: "entity list \<Rightarrow> entity list \<Rightarrow> bool \<Rightarrow> definitions_error + kindMatch" where
  "matchEntities bundle current additive =
     (case bindIDs (map en_id current) {} bundle of
        Inl e \<Rightarrow> Inl e
      | Inr byID \<Rightarrow>
          (let byName = map_of (rev (map (\<lambda>c. (en_name c, en_id c)) current));
               bound = bindNames byName (set byID - {[]}) bundle byID;
               creates = filter (\<lambda>i. bound ! i = []) [0..<length bundle]
           in if \<not> distinct (map en_name bundle) then Inl SameFinalName
              else Inr \<lparr>km_boundDBID = bound, km_creates = creates,
                 km_deletes = (if additive then []
                   else map en_id (filter (\<lambda>c. en_id c \<notin> set bound - {[]}) current))\<rparr>))"

section \<open>The diff\<close>

record Rename =
  rn_ID :: go_string
  rn_From :: go_string
  rn_To :: go_string

record Ref =
  rf_ID :: go_string
  rf_Name :: go_string

record 'd KeyUpdate =
  ku_ID :: go_string
  ku_PrevName :: go_string
  ku_Desired :: "'d Key"
  ku_Renamed :: bool
  ku_MetaChanged :: bool
  ku_DeclChanged :: bool
  ku_Reclassified :: bool
  ku_GroupChanged :: bool
  ku_PresenceChanged :: bool
  ku_PrevClassification :: go_string
  ku_PrevDeclaration :: 'd

record 'd Resolution =
  re_Additive :: bool
  re_EnvCreates :: "go_string list"
  re_EnvRenames :: "Rename list"
  re_EnvDeletes :: "Ref list"
  re_GroupCreates :: "go_string list"
  re_GroupRenames :: "Rename list"
  re_GroupDeletes :: "Ref list"
  re_KeyCreates :: "'d Key list"
  re_KeyUpdates :: "'d KeyUpdate list"
  re_KeyDeletes :: "Ref list"
  re_RevealKeys :: "go_string list"

definition nameFor :: "entity list \<Rightarrow> go_string \<Rightarrow> go_string" where
  "nameFor items i = (case find (\<lambda>e. en_id e = i) items of Some e \<Rightarrow> en_name e | None \<Rightarrow> [])"

definition refsFor :: "entity list \<Rightarrow> go_string list \<Rightarrow> Ref list" where
  "refsFor items ids = map (\<lambda>i. \<lparr>rf_ID = i, rf_Name = nameFor items i\<rparr>) ids"

text \<open>The identity a bundle name stands for: the bound id, or a marker for an entry to be created.\<close>

definition identityByName :: "entity list \<Rightarrow> go_string list \<Rightarrow> go_string \<rightharpoonup> go_string" where
  "identityByName es bound =
     map_of (rev (map (\<lambda>(e, b). (en_name e, if b \<noteq> [] then b else ''new:'' @ en_name e)) (zip es bound)))"

text \<open>The loop over the environments, and the same loop over the key groups.\<close>

definition kindRenames :: "entity list \<Rightarrow> entity list \<Rightarrow> go_string list \<Rightarrow> Rename list" where
  "kindRenames current es bound =
     map (\<lambda>(e, b). \<lparr>rn_ID = b, rn_From = nameFor current b, rn_To = en_name e\<rparr>)
       (filter (\<lambda>(e, b). b \<noteq> [] \<and> nameFor current b \<noteq> en_name e) (zip es bound))"

definition kindCreates :: "entity list \<Rightarrow> go_string list \<Rightarrow> go_string list" where
  "kindCreates es bound = map (\<lambda>(e, _). en_name e) (filter (\<lambda>(_, b). b = []) (zip es bound))"

text \<open>Reading a Go map of strings at a key that is absent gives the empty string.\<close>

definition at :: "(go_string \<rightharpoonup> go_string) \<Rightarrow> go_string \<Rightarrow> go_string" where
  "at m k = (case m k of Some v \<Rightarrow> v | None \<Rightarrow> [])"

definition presenceChanged :: "Presence \<Rightarrow> Presence \<Rightarrow> (go_string \<rightharpoonup> go_string) \<Rightarrow> bool" where
  "presenceChanged before desired envIdentity =
     (if Mode before \<noteq> Mode desired then True
      else if Mode desired \<noteq> PresenceExplicit then False
      else if length (Environments before) \<noteq> length (Environments desired) then True
      else list_ex (\<lambda>name. at envIdentity name \<notin> set (Environments before)) (Environments desired))"

definition diffKey ::
  "('d \<Rightarrow> 'd \<Rightarrow> bool) \<Rightarrow> 'd CurrentKey \<Rightarrow> 'd Key \<Rightarrow> (go_string \<rightharpoonup> go_string) \<Rightarrow> (go_string \<rightharpoonup> go_string)
     \<Rightarrow> 'd KeyUpdate" where
  "diffKey vdc before desired envIdentity groupIdentity =
     \<lparr>ku_ID = ck_ID before, ku_PrevName = ck_Name before, ku_Desired = desired,
      ku_Renamed = (ck_Name before \<noteq> ky_Name desired),
      ku_MetaChanged = (ck_FolderPath before \<noteq> ky_FolderPath desired \<or> ck_Description before \<noteq> ky_Description desired \<or>
        ck_Deprecated before \<noteq> ky_Deprecated desired \<or> ck_DeprecationNote before \<noteq> ky_DeprecationNote desired),
      ku_DeclChanged = vdc (ck_Declaration before) (ky_Declaration desired),
      ku_Reclassified = (ck_Classification before \<noteq> ky_Classification desired),
      ku_GroupChanged = ((if ky_Group desired \<noteq> [] then at groupIdentity (ky_Group desired) else []) \<noteq> ck_GroupID before),
      ku_PresenceChanged = (presenceChanged (ck_Required before) (ky_RequiredIn desired) envIdentity \<or>
        presenceChanged (ck_Forbidden before) (ky_ForbiddenIn desired) envIdentity),
      ku_PrevClassification = ck_Classification before, ku_PrevDeclaration = ck_Declaration before\<rparr>"

definition changed :: "'d KeyUpdate \<Rightarrow> bool" where
  "changed u \<longleftrightarrow> ku_Renamed u \<or> ku_MetaChanged u \<or> ku_DeclChanged u \<or> ku_Reclassified u \<or> ku_GroupChanged u \<or>
     ku_PresenceChanged u"

definition NeedsReveal :: "'d KeyUpdate \<Rightarrow> bool" where
  "NeedsReveal u =
     (let wasSecret = (ku_PrevClassification u = ''secret'') in
      wasSecret \<and> ku_DeclChanged u \<or> wasSecret \<and> ky_Classification (ku_Desired u) = ''config'')"

definition validateKeyReferences ::
  "'d Key \<Rightarrow> go_string list \<Rightarrow> go_string list \<Rightarrow> definitions_error option" where
  "validateKeyReferences k envNames groupNames =
     (if ky_Group k \<noteq> [] \<and> ky_Group k \<notin> set groupNames then Some (DanglingGroup (ky_Group k))
      else map_option DanglingEnvironment
        (find (\<lambda>name. name \<notin> set envNames) (Environments (ky_RequiredIn k) @ Environments (ky_ForbiddenIn k))))"

text \<open>The loop over the keys; \<open>look\<close> reads \<open>curKeyByID\<close>, whose zero value is never reached.\<close>

fun resolveKeys ::
  "(go_string \<Rightarrow> 'd CurrentKey option) \<Rightarrow> ('d CurrentKey \<Rightarrow> 'd Key \<Rightarrow> 'd KeyUpdate) \<Rightarrow> ('d Key \<Rightarrow> definitions_error option)
     \<Rightarrow> bool \<Rightarrow> ('d Key \<times> go_string) list \<Rightarrow> definitions_error + ('d Key list \<times> 'd KeyUpdate list \<times> go_string list)" where
  "resolveKeys look diff refs frozen [] = Inr ([], [], [])"
| "resolveKeys look diff refs frozen ((k, b) # rest) =
     (case refs k of Some e \<Rightarrow> Inl e
      | None \<Rightarrow>
          (if b = [] then map_sum id (\<lambda>(cs, us, rs). (k # cs, us, rs)) (resolveKeys look diff refs frozen rest)
           else (case look b of None \<Rightarrow> Inl (StaleID b)
                 | Some before \<Rightarrow>
                     (let upd = diff before k in
                      if \<not> changed upd then resolveKeys look diff refs frozen rest
                      else if frozen then Inl (AdditiveModification (ky_Name k))
                      else map_sum id
                        (\<lambda>(cs, us, rs). (cs, upd # us, if NeedsReveal upd then ky_Name k # rs else rs))
                        (resolveKeys look diff refs frozen rest)))))"

definition keyLoop ::
  "('d \<Rightarrow> 'd \<Rightarrow> bool) \<Rightarrow> 'd Bundle \<Rightarrow> 'd CurrentState \<Rightarrow> bool \<Rightarrow> kindMatch \<Rightarrow> kindMatch \<Rightarrow> kindMatch
     \<Rightarrow> definitions_error + ('d Key list \<times> 'd KeyUpdate list \<times> go_string list)" where
  "keyLoop vdc b cur strict em gm km =
     (let envIdentity = identityByName (bu_Environments b) (km_boundDBID em);
          groupIdentity = identityByName (bu_KeyGroups b) (km_boundDBID gm)
      in resolveKeys (\<lambda>i. find (\<lambda>k. ck_ID k = i) (rev (cs_Keys cur)))
           (\<lambda>before k. diffKey vdc before k envIdentity groupIdentity)
           (\<lambda>k. validateKeyReferences k (map en_name (bu_Environments b)) (map en_name (bu_KeyGroups b)))
           (Additive b \<and> strict) (zip (bu_Keys b) (km_boundDBID km)))"

definition assembleResolution ::
  "'d Bundle \<Rightarrow> 'd CurrentState \<Rightarrow> kindMatch \<Rightarrow> kindMatch \<Rightarrow> kindMatch
     \<Rightarrow> 'd Key list \<times> 'd KeyUpdate list \<times> go_string list \<Rightarrow> 'd Resolution" where
  "assembleResolution b cur em gm km keys =
     (case keys of (creates, updates, reveals) \<Rightarrow>
        \<lparr>re_Additive = Additive b,
         re_EnvCreates = kindCreates (bu_Environments b) (km_boundDBID em),
         re_EnvRenames = kindRenames (cs_Environments cur) (bu_Environments b) (km_boundDBID em),
         re_EnvDeletes = refsFor (cs_Environments cur) (km_deletes em),
         re_GroupCreates = kindCreates (bu_KeyGroups b) (km_boundDBID gm),
         re_GroupRenames = kindRenames (cs_KeyGroups cur) (bu_KeyGroups b) (km_boundDBID gm),
         re_GroupDeletes = refsFor (cs_KeyGroups cur) (km_deletes gm),
         re_KeyCreates = creates, re_KeyUpdates = updates,
         re_KeyDeletes = refsFor (currentKeyEntities (cs_Keys cur)) (km_deletes km),
         re_RevealKeys = sort reveals\<rparr>)"

definition resolve ::
  "('d \<Rightarrow> 'd \<Rightarrow> bool) \<Rightarrow> 'd Bundle \<Rightarrow> 'd CurrentState \<Rightarrow> bool \<Rightarrow> definitions_error + 'd Resolution" where
  "resolve vdc b cur strict =
     (case matchEntities (bu_Environments b) (cs_Environments cur) (Additive b) of Inl e \<Rightarrow> Inl e | Inr em \<Rightarrow>
      case matchEntities (bu_KeyGroups b) (cs_KeyGroups cur) (Additive b) of Inl e \<Rightarrow> Inl e | Inr gm \<Rightarrow>
      case matchEntities (bundleKeyEntities (bu_Keys b)) (currentKeyEntities (cs_Keys cur)) (Additive b) of
        Inl e \<Rightarrow> Inl e | Inr km \<Rightarrow>
      map_sum id (assembleResolution b cur em gm km) (keyLoop vdc b cur strict em gm km))"

abbreviation Resolve where "Resolve vdc b cur \<equiv> resolve vdc b cur True"

section \<open>Drift\<close>

definition resolutionEmpty :: "'d Resolution \<Rightarrow> bool" where
  "resolutionEmpty r \<longleftrightarrow>
     re_EnvCreates r = [] \<and> re_EnvRenames r = [] \<and> re_EnvDeletes r = [] \<and>
     re_GroupCreates r = [] \<and> re_GroupRenames r = [] \<and> re_GroupDeletes r = [] \<and>
     re_KeyCreates r = [] \<and> re_KeyUpdates r = [] \<and> re_KeyDeletes r = []"

definition DeletionsPresent :: "'d Resolution \<Rightarrow> bool" where
  "DeletionsPresent r \<longleftrightarrow> re_EnvDeletes r \<noteq> [] \<or> re_GroupDeletes r \<noteq> [] \<or> re_KeyDeletes r \<noteq> []"

datatype DriftState = DriftEqual | DriftFileAhead | DriftDBAhead | DriftDiverged

text \<open>\<open>Compare\<close> returns the resolution where the code returns its rendering \<open>res.Diff()\<close>.\<close>

definition Compare ::
  "('d \<Rightarrow> 'd \<Rightarrow> bool) \<Rightarrow> 'd Bundle \<Rightarrow> 'd CurrentState \<Rightarrow> definitions_error + DriftState \<times> 'd Resolution" where
  "Compare vdc b cur =
     (case resolve vdc b cur False of
        Inl e \<Rightarrow> Inl e
      | Inr res \<Rightarrow>
          (let diff = \<not> resolutionEmpty res in
           case bu_BaseRevision b of
             None \<Rightarrow> Inr (if diff then DriftFileAhead else DriftEqual, res)
           | Some base \<Rightarrow>
               (if base > cs_SchemaRevision cur then Inl BaseAhead
                else if base = cs_SchemaRevision cur then Inr (if diff then DriftFileAhead else DriftEqual, res)
                else Inr (if diff then DriftDiverged else DriftDBAhead, res))))"

section \<open>Canonical bundles and export\<close>

definition FormatVersion :: int where "FormatVersion = 1"
definition MaxBundleBytes :: int where "MaxBundleBytes = 1048576"
definition MaxBundleEntries :: int where "MaxBundleEntries = 10000"

definition hasIDs :: "'d Bundle \<Rightarrow> bool" where
  "hasIDs b \<longleftrightarrow> list_ex (\<lambda>e. en_id e \<noteq> []) (bu_Environments b) \<or> list_ex (\<lambda>g. en_id g \<noteq> []) (bu_KeyGroups b) \<or>
     list_ex (\<lambda>k. ky_ID k \<noteq> []) (bu_Keys b)"

definition validateBundle :: "'d Bundle \<Rightarrow> definitions_error option" where
  "validateBundle b =
     (if bu_FormatVersion b \<noteq> FormatVersion then Some VersionMismatch
      else if int (length (bu_Keys b) + length (bu_Environments b) + length (bu_KeyGroups b)) > MaxBundleEntries
      then Some TooManyEntries
      else if Additive b \<and> hasIDs b then Some IDsWithoutBase else None)"

definition normalizePresence :: "go_string \<Rightarrow> Presence \<Rightarrow> definitions_error + Presence" where
  "normalizePresence keyName p =
     (let envs = sort (Environments p) in
      if Mode p = PresenceNone \<or> Mode p = PresenceAll then
        (if envs \<noteq> [] then Inl (BadPresence keyName) else Inr \<lparr>Mode = Mode p, Environments = []\<rparr>)
      else if Mode p = PresenceExplicit then
        (if envs = [] \<or> [] \<in> set envs \<or> \<not> distinct envs then Inl (BadPresence keyName)
         else Inr \<lparr>Mode = Mode p, Environments = envs\<rparr>)
      else Inl (BadPresence keyName))"

definition compileKey :: "(go_string \<Rightarrow> 'd \<Rightarrow> 'd option) \<Rightarrow> 'd Key \<Rightarrow> definitions_error + 'd Key" where
  "compileKey compile k =
     (if ky_Classification k \<noteq> ''secret'' \<and> ky_Classification k \<noteq> ''config'' then Inl (BadClassification (ky_Name k))
      else (case compile (ky_Classification k) (ky_Declaration k) of
              None \<Rightarrow> Inl (BadDeclaration (ky_Name k))
            | Some d \<Rightarrow>
                (case normalizePresence (ky_Name k) (ky_RequiredIn k) of Inl e \<Rightarrow> Inl e | Inr req \<Rightarrow>
                 case normalizePresence (ky_Name k) (ky_ForbiddenIn k) of Inl e \<Rightarrow> Inl e | Inr forb \<Rightarrow>
                 Inr (k\<lparr>ky_Declaration := d, ky_RequiredIn := req, ky_ForbiddenIn := forb\<rparr>))))"

fun compileKeys :: "(go_string \<Rightarrow> 'd \<Rightarrow> 'd option) \<Rightarrow> 'd Key list \<Rightarrow> definitions_error + 'd Key list" where
  "compileKeys compile [] = Inr []"
| "compileKeys compile (k # ks) =
     (case compileKey compile k of Inl e \<Rightarrow> Inl e | Inr k' \<Rightarrow> map_sum id ((#) k') (compileKeys compile ks))"

definition Canonicalize ::
  "(go_string \<Rightarrow> 'd \<Rightarrow> 'd option) \<Rightarrow> ('d Bundle \<Rightarrow> int) \<Rightarrow> 'd Bundle \<Rightarrow> definitions_error + 'd Bundle" where
  "Canonicalize compile encodedSize b =
     (case validateBundle b of Some e \<Rightarrow> Inl e
      | None \<Rightarrow>
          (case compileKeys compile (sort_key ky_Name (bu_Keys b)) of Inl e \<Rightarrow> Inl e
           | Inr keys \<Rightarrow>
               (let out = b\<lparr>bu_FormatVersion := FormatVersion, bu_Environments := sort_key en_name (bu_Environments b),
                      bu_KeyGroups := sort_key en_name (bu_KeyGroups b), bu_Keys := keys\<rparr>
                in if encodedSize out > MaxBundleBytes then Inl BundleTooLarge else Inr out)))"

definition bundlePresence :: "Presence \<Rightarrow> (go_string \<rightharpoonup> go_string) \<Rightarrow> Presence" where
  "bundlePresence p envNameByID = \<lparr>Mode = Mode p, Environments = map (at envNameByID) (Environments p)\<rparr>"

definition bundleFromState :: "'d CurrentState \<Rightarrow> bool \<Rightarrow> 'd Bundle" where
  "bundleFromState cur withIDs =
     (let envNameByID = map_of (rev (map (\<lambda>e. (en_id e, en_name e)) (cs_Environments cur)));
          groupNameByID = map_of (rev (map (\<lambda>g. (en_id g, en_name g)) (cs_KeyGroups cur)));
          stamp = (\<lambda>i. if withIDs then i else [])
      in \<lparr>bu_FormatVersion = FormatVersion,
          bu_BaseRevision = (if withIDs then Some (cs_SchemaRevision cur) else None),
          bu_Environments = map (\<lambda>e. \<lparr>en_id = stamp (en_id e), en_name = en_name e\<rparr>) (cs_Environments cur),
          bu_KeyGroups = map (\<lambda>g. \<lparr>en_id = stamp (en_id g), en_name = en_name g\<rparr>) (cs_KeyGroups cur),
          bu_Keys = map (\<lambda>k. \<lparr>ky_ID = stamp (ck_ID k), ky_Name = ck_Name k, ky_FolderPath = ck_FolderPath k,
              ky_Classification = ck_Classification k, ky_Description = ck_Description k,
              ky_Deprecated = ck_Deprecated k, ky_DeprecationNote = ck_DeprecationNote k,
              ky_Group = at groupNameByID (ck_GroupID k), ky_Declaration = ck_Declaration k,
              ky_RequiredIn = bundlePresence (ck_Required k) envNameByID,
              ky_ForbiddenIn = bundlePresence (ck_Forbidden k) envNameByID\<rparr>) (cs_Keys cur)\<rparr>)"

section \<open>Matching is a partial bijection\<close>

definition entities_ok :: "entity list \<Rightarrow> bool" where
  "entities_ok es \<longleftrightarrow> distinct (map en_id es) \<and> [] \<notin> en_id ` set es \<and> distinct (map en_name es)"

abbreviation bound_ids :: "go_string list \<Rightarrow> go_string list" where
  "bound_ids bs \<equiv> filter (\<lambda>b. b \<noteq> []) bs"

lemma bindIDs_Inr:
  "bindIDs db seen es = Inr bs \<Longrightarrow>
   bs = map en_id es \<and> (\<forall>b \<in> set bs. b \<noteq> [] \<longrightarrow> b \<in> set db \<and> b \<notin> seen) \<and> distinct (bound_ids bs)"
proof (induction es arbitrary: seen bs)
  case (Cons e es)
  show ?case
  proof (cases "en_id e = []")
    case True
    with Cons.prems obtain cs where cs: "bindIDs db seen es = Inr cs" "bs = [] # cs"
      by (cases "bindIDs db seen es") auto
    from Cons.IH [OF cs(1)] have "cs = map en_id es" "\<forall>b \<in> set cs. b \<noteq> [] \<longrightarrow> b \<in> set db \<and> b \<notin> seen"
      "distinct (bound_ids cs)" by blast+
    then show ?thesis unfolding cs(2) using True by simp
  next
    case False
    with Cons.prems obtain cs where cs: "bindIDs db (insert (en_id e) seen) es = Inr cs" "bs = en_id e # cs"
      and e: "en_id e \<in> set db" "en_id e \<notin> seen"
      by (cases "bindIDs db (insert (en_id e) seen) es") (auto split: if_splits)
    from Cons.IH [OF cs(1)] have IH: "cs = map en_id es" "distinct (bound_ids cs)"
      "\<forall>b \<in> set cs. b \<noteq> [] \<longrightarrow> b \<in> set db \<and> b \<notin> insert (en_id e) seen" by blast+
    then have "en_id e \<notin> set cs" using False by blast
    then show ?thesis unfolding cs(2) using IH e False by simp
  qed
qed simp

lemma length_bindNames [simp]: "length bs = length es \<Longrightarrow> length (bindNames byName seen es bs) = length es"
  by (induction byName seen es bs rule: bindNames.induct) (auto split: option.splits)

text \<open>One entry of the second pass, with the ids that are taken afterwards.\<close>

lemma bindNames_step:
  assumes "[] \<notin> ran byName"
  obtains (own) "en_id e \<noteq> []" "bindNames byName seen (e # es) (map en_id (e # es)) =
        en_id e # bindNames byName seen es (map en_id es)"
    | (named) i where "en_id e = []" "i \<noteq> []" "byName (en_name e) = Some i" "i \<notin> seen"
        "bindNames byName seen (e # es) (map en_id (e # es)) = i # bindNames byName (insert i seen) es (map en_id es)"
    | (new) "en_id e = []" "\<forall>i. byName (en_name e) = Some i \<longrightarrow> i \<in> seen"
        "bindNames byName seen (e # es) (map en_id (e # es)) = [] # bindNames byName seen es (map en_id es)"
proof (cases "en_id e = []")
  case True
  show ?thesis
  proof (cases "byName (en_name e)")
    case None
    then show ?thesis using True new by simp
  next
    case (Some i)
    then have "i \<noteq> []" using assms ranI by metis
    then show ?thesis using Some True new named by (cases "i \<in> seen") simp_all
  qed
next
  case False
  then show ?thesis using own by simp
qed

lemma bindNames_sound:
  assumes "[] \<notin> ran byName" "(e, b) \<in> set (zip es (bindNames byName seen es (map en_id es)))"
  shows "(en_id e \<noteq> [] \<longrightarrow> b = en_id e) \<and>
    (en_id e = [] \<and> b \<noteq> [] \<longrightarrow> byName (en_name e) = Some b \<and> b \<notin> seen)"
  using assms(2)
proof (induction es arbitrary: seen)
  case (Cons f es)
  show ?case
    by (rule bindNames_step [OF assms(1), of f seen es])
      (use Cons.prems Cons.IH in auto)
qed simp

lemma bindNames_mem:
  assumes "[] \<notin> ran byName" "b \<in> set (bindNames byName seen es (map en_id es))" "b \<noteq> []"
  shows "b \<in> en_id ` set es \<or> b \<in> ran byName \<and> b \<notin> seen"
  using assms(2)
proof (induction es arbitrary: seen)
  case (Cons f es)
  show ?case
    by (rule bindNames_step [OF assms(1), of f seen es])
      (use Cons.prems Cons.IH assms(3) in \<open>auto intro: ranI\<close>)
qed simp

lemma bindNames_distinct:
  assumes "[] \<notin> ran byName" "distinct (bound_ids (map en_id es))"
    and "\<And>b. b \<in> en_id ` set es \<Longrightarrow> b \<noteq> [] \<Longrightarrow> b \<in> seen"
  shows "distinct (bound_ids (bindNames byName seen es (map en_id es)))"
  using assms(2,3)
proof (induction es arbitrary: seen)
  case (Cons e es)
  have IH: "distinct (bound_ids (bindNames byName s es (map en_id es)))" if "seen \<subseteq> s" for s
    using Cons.prems that by (intro Cons.IH) (auto split: if_splits)
  have taken: "b \<in> seen" if "b \<in> en_id ` set es" "b \<noteq> []" for b using Cons.prems(2) that by simp
  show ?case
  proof (rule bindNames_step [OF assms(1), of e seen es])
    assume own: "en_id e \<noteq> []" and run: "bindNames byName seen (e # es) (map en_id (e # es)) =
        en_id e # bindNames byName seen es (map en_id es)"
    have "en_id e \<notin> en_id ` set es" "en_id e \<in> seen" using Cons.prems own by auto
    then have "en_id e \<notin> set (bindNames byName seen es (map en_id es))"
      using bindNames_mem [OF assms(1) _ own] by blast
    then show ?thesis unfolding run using IH [of seen] own by simp
  next
    fix i
    assume i: "i \<noteq> []" "i \<notin> seen" and run: "bindNames byName seen (e # es) (map en_id (e # es)) =
        i # bindNames byName (insert i seen) es (map en_id es)"
    have "i \<notin> set (bindNames byName (insert i seen) es (map en_id es))"
      using bindNames_mem [OF assms(1) _ i(1), of "insert i seen" es] taken i by blast
    then show ?thesis unfolding run using IH [of "insert i seen"] i by auto
  next
    assume "bindNames byName seen (e # es) (map en_id (e # es)) = [] # bindNames byName seen es (map en_id es)"
    then show ?thesis using IH [of seen] by simp
  qed
qed simp

lemma bindNames_complete:
  assumes "[] \<notin> ran byName" "(e, []) \<in> set (zip es (bindNames byName seen es (map en_id es)))"
    and "byName (en_name e) = Some i"
  shows "i \<in> seen \<or> i \<in> set (bindNames byName seen es (map en_id es))"
  using assms(2)
proof (induction es arbitrary: seen)
  case (Cons f es)
  show ?case
    by (rule bindNames_step [OF assms(1), of f seen es])
      (use Cons.prems Cons.IH assms(3) in auto)
qed simp

lemma byName_current:
  assumes "distinct (map en_name current)"
  shows "map_of (rev (map (\<lambda>c. (en_name c, en_id c)) current)) n = Some i \<longleftrightarrow>
    (\<exists>c \<in> set current. en_name c = n \<and> en_id c = i)"
proof -
  have "distinct (map fst (rev (map (\<lambda>c. (en_name c, en_id c)) current)))"
    using assms by (simp add: rev_map [symmetric] comp_def)
  then show ?thesis by (auto simp: map_of_eq_Some_iff)
qed

lemma nameFor_mem: "distinct (map en_id es) \<Longrightarrow> e \<in> set es \<Longrightarrow> nameFor es (en_id e) = en_name e"
  by (induction es) (auto simp: nameFor_def)

definition match_ok :: "entity list \<Rightarrow> entity list \<Rightarrow> go_string list \<Rightarrow> bool" where
  "match_ok bundle current bound \<longleftrightarrow>
     length bound = length bundle \<and> distinct (map en_name bundle) \<and> distinct (bound_ids bound) \<and>
     set (bound_ids bound) \<subseteq> en_id ` set current \<and>
     (\<forall>(e, b) \<in> set (zip bundle bound).
        (en_id e \<noteq> [] \<longrightarrow> b = en_id e) \<and>
        (en_id e = [] \<and> b \<noteq> [] \<longrightarrow> nameFor current b = en_name e) \<and>
        (b = [] \<longrightarrow> (\<forall>c \<in> set current. en_name c = en_name e \<longrightarrow> en_id c \<in> set bound)))"

lemma matchEntities_ok:
  assumes "entities_ok current" "matchEntities bundle current additive = Inr m"
  shows "match_ok bundle current (km_boundDBID m)"
    and "km_creates m = filter (\<lambda>i. km_boundDBID m ! i = []) [0..<length bundle]"
    and "km_deletes m = (if additive then [] else map en_id (filter (\<lambda>c. en_id c \<notin> set (km_boundDBID m)) current))"
proof -
  obtain byID where ids: "bindIDs (map en_id current) {} bundle = Inr byID"
    using assms(2) by (cases "bindIDs (map en_id current) {} bundle") (simp_all add: matchEntities_def)
  let ?byName = "map_of (rev (map (\<lambda>c. (en_name c, en_id c)) current))"
  have byID: "byID = map en_id bundle" "\<And>b. b \<in> set byID \<Longrightarrow> b \<noteq> [] \<Longrightarrow> b \<in> en_id ` set current"
    "distinct (bound_ids byID)"
    using bindIDs_Inr [OF ids, unfolded set_map] by blast+
  define bound where "bound = bindNames ?byName (set byID - {[]}) bundle (map en_id bundle)"
  have len: "length bound = length bundle" by (simp add: bound_def)
  have m: "distinct (map en_name bundle)" "km_boundDBID m = bound"
    "km_creates m = filter (\<lambda>i. bound ! i = []) [0..<length bundle]"
    "km_deletes m = (if additive then [] else map en_id (filter (\<lambda>c. en_id c \<notin> set bound - {[]}) current))"
    using assms(2) ids unfolding matchEntities_def Let_def byID(1) [symmetric] bound_def
    by (auto split: if_splits)
  have names: "?byName n = Some i \<longleftrightarrow> (\<exists>c \<in> set current. en_name c = n \<and> en_id c = i)" for n i
    using assms(1) by (intro byName_current) (simp add: entities_ok_def)
  have ran: "ran ?byName \<subseteq> en_id ` set current" by (auto simp: ran_def names)
  then have none: "[] \<notin> ran ?byName" using assms(1) by (auto simp: entities_ok_def)
  from ran have "b \<in> en_id ` set current" if "b \<in> set bound" "b \<noteq> []" for b
    using bindNames_mem [OF none that(1) [unfolded bound_def] that(2)] byID that(2) by auto
  then have "set (bound_ids bound) \<subseteq> en_id ` set current" by auto
  moreover have "distinct (bound_ids bound)"
    unfolding bound_def using byID by (intro bindNames_distinct none) auto
  moreover have "(en_id e \<noteq> [] \<longrightarrow> b = en_id e) \<and> (en_id e = [] \<and> b \<noteq> [] \<longrightarrow> nameFor current b = en_name e) \<and>
      (b = [] \<longrightarrow> (\<forall>c \<in> set current. en_name c = en_name e \<longrightarrow> en_id c \<in> set bound))"
    if mem: "(e, b) \<in> set (zip bundle bound)" for e b
  proof (intro conjI impI ballI)
    note sound = bindNames_sound [OF none mem [unfolded bound_def]]
    show "b = en_id e" if "en_id e \<noteq> []" using sound that by blast
    show "nameFor current b = en_name e" if "en_id e = [] \<and> b \<noteq> []"
    proof -
      have "?byName (en_name e) = Some b" using sound that by blast
      then obtain c where "c \<in> set current" "en_name c = en_name e" "en_id c = b" using names by blast
      then show ?thesis using nameFor_mem [of current c] assms(1) by (simp add: entities_ok_def)
    qed
    show "en_id c \<in> set bound" if "b = []" "c \<in> set current" "en_name c = en_name e" for c
    proof -
      have "?byName (en_name e) = Some (en_id c)" using names that by blast
      then have "en_id c \<in> (set byID - {[]}) \<union> set bound"
        using bindNames_complete [OF none] mem that(1) unfolding bound_def by blast
      moreover have "i \<in> set bound" if i: "i \<in> set byID - {[]}" for i
      proof -
        obtain k where k: "k < length bundle" "en_id (bundle ! k) = i" "i \<noteq> []"
          using i unfolding byID(1) by (force simp: in_set_conv_nth)
        then have pair: "(bundle ! k, bound ! k) \<in> set (zip bundle bound)" and bk: "bound ! k \<in> set bound"
          using len by (auto simp: in_set_zip intro: nth_mem)
        have "bound ! k = i"
          using bindNames_sound [OF none pair [unfolded bound_def]] k unfolding bound_def by blast
        then show ?thesis using bk by simp
      qed
      ultimately show ?thesis by blast
    qed
  qed
  ultimately show "match_ok bundle current (km_boundDBID m)"
    unfolding match_ok_def m(2) using m(1) len by blast
  have no_empty: "filter (\<lambda>c. en_id c \<notin> set bound - {[]}) current = filter (\<lambda>c. en_id c \<notin> set bound) current"
    using assms(1) by (intro filter_cong refl) (force simp: entities_ok_def image_iff)
  show "km_creates m = filter (\<lambda>i. km_boundDBID m ! i = []) [0..<length bundle]" using m by simp
  show "km_deletes m = (if additive then [] else map en_id (filter (\<lambda>c. en_id c \<notin> set (km_boundDBID m)) current))"
    using m no_empty by (simp only: if_cancel)
qed

section \<open>Resolutions\<close>

lemma map_sum_Inr_cases:
  assumes "map_sum id f r = Inr y"
  obtains x where "r = Inr x" "y = f x"
  using assms by (cases r) auto

lemma resolveKeys_frozen: "resolveKeys look diff refs True kbs = Inr (cs, us, rs) \<Longrightarrow> us = [] \<and> rs = []"
proof (induction kbs arbitrary: cs us rs)
  case (Cons kb kbs)
  obtain k b where kb: "kb = (k, b)" by (cases kb)
  show ?case
  proof (cases "resolveKeys look diff refs True kbs")
    case (Inr r)
    obtain cs' us' rs' where r: "r = (cs', us', rs')" by (metis prod.exhaust)
    show ?thesis
      using Cons.prems Cons.IH [OF Inr [unfolded r]] Inr r kb
      by (auto simp: Let_def split: option.splits if_splits)
  qed (use Cons.prems kb in \<open>auto simp: Let_def split: option.splits if_splits\<close>)
qed simp

lemma resolveKeys_reveals:
  assumes "resolveKeys look diff refs frozen kbs = Inr (cs, us, rs)" "(k, b) \<in> set kbs" "b \<noteq> []"
    and "look b = Some before" "NeedsReveal (diff before k)" "changed (diff before k)"
  shows "ky_Name k \<in> set rs \<and> diff before k \<in> set us"
  using assms(1,2)
proof (induction kbs arbitrary: cs us rs)
  case (Cons kb kbs)
  obtain k' b' where kb: "kb = (k', b')" by (cases kb)
  show ?case
  proof (cases "resolveKeys look diff refs frozen kbs")
    case (Inr r)
    obtain cs' us' rs' where r: "r = (cs', us', rs')" by (metis prod.exhaust)
    show ?thesis
    proof (cases "(k, b) = kb")
      case True
      then show ?thesis
        using Cons.prems(1) Inr r kb assms(3-6) by (auto simp: Let_def split: option.splits if_splits)
    next
      case False
      then have "ky_Name k \<in> set rs' \<and> diff before k \<in> set us'"
        using Cons.IH [OF Inr [unfolded r]] Cons.prems(2) by auto
      then show ?thesis
        using Cons.prems(1) Inr r kb by (auto simp: Let_def split: option.splits if_splits)
    qed
  next
    case (Inl e)
    have "ky_Name k \<in> set rs \<and> diff before k \<in> set us" if "kbs = []" using that Inl by simp
    then show ?thesis
      using Cons.prems(1) Inl kb by (auto simp: Let_def split: option.splits if_splits)
  qed
qed simp

text \<open>What a successful resolution consists of.\<close>

lemma resolve_Inr:
  assumes "resolve vdc b cur strict = Inr res"
  obtains em gm km creates updates reveals where
    "matchEntities (bu_Environments b) (cs_Environments cur) (Additive b) = Inr em"
    "matchEntities (bu_KeyGroups b) (cs_KeyGroups cur) (Additive b) = Inr gm"
    "matchEntities (bundleKeyEntities (bu_Keys b)) (currentKeyEntities (cs_Keys cur)) (Additive b) = Inr km"
    "keyLoop vdc b cur strict em gm km = Inr (creates, updates, reveals)"
    "res = assembleResolution b cur em gm km (creates, updates, reveals)"
  using assms that by (auto simp: resolve_def split: sum.splits elim!: map_sum_Inr_cases)

lemma kindRenames_named:
  assumes "match_ok es current bound" "\<forall>e \<in> set es. en_id e = []"
  shows "kindRenames current es bound = []"
proof -
  have "nameFor current b = en_name e" if "(e, b) \<in> set (zip es bound)" "b \<noteq> []" for e b
    using assms that set_zip_leftD [OF that(1)] unfolding match_ok_def by blast
  then show ?thesis by (auto simp: kindRenames_def filter_empty_conv)
qed

definition state_ok :: "'d CurrentState \<Rightarrow> bool" where
  "state_ok cur \<longleftrightarrow> entities_ok (cs_Environments cur) \<and> entities_ok (cs_KeyGroups cur) \<and>
     entities_ok (currentKeyEntities (cs_Keys cur))"

text \<open>
  C17: a bundle without a base revision only ever creates: its resolution deletes nothing, renames nothing
  and updates no key, whatever the project holds.
\<close>

theorem additive_only_creates:
  assumes "state_ok cur" "validateBundle b = None" "bu_BaseRevision b = None" "resolve vdc b cur True = Inr res"
  shows "re_EnvRenames res = [] \<and> re_EnvDeletes res = [] \<and> re_GroupRenames res = [] \<and> re_GroupDeletes res = [] \<and>
    re_KeyUpdates res = [] \<and> re_KeyDeletes res = [] \<and> re_RevealKeys res = []"
proof -
  have add: "Additive b" using assms(3) by (simp add: Additive_def)
  have no_ids: "\<forall>e \<in> set (bu_Environments b). en_id e = []" "\<forall>e \<in> set (bu_KeyGroups b). en_id e = []"
    using assms(2) add by (auto simp: validateBundle_def hasIDs_def list_ex_iff split: if_splits)
  obtain em gm km creates updates reveals where
    m: "matchEntities (bu_Environments b) (cs_Environments cur) (Additive b) = Inr em"
      "matchEntities (bu_KeyGroups b) (cs_KeyGroups cur) (Additive b) = Inr gm"
      "matchEntities (bundleKeyEntities (bu_Keys b)) (currentKeyEntities (cs_Keys cur)) (Additive b) = Inr km"
    and keys: "keyLoop vdc b cur True em gm km = Inr (creates, updates, reveals)"
    and res: "res = assembleResolution b cur em gm km (creates, updates, reveals)"
    using assms(4) by (rule resolve_Inr)
  have ok: "entities_ok (cs_Environments cur)" "entities_ok (cs_KeyGroups cur)"
    "entities_ok (currentKeyEntities (cs_Keys cur))" using assms(1) by (simp_all add: state_ok_def)
  have "updates = [] \<and> reveals = []"
    by (rule resolveKeys_frozen) (use keys add in \<open>simp add: keyLoop_def Let_def\<close>)
  moreover have "km_deletes em = []" "km_deletes gm = []" "km_deletes km = []"
    using matchEntities_ok(3) [OF ok(1) m(1)] matchEntities_ok(3) [OF ok(2) m(2)] matchEntities_ok(3) [OF ok(3) m(3)] add
    by simp_all
  ultimately show ?thesis
    using kindRenames_named [OF matchEntities_ok(1) [OF ok(1) m(1)] no_ids(1)]
      kindRenames_named [OF matchEntities_ok(1) [OF ok(2) m(2)] no_ids(2)]
    by (simp add: res refsFor_def assembleResolution_def)
qed

section \<open>Export and check\<close>

lemma bindIDs_total:
  assumes "\<forall>e \<in> set es. en_id e \<noteq> [] \<longrightarrow> en_id e \<in> set db \<and> en_id e \<notin> seen" "distinct (bound_ids (map en_id es))"
  shows "bindIDs db seen es = Inr (map en_id es)"
  using assms
proof (induction es arbitrary: seen)
  case (Cons e es)
  show ?case
  proof (cases "en_id e = []")
    case True
    then show ?thesis using Cons by simp
  next
    case False
    then have "bindIDs db (insert (en_id e) seen) es = Inr (map en_id es)"
      using Cons.prems by (intro Cons.IH) (auto simp: image_iff)
    then show ?thesis using Cons.prems False by simp
  qed
qed simp

definition stamped_entity :: "bool \<Rightarrow> entity \<Rightarrow> entity" where
  "stamped_entity w c = \<lparr>en_id = (if w then en_id c else []), en_name = en_name c\<rparr>"

lemma entities_ok_id: "entities_ok es \<Longrightarrow> c \<in> set es \<Longrightarrow> en_id c \<noteq> []"
  unfolding entities_ok_def by (metis image_eqI)

lemma same_name: "entities_ok es \<Longrightarrow> c \<in> set es \<Longrightarrow> d \<in> set es \<Longrightarrow> en_name c = en_name d \<Longrightarrow> c = d"
  unfolding entities_ok_def by (auto simp: distinct_map dest: inj_onD)

lemma matchEntities_export:
  assumes ok: "entities_ok current" and perm: "mset bundle = mset (map (stamped_entity w) current)"
  shows "\<exists>m. matchEntities bundle current additive = Inr m"
proof -
  have "mset (map en_name bundle) = mset (map en_name current)"
    using arg_cong [OF perm, of "image_mset en_name"] by (simp add: stamped_entity_def multiset.map_comp comp_def)
  then have names: "distinct (map en_name bundle)"
    using ok mset_eq_imp_distinct_iff unfolding entities_ok_def by blast
  have ids: "mset (map en_id bundle) = mset (map (\<lambda>c. if w then en_id c else []) current)"
    using arg_cong [OF perm, of "image_mset en_id"] by (simp add: stamped_entity_def multiset.map_comp comp_def)
  have "distinct (bound_ids (map en_id bundle))"
  proof (cases w)
    case True
    then show ?thesis
      using ids ok mset_eq_imp_distinct_iff [of "map en_id bundle" "map en_id current"] by (simp add: entities_ok_def)
  next
    case False
    then have "set (map en_id bundle) \<subseteq> {[]}" using mset_eq_setD [OF ids] by auto
    then have "bound_ids (map en_id bundle) = []" by (auto simp: filter_empty_conv)
    then show ?thesis by simp
  qed
  moreover have "set bundle = stamped_entity w ` set current" using mset_eq_setD [OF perm] by simp
  then have "\<forall>e \<in> set bundle. en_id e \<noteq> [] \<longrightarrow> en_id e \<in> set (map en_id current) \<and> en_id e \<notin> {}"
    by (auto simp: stamped_entity_def)
  ultimately have "bindIDs (map en_id current) {} bundle = Inr (map en_id bundle)"
    by (intro bindIDs_total)
  then show ?thesis using names by (simp add: matchEntities_def Let_def)
qed

lemma match_okD:
  assumes "match_ok bundle current bound" "(e, b) \<in> set (zip bundle bound)"
  shows "(en_id e \<noteq> [] \<longrightarrow> b = en_id e) \<and> (en_id e = [] \<and> b \<noteq> [] \<longrightarrow> nameFor current b = en_name e) \<and>
    (b = [] \<longrightarrow> (\<forall>c \<in> set current. en_name c = en_name e \<longrightarrow> en_id c \<in> set bound))"
  using assms unfolding match_ok_def by (elim conjE) (drule (1) bspec, simp only: prod.case)

lemma match_export:
  assumes ok: "entities_ok current" and set: "set bundle = stamped_entity w ` set current"
    and m: "match_ok bundle current bound" and pair: "(e, b) \<in> set (zip bundle bound)"
  obtains c where "c \<in> set current" "e = stamped_entity w c" "b = en_id c"
proof -
  obtain c where c: "c \<in> set current" "e = stamped_entity w c" using set_zip_leftD [OF pair] set by auto
  note law = match_okD [OF m]
  have idc: "en_id c \<noteq> []" using entities_ok_id [OF ok c(1)] .
  have by_name: "b' = en_id c" if "(e', b') \<in> set (zip bundle bound)" "en_id e' = []" "en_name e' = en_name c" "b' \<noteq> []" for e' b'
  proof -
    have "b' \<in> en_id ` set current"
      using set_zip_rightD [OF that(1)] that(4) m unfolding match_ok_def by auto
    then obtain d where d: "d \<in> set current" "b' = en_id d" by blast
    then have "en_name d = en_name c"
      using law [OF that(1)] that nameFor_mem [of current d] ok by (simp add: entities_ok_def)
    then show ?thesis using same_name [OF ok d(1) c(1)] d(2) by simp
  qed
  have "b = en_id c"
  proof (cases w)
    case True
    then have "en_id e = en_id c" by (simp add: c(2) stamped_entity_def)
    then show ?thesis using law [OF pair] idc by metis
  next
    case w: False
    then have e: "en_id e = []" "en_name e = en_name c" by (simp_all add: c(2) stamped_entity_def)
    show ?thesis
  proof (cases "b = []")
    case False
    then show ?thesis using by_name [OF pair e] by blast
  next
    case True
    then have "en_id c \<in> set bound" using law [OF pair] c(1) e(2) by metis
    then obtain j where j: "j < length bundle" "bound ! j = en_id c"
      using m unfolding match_ok_def by (metis in_set_conv_nth)
    then have pj: "(bundle ! j, bound ! j) \<in> set (zip bundle bound)"
      using m by (auto simp: in_set_zip match_ok_def)
    have "bundle ! j \<in> stamped_entity w ` set current" using nth_mem [OF j(1)] unfolding set .
    then have "en_id (bundle ! j) = []" using w by (auto simp: stamped_entity_def)
    moreover have "nameFor current (en_id c) = en_name c"
      using nameFor_mem [of current c] ok c(1) unfolding entities_ok_def by blast
    ultimately have "en_name (bundle ! j) = en_name c" using law [OF pj] j(2) idc by metis
    moreover obtain i where i: "i < length bundle" "bundle ! i = e" "bound ! i = b"
      using pair by (auto simp: in_set_zip)
    moreover have "distinct (map en_name bundle)" using m unfolding match_ok_def by blast
    ultimately have "i = j"
      using j(1) e(2) nth_eq_iff_index_eq [of "map en_name bundle" i j] by (metis length_map nth_map)
    then show ?thesis using i(3) j(2) by blast
  qed
  qed
  then show thesis using that c by blast
qed

lemma match_export_all:
  assumes ok: "entities_ok current" and set: "set bundle = stamped_entity w ` set current"
    and m: "match_ok bundle current bound" and c: "c \<in> set current"
  shows "(stamped_entity w c, en_id c) \<in> set (zip bundle bound)"
proof -
  have "stamped_entity w c \<in> set bundle" unfolding set using c by (rule imageI)
  then obtain j where j: "j < length bundle" "bundle ! j = stamped_entity w c"
    unfolding in_set_conv_nth by blast
  then have pj: "(bundle ! j, bound ! j) \<in> set (zip bundle bound)"
    using m by (auto simp: in_set_zip match_ok_def)
  obtain d where d: "d \<in> set current" "bundle ! j = stamped_entity w d" "bound ! j = en_id d"
    using match_export [OF ok set m pj] .
  then have "en_name (stamped_entity w c) = en_name (stamped_entity w d)" using j(2) by metis
  then have "c = d" using same_name [OF ok c d(1)] by (simp add: stamped_entity_def)
  then show ?thesis using pj j(2) d(3) by metis
qed

lemma export_kind:
  assumes ok: "entities_ok current" and perm: "mset bundle = mset (map (stamped_entity w) current)"
    and m: "matchEntities bundle current additive = Inr m"
  shows "kindCreates bundle (km_boundDBID m) = []" "kindRenames current bundle (km_boundDBID m) = []" "km_deletes m = []"
    and "c \<in> set current \<Longrightarrow> identityByName bundle (km_boundDBID m) (en_name c) = Some (en_id c)"
proof -
  let ?bound = "km_boundDBID m"
  note mok = matchEntities_ok(1) [OF ok m]
  have set: "set bundle = stamped_entity w ` set current" using mset_eq_setD [OF perm] by simp
  have pair: "\<exists>c \<in> set current. en_name e = en_name c \<and> b = en_id c \<and> b \<noteq> []" if mem: "(e, b) \<in> set (zip bundle ?bound)" for e b
  proof -
    obtain c where "c \<in> set current" "e = stamped_entity w c" "b = en_id c"
      using match_export [OF ok set mok mem] .
    then show ?thesis using entities_ok_id [OF ok] by (auto simp: stamped_entity_def)
  qed
  show "kindCreates bundle ?bound = []"
    using pair by (fastforce simp: kindCreates_def filter_empty_conv)
  have "nameFor current b = en_name e" if "(e, b) \<in> set (zip bundle ?bound)" for e b
    using pair [OF that] nameFor_mem [of current] ok unfolding entities_ok_def by metis
  then show "kindRenames current bundle ?bound = []" by (auto simp: kindRenames_def filter_empty_conv)
  have all: "(stamped_entity w c, en_id c) \<in> set (zip bundle ?bound)" if "c \<in> set current" for c
    using match_export_all [OF ok set mok that] .
  then have "\<forall>c \<in> set current. en_id c \<in> set ?bound" by (meson set_zip_rightD)
  then show "km_deletes m = []" using matchEntities_ok(3) [OF ok m] by (simp add: filter_empty_conv)
  assume c: "c \<in> set current"
  have "distinct (map fst (rev (map (\<lambda>(e, b). (en_name e, if b \<noteq> [] then b else ''new:'' @ en_name e)) (zip bundle ?bound))))"
  proof -
    have "map fst (map (\<lambda>(e, b). (en_name e, if b \<noteq> [] then b else ''new:'' @ en_name e)) (zip bundle ?bound)) =
        map en_name (map fst (zip bundle ?bound))"
      by (simp add: comp_def case_prod_unfold)
    also have "map fst (zip bundle ?bound) = bundle" using mok by (simp add: match_ok_def)
    finally show ?thesis using mok by (simp add: rev_map [symmetric] match_ok_def)
  qed
  moreover have "en_id c \<noteq> []" using entities_ok_id [OF ok c] .
  then have "(en_name c, en_id c) \<in> (\<lambda>(e, b). (en_name e, if b \<noteq> [] then b else ''new:'' @ en_name e)) ` set (zip bundle ?bound)"
    using all [OF c] by (force simp: stamped_entity_def)
  ultimately show "identityByName bundle ?bound (en_name c) = Some (en_id c)"
    by (simp add: identityByName_def map_of_eq_Some_iff)
qed

definition exported_key :: "bool \<Rightarrow> 'd CurrentState \<Rightarrow> 'd CurrentKey \<Rightarrow> 'd Key" where
  "exported_key w cur k =
     (let envNameByID = map_of (rev (map (\<lambda>e. (en_id e, en_name e)) (cs_Environments cur)));
          groupNameByID = map_of (rev (map (\<lambda>g. (en_id g, en_name g)) (cs_KeyGroups cur)))
      in \<lparr>ky_ID = (if w then ck_ID k else []), ky_Name = ck_Name k, ky_FolderPath = ck_FolderPath k,
          ky_Classification = ck_Classification k, ky_Description = ck_Description k,
          ky_Deprecated = ck_Deprecated k, ky_DeprecationNote = ck_DeprecationNote k,
          ky_Group = at groupNameByID (ck_GroupID k), ky_Declaration = ck_Declaration k,
          ky_RequiredIn = bundlePresence (ck_Required k) envNameByID,
          ky_ForbiddenIn = bundlePresence (ck_Forbidden k) envNameByID\<rparr>)"

lemma bundleFromState_parts:
  "bu_Environments (bundleFromState cur w) = map (stamped_entity w) (cs_Environments cur)"
  "bu_KeyGroups (bundleFromState cur w) = map (stamped_entity w) (cs_KeyGroups cur)"
  "bu_Keys (bundleFromState cur w) = map (exported_key w cur) (cs_Keys cur)"
  by (auto simp: bundleFromState_def stamped_entity_def exported_key_def Let_def)

text \<open>The stored state an export reads: references resolve, and group names are not empty.\<close>

definition exportable :: "'d CurrentState \<Rightarrow> bool" where
  "exportable cur \<longleftrightarrow> state_ok cur \<and> [] \<notin> en_name ` set (cs_KeyGroups cur) \<and>
     (\<forall>k \<in> set (cs_Keys cur). (ck_GroupID k = [] \<or> ck_GroupID k \<in> en_id ` set (cs_KeyGroups cur)) \<and>
        set (Environments (ck_Required k)) \<subseteq> en_id ` set (cs_Environments cur) \<and>
        set (Environments (ck_Forbidden k)) \<subseteq> en_id ` set (cs_Environments cur))"

lemma at_name:
  assumes "entities_ok es" "e \<in> set es"
  shows "at (map_of (rev (map (\<lambda>e. (en_id e, en_name e)) es))) (en_id e) = en_name e"
proof -
  have "distinct (map fst (rev (map (\<lambda>e. (en_id e, en_name e)) es)))"
    using assms(1) by (simp add: rev_map [symmetric] comp_def entities_ok_def)
  then have "map_of (rev (map (\<lambda>e. (en_id e, en_name e)) es)) (en_id e) = Some (en_name e)"
    using assms(2) by (force simp: map_of_eq_Some_iff)
  then show ?thesis by (simp add: at_def)
qed

lemma at_none:
  assumes "entities_ok es"
  shows "at (map_of (rev (map (\<lambda>e. (en_id e, en_name e)) es))) [] = []"
proof -
  have "[] \<notin> fst ` set (rev (map (\<lambda>e. (en_id e, en_name e)) es))"
    using entities_ok_id [OF assms] by force
  then have "map_of (rev (map (\<lambda>e. (en_id e, en_name e)) es)) [] = None" by (simp only: map_of_eq_None_iff not_False_eq_True)
  then show ?thesis by (simp add: at_def)
qed

lemma presence_export:
  assumes ok: "entities_ok envs" and ids: "set (Environments p) \<subseteq> en_id ` set envs"
    and norm: "normalizePresence n (bundlePresence p (map_of (rev (map (\<lambda>e. (en_id e, en_name e)) envs)))) = Inr q"
    and identity: "\<And>e. e \<in> set envs \<Longrightarrow> envIdentity (en_name e) = Some (en_id e)"
  shows "\<not> presenceChanged p q envIdentity" "set (Environments q) \<subseteq> en_name ` set envs"
proof -
  let ?names = "map_of (rev (map (\<lambda>e. (en_id e, en_name e)) envs))"
  have q: "Mode q = Mode p" "Environments q = [] \<and> Mode q \<noteq> PresenceExplicit \<or> Environments q = sort (map (at ?names) (Environments p))"
    using norm by (auto simp: normalizePresence_def bundlePresence_def Let_def split: if_splits)
  have name: "\<exists>e \<in> set envs. x = en_name e \<and> at envIdentity x \<in> set (Environments p)" if x: "x \<in> set (Environments q)" for x
  proof -
    have "x \<in> at ?names ` set (Environments p)" using x q(2) by auto
    then obtain i where i: "i \<in> set (Environments p)" "x = at ?names i" by blast
    then obtain e where e: "e \<in> set envs" "i = en_id e" using ids by blast
    then have "x = en_name e" using i(2) at_name [OF ok] by simp
    then show ?thesis using e i(1) identity [OF e(1)] by (auto simp: at_def)
  qed
  then show "set (Environments q) \<subseteq> en_name ` set envs" by blast
  have "length (Environments p) = length (Environments q)" if "Mode q = PresenceExplicit" using q(2) that by auto
  moreover have "\<not> list_ex (\<lambda>name. at envIdentity name \<notin> set (Environments p)) (Environments q)"
    using name by (auto simp: list_ex_iff)
  ultimately show "\<not> presenceChanged p q envIdentity"
    by (auto simp: presenceChanged_def q(1))
qed

lemma compileKey_Inr:
  assumes "compileKey compile k = Inr k'"
  obtains d req forb where "compile (ky_Classification k) (ky_Declaration k) = Some d"
    "normalizePresence (ky_Name k) (ky_RequiredIn k) = Inr req" "normalizePresence (ky_Name k) (ky_ForbiddenIn k) = Inr forb"
    "k' = k\<lparr>ky_Declaration := d, ky_RequiredIn := req, ky_ForbiddenIn := forb\<rparr>"
  using assms by (auto simp: compileKey_def split: if_splits option.splits sum.splits)

lemma export_key:
  assumes cur: "exportable cur" and ck: "ck \<in> set (cs_Keys cur)"
    and k: "compileKey compile (exported_key w cur ck) = Inr k"
    and decl: "\<And>cls d d'. compile cls d = Some d' \<Longrightarrow> \<not> vdc d d'"
    and env: "\<And>e. e \<in> set (cs_Environments cur) \<Longrightarrow> envIdentity (en_name e) = Some (en_id e)"
    and group: "\<And>g. g \<in> set (cs_KeyGroups cur) \<Longrightarrow> groupIdentity (en_name g) = Some (en_id g)"
    and names: "set envNames = en_name ` set (cs_Environments cur)" "set groupNames = en_name ` set (cs_KeyGroups cur)"
  shows "\<not> changed (diffKey vdc ck k envIdentity groupIdentity)" "validateKeyReferences k envNames groupNames = None"
proof -
  let ?env = "map_of (rev (map (\<lambda>e. (en_id e, en_name e)) (cs_Environments cur)))"
  let ?group = "map_of (rev (map (\<lambda>g. (en_id g, en_name g)) (cs_KeyGroups cur)))"
  obtain d req forb where d: "compile (ck_Classification ck) (ck_Declaration ck) = Some d"
    and req: "normalizePresence (ck_Name ck) (bundlePresence (ck_Required ck) ?env) = Inr req"
    and forb: "normalizePresence (ck_Name ck) (bundlePresence (ck_Forbidden ck) ?env) = Inr forb"
    and k': "k = (exported_key w cur ck)\<lparr>ky_Declaration := d, ky_RequiredIn := req, ky_ForbiddenIn := forb\<rparr>"
    using k by (rule compileKey_Inr) (simp add: exported_key_def Let_def)
  have ok: "entities_ok (cs_Environments cur)" "entities_ok (cs_KeyGroups cur)"
    and ids: "set (Environments (ck_Required ck)) \<subseteq> en_id ` set (cs_Environments cur)"
      "set (Environments (ck_Forbidden ck)) \<subseteq> en_id ` set (cs_Environments cur)"
      "ck_GroupID ck = [] \<or> ck_GroupID ck \<in> en_id ` set (cs_KeyGroups cur)"
    and named: "[] \<notin> en_name ` set (cs_KeyGroups cur)"
    using cur ck unfolding exportable_def state_ok_def by blast+
  note presence = presence_export [OF ok(1) ids(1) req env] presence_export [OF ok(1) ids(2) forb env]
  have g: "ky_Group k = [] \<and> ck_GroupID ck = [] \<or>
      ky_Group k \<noteq> [] \<and> ky_Group k \<in> en_name ` set (cs_KeyGroups cur) \<and> at groupIdentity (ky_Group k) = ck_GroupID ck"
  proof (cases "ck_GroupID ck = []")
    case True
    then show ?thesis using at_none [OF ok(2)] by (simp add: k' exported_key_def Let_def)
  next
    case False
    then obtain h where h: "h \<in> set (cs_KeyGroups cur)" "ck_GroupID ck = en_id h" using ids(3) by blast
    then have "ky_Group k = en_name h" using at_name [OF ok(2) h(1)] by (simp add: k' exported_key_def Let_def)
    moreover have "en_name h \<noteq> []" using named h(1) by (metis image_eqI)
    ultimately show ?thesis using h group [OF h(1)] by (simp add: at_def)
  qed
  have fields: "ky_Name k = ck_Name ck" "ky_FolderPath k = ck_FolderPath ck" "ky_Description k = ck_Description ck"
    "ky_Deprecated k = ck_Deprecated ck" "ky_DeprecationNote k = ck_DeprecationNote ck"
    "ky_Classification k = ck_Classification ck" "ky_Declaration k = d" "ky_RequiredIn k = req" "ky_ForbiddenIn k = forb"
    by (simp_all add: k' exported_key_def Let_def)
  show "\<not> changed (diffKey vdc ck k envIdentity groupIdentity)"
    using presence(1,3) decl [OF d] g by (auto simp: changed_def diffKey_def fields)
  have "\<forall>x \<in> set (Environments req @ Environments forb). x \<in> set envNames"
    using presence(2,4) names(1) by auto
  then have "find (\<lambda>name. name \<notin> set envNames) (Environments req @ Environments forb) = None"
    by (simp only: find_None_iff) blast
  then show "validateKeyReferences k envNames groupNames = None"
    using g names(2) by (auto simp: validateKeyReferences_def fields)
qed

lemma compileKeys_Inr:
  "compileKeys compile ks = Inr ks' \<Longrightarrow> list_all2 (\<lambda>k k'. compileKey compile k = Inr k') ks ks'"
proof (induction ks arbitrary: ks')
  case (Cons k ks)
  then show ?case
    by (auto split: sum.splits elim!: map_sum_Inr_cases)
qed simp

lemma compileKeys_entities:
  assumes "compileKeys compile ks = Inr ks'"
  shows "bundleKeyEntities ks' = bundleKeyEntities ks"
  using compileKeys_Inr [OF assms]
  by (induction rule: list_all2_induct)
    (auto simp: bundleKeyEntities_def elim!: compileKey_Inr)

lemma resolveKeys_quiet:
  assumes "\<And>k b. (k, b) \<in> set kbs \<Longrightarrow>
    refs k = None \<and> b \<noteq> [] \<and> (\<exists>before. look b = Some before \<and> \<not> changed (diff before k))"
  shows "resolveKeys look diff refs frozen kbs = Inr ([], [], [])"
  using assms
proof (induction kbs)
  case (Cons kb kbs)
  obtain k b where kb: "kb = (k, b)" by (cases kb)
  then obtain before where "refs k = None" "b \<noteq> []" "look b = Some before" "\<not> changed (diff before k)"
    using Cons.prems [of k b] by auto
  moreover have "resolveKeys look diff refs frozen kbs = Inr ([], [], [])"
    by (rule Cons.IH) (rule Cons.prems, simp)
  ultimately show ?case using kb by simp
qed simp

lemma find_unique: "distinct (map f xs) \<Longrightarrow> k \<in> set xs \<Longrightarrow> find (\<lambda>x. f x = f k) xs = Some k"
  by (induction xs) auto

lemma find_key:
  assumes "distinct (map ck_ID ks)" "k \<in> set ks"
  shows "find (\<lambda>x. ck_ID x = ck_ID k) (rev ks) = Some k"
  by (rule find_unique) (use assms in \<open>simp_all add: rev_map [symmetric]\<close>)

lemma export_keys_perm:
  assumes "compileKeys compile (sort_key ky_Name (map (exported_key w cur) (cs_Keys cur))) = Inr keys"
  shows "mset (bundleKeyEntities keys) = mset (map (stamped_entity w) (currentKeyEntities (cs_Keys cur)))"
  unfolding compileKeys_entities [OF assms]
  by (cases w) (simp_all add: bundleKeyEntities_def currentKeyEntities_def stamped_entity_def exported_key_def Let_def
      multiset.map_comp comp_def)

text \<open>The matched key of an exported entry is the one it was exported from.\<close>

lemma export_key_pair:
  assumes cur: "exportable cur"
    and keys: "compileKeys compile (sort_key ky_Name (map (exported_key w cur) (cs_Keys cur))) = Inr keys"
    and m: "match_ok (bundleKeyEntities keys) (currentKeyEntities (cs_Keys cur)) bound"
    and pair: "(k, b) \<in> set (zip keys bound)"
  obtains ck where "ck \<in> set (cs_Keys cur)" "compileKey compile (exported_key w cur ck) = Inr k" "b = ck_ID ck"
proof -
  let ?es = "currentKeyEntities (cs_Keys cur)"
  have ok: "entities_ok ?es" using cur by (simp add: exportable_def state_ok_def)
  obtain i where i: "i < length keys" "i < length bound" "k = keys ! i" "b = bound ! i"
    using pair by (auto simp: in_set_zip)
  let ?sorted = "sort_key ky_Name (map (exported_key w cur) (cs_Keys cur))"
  have all2: "list_all2 (\<lambda>k k'. compileKey compile k = Inr k') ?sorted keys" by (rule compileKeys_Inr [OF keys])
  have comp: "compileKey compile (?sorted ! i) = Inr k" unfolding i(3) by (rule list_all2_nthD2 [OF all2 i(1)])
  have "i < length ?sorted" using i(1) list_all2_lengthD [OF all2] by linarith
  then have "?sorted ! i \<in> set ?sorted" by (rule nth_mem)
  then obtain ck where ck: "ck \<in> set (cs_Keys cur)" "?sorted ! i = exported_key w cur ck" by auto
  have name: "ky_Name k = ck_Name ck"
    using comp unfolding ck(2) by (rule compileKey_Inr) (simp add: exported_key_def Let_def)
  have set: "set (bundleKeyEntities keys) = stamped_entity w ` set ?es"
    using mset_eq_setD [OF export_keys_perm [OF keys]] by simp
  have "(\<lparr>en_id = ky_ID k, en_name = ky_Name k\<rparr>, b) \<in> set (zip (bundleKeyEntities keys) bound)"
    unfolding in_set_zip using i by (intro exI [of _ i]) (simp add: bundleKeyEntities_def)
  then obtain c where c: "c \<in> set ?es" "\<lparr>en_id = ky_ID k, en_name = ky_Name k\<rparr> = stamped_entity w c" "b = en_id c"
    by (rule match_export [OF ok set m])
  have "\<lparr>en_id = ck_ID ck, en_name = ck_Name ck\<rparr> \<in> set ?es" using ck(1) by (auto simp: currentKeyEntities_def)
  moreover have "en_name c = ck_Name ck" using c(2) name by (simp add: stamped_entity_def)
  ultimately have "c = \<lparr>en_id = ck_ID ck, en_name = ck_Name ck\<rparr>" using same_name [OF ok c(1)] by simp
  then show thesis using that [OF ck(1)] comp ck(2) c(3) by simp
qed

text \<open>
  C16: checking what was exported reports no drift: the canonical bundle of an export, with ids or portable,
  compares equal to the state it was exported from, and its resolution is empty.
\<close>

theorem export_check_equal:
  assumes cur: "exportable cur" and canon: "Canonicalize compile encodedSize (bundleFromState cur w) = Inr b"
    and decl: "\<And>cls d d'. compile cls d = Some d' \<Longrightarrow> \<not> vdc d d'"
  shows "\<exists>res. Compare vdc b cur = Inr (DriftEqual, res) \<and> resolutionEmpty res"
proof -
  have ok: "entities_ok (cs_Environments cur)" "entities_ok (cs_KeyGroups cur)"
    "entities_ok (currentKeyEntities (cs_Keys cur))" using cur by (simp_all add: exportable_def state_ok_def)
  obtain keys where keys: "compileKeys compile (sort_key ky_Name (map (exported_key w cur) (cs_Keys cur))) = Inr keys"
    and b: "bu_Environments b = sort_key en_name (map (stamped_entity w) (cs_Environments cur))"
      "bu_KeyGroups b = sort_key en_name (map (stamped_entity w) (cs_KeyGroups cur))" "bu_Keys b = keys"
      "bu_BaseRevision b = (if w then Some (cs_SchemaRevision cur) else None)"
    using canon
    by (auto simp: Canonicalize_def bundleFromState_parts Let_def split: option.splits sum.splits if_splits)
      (simp_all add: bundleFromState_def Let_def)
  have perm: "mset (bu_Environments b) = mset (map (stamped_entity w) (cs_Environments cur))"
    "mset (bu_KeyGroups b) = mset (map (stamped_entity w) (cs_KeyGroups cur))" by (simp_all add: b)
  note kperm = export_keys_perm [OF keys]
  obtain em gm km where em: "matchEntities (bu_Environments b) (cs_Environments cur) (Additive b) = Inr em"
    and gm: "matchEntities (bu_KeyGroups b) (cs_KeyGroups cur) (Additive b) = Inr gm"
    and km: "matchEntities (bundleKeyEntities (bu_Keys b)) (currentKeyEntities (cs_Keys cur)) (Additive b) = Inr km"
    using matchEntities_export [OF ok(1) perm(1)] matchEntities_export [OF ok(2) perm(2)]
      matchEntities_export [OF ok(3) kperm] unfolding b(3) by meson
  note kinds = export_kind [OF ok(1) perm(1) em] export_kind [OF ok(2) perm(2) gm]
  have kd: "km_deletes km = []" using export_kind(3) [OF ok(3) kperm] km b(3) by simp
  have names: "set (map en_name (bu_Environments b)) = en_name ` set (cs_Environments cur)"
    "set (map en_name (bu_KeyGroups b)) = en_name ` set (cs_KeyGroups cur)"
    by (simp_all add: b stamped_entity_def image_comp comp_def)
  have mok: "match_ok (bundleKeyEntities keys) (currentKeyEntities (cs_Keys cur)) (km_boundDBID km)"
    using matchEntities_ok(1) [OF ok(3) km] by (simp add: b(3))
  have ids: "distinct (map ck_ID (cs_Keys cur))" using ok(3) by (simp add: entities_ok_def currentKeyEntities_def comp_def)
  let ?refs = "\<lambda>k. validateKeyReferences k (map en_name (bu_Environments b)) (map en_name (bu_KeyGroups b))"
  let ?diff = "\<lambda>before k. diffKey vdc before k (identityByName (bu_Environments b) (km_boundDBID em))
    (identityByName (bu_KeyGroups b) (km_boundDBID gm))"
  have quiet: "?refs k = None \<and> i \<noteq> [] \<and>
      (\<exists>before. find (\<lambda>k. ck_ID k = i) (rev (cs_Keys cur)) = Some before \<and> \<not> changed (?diff before k))"
    if mem: "(k, i) \<in> set (zip keys (km_boundDBID km))" for k i
  proof -
    obtain ck where ck: "ck \<in> set (cs_Keys cur)" "compileKey compile (exported_key w cur ck) = Inr k" "i = ck_ID ck"
      using export_key_pair [OF cur keys mok mem] .
    have "\<lparr>en_id = ck_ID ck, en_name = ck_Name ck\<rparr> \<in> set (currentKeyEntities (cs_Keys cur))"
      using ck(1) by (auto simp: currentKeyEntities_def)
    then have "i \<noteq> []" using entities_ok_id [OF ok(3)] ck(3) by fastforce
    moreover have "\<not> changed (?diff ck k)"
      by (rule export_key(1) [OF cur ck(1,2)]) (erule decl kinds(4) kinds(8) | rule names)+
    moreover have "?refs k = None"
      by (rule export_key(2) [OF cur ck(1,2) decl kinds(4) kinds(8) names])
    ultimately show ?thesis using find_key [OF ids ck(1)] ck(3) by blast
  qed
  have "keyLoop vdc b cur False em gm km = Inr ([], [], [])"
    unfolding keyLoop_def Let_def b(3)
    by (rule resolveKeys_quiet) (rule quiet)
  then have r: "resolve vdc b cur False = Inr (assembleResolution b cur em gm km ([], [], []))"
    by (simp add: resolve_def em gm km)
  have "resolutionEmpty (assembleResolution b cur em gm km ([], [], []))"
    by (simp add: resolutionEmpty_def assembleResolution_def refsFor_def kinds kd)
  then show ?thesis using r b(4) by (auto simp: Compare_def Let_def)
qed

text \<open>
  C18: no reveal-gated change escapes the preview: when a bundle entry is matched to a secret key and either
  changes its value-dependent rules or declassifies it, the resolution lists the key among those that need
  the reveal gate, and the change among its updates.
\<close>

theorem reveal_keys_complete:
  assumes "resolve vdc b cur strict = Inr res" "entities_ok (currentKeyEntities (cs_Keys cur))"
    and "matchEntities (bundleKeyEntities (bu_Keys b)) (currentKeyEntities (cs_Keys cur)) (Additive b) = Inr km"
    and "i < length (bu_Keys b)" "before \<in> set (cs_Keys cur)" "km_boundDBID km ! i = ck_ID before"
    and "ck_Classification before = ''secret''"
    and "vdc (ck_Declaration before) (ky_Declaration (bu_Keys b ! i)) \<or> ky_Classification (bu_Keys b ! i) = ''config''"
  shows "ky_Name (bu_Keys b ! i) \<in> set (re_RevealKeys res) \<and>
    (\<exists>u \<in> set (re_KeyUpdates res). ku_ID u = ck_ID before \<and> ku_Desired u = bu_Keys b ! i)"
proof -
  let ?k = "bu_Keys b ! i"
  obtain em gm km' creates updates reveals where
    km': "matchEntities (bundleKeyEntities (bu_Keys b)) (currentKeyEntities (cs_Keys cur)) (Additive b) = Inr km'"
    and loop: "keyLoop vdc b cur strict em gm km' = Inr (creates, updates, reveals)"
    and res: "res = assembleResolution b cur em gm km' (creates, updates, reveals)"
    using assms(1) by (rule resolve_Inr)
  have km: "km' = km" using km' assms(3) by simp
  have len: "length (km_boundDBID km) = length (bu_Keys b)"
    using matchEntities_ok(1) [OF assms(2,3)] by (simp add: match_ok_def bundleKeyEntities_def)
  have pair: "(?k, ck_ID before) \<in> set (zip (bu_Keys b) (km_boundDBID km))"
    using assms(4,6) len by (auto simp: in_set_zip)
  have "distinct (map ck_ID (cs_Keys cur))" using assms(2) by (simp add: entities_ok_def currentKeyEntities_def comp_def)
  then have look: "find (\<lambda>k. ck_ID k = ck_ID before) (rev (cs_Keys cur)) = Some before"
    by (rule find_key [OF _ assms(5)])
  have "\<lparr>en_id = ck_ID before, en_name = ck_Name before\<rparr> \<in> set (currentKeyEntities (cs_Keys cur))"
    using assms(5) by (auto simp: currentKeyEntities_def)
  then have "ck_ID before \<noteq> []" using entities_ok_id [OF assms(2)] by fastforce
  moreover have "NeedsReveal (diffKey vdc before ?k ei gi)" "changed (diffKey vdc before ?k ei gi)" for ei gi
    using assms(7,8) by (auto simp: NeedsReveal_def changed_def diffKey_def Let_def)
  ultimately have "ky_Name ?k \<in> set reveals \<and>
      diffKey vdc before ?k (identityByName (bu_Environments b) (km_boundDBID em))
        (identityByName (bu_KeyGroups b) (km_boundDBID gm)) \<in> set updates"
    using resolveKeys_reveals [OF loop [unfolded keyLoop_def Let_def km] pair _ look] by blast
  then show ?thesis
    by (auto simp: res assembleResolution_def diffKey_def intro!: bexI)
qed

section \<open>Witnesses\<close>

text \<open>A project with two environments, a group and a secret key; a declaration is a plain number.\<close>

definition sample_presence :: "go_string list \<Rightarrow> Presence" where
  "sample_presence ids = \<lparr>Mode = (if ids = [] then PresenceNone else PresenceExplicit), Environments = ids\<rparr>"

definition sample_state :: "nat CurrentState" where
  "sample_state = \<lparr>cs_SchemaRevision = 3,
     cs_Environments = [\<lparr>en_id = ''e1'', en_name = ''prod''\<rparr>, \<lparr>en_id = ''e2'', en_name = ''dev''\<rparr>],
     cs_KeyGroups = [\<lparr>en_id = ''g1'', en_name = ''db''\<rparr>],
     cs_Keys = [\<lparr>ck_ID = ''k1'', ck_Name = ''DB_URL'', ck_FolderPath = [], ck_Classification = ''secret'',
       ck_Description = [], ck_Deprecated = False, ck_DeprecationNote = [], ck_GroupID = ''g1'',
       ck_Declaration = 7, ck_Required = sample_presence [''e1'', ''e2''], ck_Forbidden = sample_presence []\<rparr>]\<rparr>"

definition sample_export :: "bool \<Rightarrow> definitions_error + nat Bundle" where
  "sample_export w = Canonicalize (\<lambda>_ d. Some d) (\<lambda>_. 0) (bundleFromState sample_state w)"

definition exported_bundle :: "bool \<Rightarrow> nat Bundle" where
  "exported_bundle w = (case sample_export w of Inr b \<Rightarrow> b | Inl _ \<Rightarrow> bundleFromState sample_state w)"

text \<open>The export, with the key declassified.\<close>

definition declassifying_bundle :: "nat Bundle" where
  "declassifying_bundle =
     (let b = exported_bundle True in b\<lparr>bu_Keys := map (\<lambda>k. k\<lparr>ky_Classification := ''config''\<rparr>) (bu_Keys b)\<rparr>)"

lemma sample_state_ok: "exportable sample_state"
  by (auto simp: exportable_def state_ok_def entities_ok_def currentKeyEntities_def sample_state_def sample_presence_def)

theorem additive_only_creates_witness:
  "\<exists>res. resolve (\<noteq>) (exported_bundle False) (sample_state\<lparr>cs_KeyGroups := [], cs_Keys := []\<rparr>) True = Inr res \<and>
     re_KeyCreates res \<noteq> [] \<and> re_EnvDeletes res = [] \<and> re_KeyUpdates res = []"
proof -
  let ?cur = "sample_state\<lparr>cs_KeyGroups := [], cs_Keys := []\<rparr>"
  have "(case resolve (\<noteq>) (exported_bundle False) ?cur True of Inr res \<Rightarrow> re_KeyCreates res \<noteq> [] | Inl _ \<Rightarrow> False)"
    by code_simp
  then obtain res where res: "resolve (\<noteq>) (exported_bundle False) ?cur True = Inr res" "re_KeyCreates res \<noteq> []"
    by (cases "resolve (\<noteq>) (exported_bundle False) ?cur True") simp_all
  have "state_ok ?cur"
    by (auto simp: state_ok_def entities_ok_def currentKeyEntities_def sample_state_def)
  moreover have "validateBundle (exported_bundle False) = None" "bu_BaseRevision (exported_bundle False) = None"
    by code_simp+
  ultimately show ?thesis using additive_only_creates [OF _ _ _ res(1)] res by blast
qed

theorem export_check_equal_witness:
  "\<exists>res. Compare (\<noteq>) (exported_bundle False) sample_state = Inr (DriftEqual, res) \<and> resolutionEmpty res"
proof -
  have "sample_export False = Inr (exported_bundle False)" by code_simp
  from export_check_equal [OF sample_state_ok this [unfolded sample_export_def]] show ?thesis by simp
qed

theorem reveal_keys_complete_witness:
  "\<exists>res. resolve (\<noteq>) declassifying_bundle sample_state True = Inr res \<and> ''DB_URL'' \<in> set (re_RevealKeys res)"
proof -
  let ?match = "matchEntities (bundleKeyEntities (bu_Keys declassifying_bundle))
    (currentKeyEntities (cs_Keys sample_state)) (Additive declassifying_bundle)"
  have "(case resolve (\<noteq>) declassifying_bundle sample_state True of Inr _ \<Rightarrow> True | Inl _ \<Rightarrow> False)" by code_simp
  then obtain res where res: "resolve (\<noteq>) declassifying_bundle sample_state True = Inr res"
    by (cases "resolve (\<noteq>) declassifying_bundle sample_state True") simp_all
  have "(case ?match of Inr km \<Rightarrow> km_boundDBID km = [''k1''] | Inl _ \<Rightarrow> False)" by code_simp
  then obtain km where km: "?match = Inr km" "km_boundDBID km = [''k1'']" by (cases ?match) simp_all
  have k: "length (bu_Keys declassifying_bundle) = 1" "ky_Classification (bu_Keys declassifying_bundle ! 0) = ''config''"
    "ky_Name (bu_Keys declassifying_bundle ! 0) = ''DB_URL''"
    by code_simp+
  have "entities_ok (currentKeyEntities (cs_Keys sample_state))"
    using sample_state_ok by (simp add: exportable_def state_ok_def)
  from reveal_keys_complete [OF res this km(1), of 0 "hd (cs_Keys sample_state)"] k km(2) res show ?thesis
    by (simp add: sample_state_def)
qed

end
