(* ===== verification/Definitions_Apply.thy ===== *)
theory Definitions_Apply
  imports Definitions
begin

text \<open>
  The execution of a resolution, \<open>internal/service/definitions_apply_exec.go\<close>, on the names of the
  environments, key groups and keys of a project: deletes, the parking of renamed identities under temporary
  names, creates, and the final renames, in the order of the code. A table has a row per identity, and the
  database's unique constraint makes an operation fail that would give two identities one name. The values,
  presence rows and audit events that the same loops write are not part of these tables; the minted ids are
  arguments.
\<close>

section \<open>Tables with unique names\<close>

type_synonym name_table = "(go_string \<times> go_string) list"

datatype table_error = RowNotFound | NameConflict

definition tableDelete :: "go_string \<Rightarrow> name_table \<Rightarrow> table_error + name_table" where
  "tableDelete i t = (if i \<notin> fst ` set t then Inl RowNotFound else Inr (filter (\<lambda>r. fst r \<noteq> i) t))"

definition tableRename :: "go_string \<times> go_string \<Rightarrow> name_table \<Rightarrow> table_error + name_table" where
  "tableRename r t =
     (if fst r \<notin> fst ` set t then Inl RowNotFound
      else if list_ex (\<lambda>(j, n). j \<noteq> fst r \<and> n = snd r) t then Inl NameConflict
      else Inr (map (\<lambda>(j, n). (j, if j = fst r then snd r else n)) t))"

definition tableCreate :: "go_string \<times> go_string \<Rightarrow> name_table \<Rightarrow> table_error + name_table" where
  "tableCreate r t =
     (if fst r \<in> fst ` set t \<or> snd r \<in> snd ` set t then Inl NameConflict else Inr (t @ [r]))"

fun each :: "('a \<Rightarrow> 's \<Rightarrow> 'e + 's) \<Rightarrow> 'a list \<Rightarrow> 's \<Rightarrow> 'e + 's" where
  "each f [] s = Inr s"
| "each f (x # xs) s = (case f x s of Inl e \<Rightarrow> Inl e | Inr s' \<Rightarrow> each f xs s')"

section \<open>Temporary names\<close>

definition tempName :: "nat \<Rightarrow> go_string" where
  "tempName counter = ''TMP_RENAME_'' @ Itoa counter"

lemma tempName_inj: "inj tempName"
  by (rule injI) (auto simp: tempName_def dest: Itoa_inj)

text \<open>The search of the closure \<open>temp\<close> has no bound of its own: it ends because the used names are finite.\<close>

function temp :: "go_string list \<Rightarrow> nat \<Rightarrow> go_string \<times> nat" where
  "temp used counter =
     (if tempName counter \<notin> set used then (tempName counter, counter + 1) else temp used (counter + 1))"
  by pat_completeness auto
termination
proof (relation "measure (\<lambda>(used, counter). card {n. counter \<le> n \<and> tempName n \<in> set used})")
  fix used and counter :: nat
  assume "\<not> tempName counter \<notin> set used"
  moreover have "finite {n. counter \<le> n \<and> tempName n \<in> set used}"
  proof (rule finite_subset)
    show "{n. counter \<le> n \<and> tempName n \<in> set used} \<subseteq> tempName -` set used" by auto
    show "finite (tempName -` set used)" by (intro finite_vimageI) (simp_all add: tempName_inj)
  qed
  moreover have "{n. counter + 1 \<le> n \<and> tempName n \<in> set used} \<subset> {n. counter \<le> n \<and> tempName n \<in> set used}"
  proof (rule psubsetI)
    show "{n. counter + 1 \<le> n \<and> tempName n \<in> set used} \<subseteq> {n. counter \<le> n \<and> tempName n \<in> set used}" by auto
    have "counter \<in> {n. counter \<le> n \<and> tempName n \<in> set used} - {n. counter + 1 \<le> n \<and> tempName n \<in> set used}"
      using \<open>\<not> tempName counter \<notin> set used\<close> by simp
    then show "{n. counter + 1 \<le> n \<and> tempName n \<in> set used} \<noteq> {n. counter \<le> n \<and> tempName n \<in> set used}" by blast
  qed
  ultimately show "((used, counter + 1), used, counter) \<in>
      measure (\<lambda>(used, counter). card {n. counter \<le> n \<and> tempName n \<in> set used})"
    by (simp add: psubset_card_mono)
qed simp

declare temp.simps [simp del]

fun temps :: "go_string list \<Rightarrow> nat \<Rightarrow> nat \<Rightarrow> go_string list" where
  "temps used counter 0 = []"
| "temps used counter (Suc k) =
     (case temp used counter of (name, counter) \<Rightarrow> name # temps (name # used) counter k)"

definition usedNames :: "'d Resolution \<Rightarrow> 'd CurrentState \<Rightarrow> go_string list" where
  "usedNames res cur =
     map en_name (cs_Environments cur) @ map en_name (cs_KeyGroups cur) @ map ck_Name (cs_Keys cur) @
     re_EnvCreates res @ re_GroupCreates res @ map ky_Name (re_KeyCreates res) @
     map rn_To (re_EnvRenames res) @ map rn_To (re_GroupRenames res) @
     map (\<lambda>u. ky_Name (ku_Desired u)) (re_KeyUpdates res)"

section \<open>Execution\<close>

record name_tables =
  nt_envs :: name_table
  nt_groups :: name_table
  nt_keys :: name_table

definition tablesOf :: "'d CurrentState \<Rightarrow> name_tables" where
  "tablesOf cur =
     \<lparr>nt_envs = map (\<lambda>e. (en_id e, en_name e)) (cs_Environments cur),
      nt_groups = map (\<lambda>g. (en_id g, en_name g)) (cs_KeyGroups cur),
      nt_keys = map (\<lambda>k. (ck_ID k, ck_Name k)) (cs_Keys cur)\<rparr>"

definition renameTargets :: "Rename list \<Rightarrow> (go_string \<times> go_string) list" where
  "renameTargets rs = map (\<lambda>r. (rn_ID r, rn_To r)) rs"

definition keyRenames :: "'d KeyUpdate list \<Rightarrow> (go_string \<times> go_string) list" where
  "keyRenames us = map (\<lambda>u. (ku_ID u, ky_Name (ku_Desired u))) (filter ku_Renamed us)"

definition bind_sum :: "'e + 'a \<Rightarrow> ('a \<Rightarrow> 'e + 'b) \<Rightarrow> 'e + 'b" where
  "bind_sum r f = (case r of Inl e \<Rightarrow> Inl e | Inr x \<Rightarrow> f x)"

text \<open>Step 4, on the three tables in turn; the temporary names are drawn in this order.\<close>

definition parkRenames ::
  "go_string list \<Rightarrow> (go_string \<times> go_string) list \<Rightarrow> (go_string \<times> go_string) list \<Rightarrow> (go_string \<times> go_string) list
     \<Rightarrow> name_tables \<Rightarrow> table_error + name_tables" where
  "parkRenames used er gr kr t =
     (let names = temps used 0 (length er + length gr + length kr);
          park = (\<lambda>rs names. zip (map fst rs) names)
      in bind_sum (each tableRename (park er names) (nt_envs t)) (\<lambda>envs.
         bind_sum (each tableRename (park gr (drop (length er) names)) (nt_groups t)) (\<lambda>groups.
         bind_sum (each tableRename (park kr (drop (length er + length gr) names)) (nt_keys t)) (\<lambda>keys.
         Inr \<lparr>nt_envs = envs, nt_groups = groups, nt_keys = keys\<rparr>))))"

definition finishRenames ::
  "(go_string \<times> go_string) list \<Rightarrow> (go_string \<times> go_string) list \<Rightarrow> (go_string \<times> go_string) list
     \<Rightarrow> name_tables \<Rightarrow> table_error + name_tables" where
  "finishRenames er gr kr t =
     bind_sum (each tableRename er (nt_envs t)) (\<lambda>envs.
     bind_sum (each tableRename gr (nt_groups t)) (\<lambda>groups.
     bind_sum (each tableRename kr (nt_keys t)) (\<lambda>keys.
     Inr \<lparr>nt_envs = envs, nt_groups = groups, nt_keys = keys\<rparr>)))"

definition executeResolution ::
  "'d Resolution \<Rightarrow> 'd CurrentState \<Rightarrow> go_string list \<Rightarrow> go_string list \<Rightarrow> go_string list \<Rightarrow> table_error + name_tables" where
  "executeResolution res cur envIDs groupIDs keyIDs =
     (let t = tablesOf cur; er = renameTargets (re_EnvRenames res); gr = renameTargets (re_GroupRenames res);
          kr = keyRenames (re_KeyUpdates res)
      in bind_sum (each tableDelete (map rf_ID (re_KeyDeletes res)) (nt_keys t)) (\<lambda>keys.
         bind_sum (each tableDelete (map rf_ID (re_GroupDeletes res)) (nt_groups t)) (\<lambda>groups.
         bind_sum (each tableDelete (map rf_ID (re_EnvDeletes res)) (nt_envs t)) (\<lambda>envs.
         bind_sum (parkRenames (usedNames res cur) er gr kr \<lparr>nt_envs = envs, nt_groups = groups, nt_keys = keys\<rparr>) (\<lambda>t.
         bind_sum (each tableCreate (zip envIDs (re_EnvCreates res)) (nt_envs t)) (\<lambda>envs.
         bind_sum (each tableCreate (zip groupIDs (re_GroupCreates res)) (nt_groups t)) (\<lambda>groups.
         bind_sum (finishRenames er gr kr (t\<lparr>nt_envs := envs, nt_groups := groups\<rparr>)) (\<lambda>t.
         bind_sum (each tableCreate (zip keyIDs (map ky_Name (re_KeyCreates res))) (nt_keys t)) (\<lambda>keys.
         Inr (t\<lparr>nt_keys := keys\<rparr>))))))))))"

section \<open>Temporary names are fresh\<close>

lemma temp_fresh: "fst (temp used counter) \<notin> set used"
  by (induction used counter rule: temp.induct) (subst temp.simps, simp)

lemma temps_fresh: "length (temps used counter k) = k \<and> distinct (temps used counter k) \<and> set (temps used counter k) \<inter> set used = {}"
proof (induction k arbitrary: used counter)
  case (Suc k)
  obtain name c where t: "temp used counter = (name, c)" by (cases "temp used counter")
  have "name \<notin> set used" using temp_fresh [of used counter] t by simp
  then show ?case using Suc.IH [of "name # used" c] t by auto
qed simp

lemma temp_span:
  "counter < snd (temp used counter) \<and>
   (\<forall>n. counter \<le> n \<longrightarrow> n + 1 < snd (temp used counter) \<longrightarrow> tempName n \<in> set used)"
proof (induction used counter rule: temp.induct)
  case (1 used counter)
  show ?case
  proof (cases "tempName counter \<in> set used")
    case True
    then have eq: "temp used counter = temp used (counter + 1)" by (subst temp.simps) simp
    have IH: "counter + 1 < snd (temp used (counter + 1))"
      "\<And>n. counter + 1 \<le> n \<Longrightarrow> n + 1 < snd (temp used (counter + 1)) \<Longrightarrow> tempName n \<in> set used"
      using 1 True by blast+
    have "tempName n \<in> set used" if "counter \<le> n" "n + 1 < snd (temp used (counter + 1))" for n
      using that IH(2) [of n] True by (cases "n = counter") simp_all
    then show ?thesis unfolding eq using IH(1) by simp
  next
    case False
    then have "temp used counter = (tempName counter, counter + 1)" by (subst temp.simps) simp
    then show ?thesis by simp
  qed
qed

text \<open>
  C40: the search for a temporary name ends: it returns a name that is not in use after at most as many
  probes as there are used names, and one more.
\<close>

theorem temp_terminates:
  "fst (temp used counter) \<notin> set used \<and> counter < snd (temp used counter) \<and>
   snd (temp used counter) \<le> counter + card (set used) + 1"
proof -
  have "tempName ` {counter..<snd (temp used counter) - 1} \<subseteq> set used" using temp_span by auto
  then have "card (tempName ` {counter..<snd (temp used counter) - 1}) \<le> card (set used)" by (simp add: card_mono)
  then have "snd (temp used counter) - 1 - counter \<le> card (set used)"
    by (simp add: card_image inj_on_subset [OF tempName_inj])
  then show ?thesis using temp_fresh [of used counter] temp_span [of counter used] by linarith
qed

section \<open>Batches on one table\<close>

definition renamed :: "(go_string \<rightharpoonup> go_string) \<Rightarrow> name_table \<Rightarrow> name_table" where
  "renamed f t = map (\<lambda>(j, n). (j, case f j of Some m \<Rightarrow> m | None \<Rightarrow> n)) t"

lemma map_fst_renamed [simp]: "map fst (renamed f t) = map fst t"
  by (simp add: renamed_def comp_def case_prod_unfold)

lemma renamed_ids [simp]: "fst ` set (renamed f t) = fst ` set t"
  by (metis list.set_map map_fst_renamed)

lemma renamed_twice: "renamed g (renamed f t) = renamed (f ++ g) t"
  by (auto simp: renamed_def map_add_def split: option.splits)

lemma renamed_append: "renamed f (t @ u) = renamed f t @ renamed f u"
  by (simp add: renamed_def)

lemma renamed_other: "fst ` set t \<inter> dom f = {} \<Longrightarrow> renamed f t = t"
  by (induction t) (auto simp: renamed_def dom_def split: option.splits)

lemma delete_all:
  assumes "distinct ds" "set ds \<subseteq> fst ` set t"
  shows "each tableDelete ds t = Inr (filter (\<lambda>r. fst r \<notin> set ds) t)"
  using assms
proof (induction ds arbitrary: t)
  case (Cons d ds)
  let ?t = "filter (\<lambda>r. fst r \<noteq> d) t"
  have "fst ` set ?t = fst ` set t - {d}" by force
  then have "set ds \<subseteq> fst ` set ?t" using Cons.prems by auto
  then have "each tableDelete ds ?t = Inr (filter (\<lambda>r. fst r \<notin> set ds) ?t)"
    using Cons.prems(1) by (intro Cons.IH) auto
  moreover have "tableDelete d t = Inr ?t" using Cons.prems(2) by (simp add: tableDelete_def)
  ultimately show ?case by (simp add: conj_commute)
qed simp

lemma rename_all:
  assumes "distinct (map fst rs)" "fst ` set rs \<subseteq> fst ` set t" "distinct (map snd rs)"
    and "snd ` set rs \<inter> snd ` set t = {}"
  shows "each tableRename rs t = Inr (renamed (map_of rs) t)"
  using assms
proof (induction rs arbitrary: t)
  case (Cons r rs)
  obtain i n where r: "r = (i, n)" by (cases r)
  let ?t = "map (\<lambda>(j, m). (j, if j = i then n else m)) t"
  have t: "?t = renamed [i \<mapsto> n] t" by (auto simp: renamed_def)
  have "list_ex (\<lambda>(j, m). j \<noteq> i \<and> m = n) t = False"
    using Cons.prems(4) r by (force simp: list_ex_iff)
  then have step: "tableRename r t = Inr ?t"
    using Cons.prems(2) unfolding tableRename_def r fst_conv snd_conv by simp
  have "snd ` set ?t \<subseteq> insert n (snd ` set t)" by (force split: if_splits)
  moreover have "n \<notin> snd ` set rs" "snd ` set rs \<inter> snd ` set t = {}" using Cons.prems(3,4) r by simp_all
  ultimately have "snd ` set rs \<inter> snd ` set ?t = {}" by blast
  then have "each tableRename rs ?t = Inr (renamed (map_of rs) ?t)"
    using Cons.prems(1-3) by (intro Cons.IH) (simp_all add: t r)
  moreover have "renamed (map_of rs) ?t = renamed (map_of (r # rs)) t"
  proof -
    have "i \<notin> dom (map_of rs)" using Cons.prems(1) r by (simp add: dom_map_of_conv_image_fst)
    then have "[i \<mapsto> n] ++ map_of rs = (map_of rs)(i \<mapsto> n)"
      by (auto simp: map_add_def fun_eq_iff dom_def split: option.splits)
    then show ?thesis unfolding t renamed_twice by (simp add: r)
  qed
  ultimately show ?case using step by (simp del: map_of.simps)
qed (simp add: renamed_def case_prod_unfold)

lemma create_all:
  assumes "distinct (map fst rs)" "fst ` set rs \<inter> fst ` set t = {}" "distinct (map snd rs)"
    and "snd ` set rs \<inter> snd ` set t = {}"
  shows "each tableCreate rs t = Inr (t @ rs)"
  using assms
proof (induction rs arbitrary: t)
  case (Cons r rs)
  then have "tableCreate r t = Inr (t @ [r])" by (auto simp: tableCreate_def)
  moreover have "each tableCreate rs (t @ [r]) = Inr ((t @ [r]) @ rs)"
    using Cons.prems by (intro Cons.IH) auto
  ultimately show ?case by simp
qed simp

end
