(* ===== verification/Spec2Isabelle.thy ===== *)
theory Spec2Isabelle
  imports Dotenv Delivery Envelope Bearer Schema_Names Authz_Policy Scheduler Reveal_Gate Definitions_Apply
begin

text \<open>
  A verification development for Hikyo (repository Dunky13/envweave), a self-hosted control plane for
  secrets and configuration. The server authenticates a caller (\<open>internal/admission\<close> throttles this),
  runs every operation inside a transaction (\<open>internal/store/tx\<close>) in which \<open>internal/authz\<close> evaluates the
  policy and mints a proof that the store checks, records what happened in an audit trail
  (\<open>internal/audit\<close>), keeps values sealed (\<open>internal/crypto\<close>) and delivers them in canonical encodings
  (\<open>internal/delivery\<close>, \<open>internal/dotenv\<close>). Several nodes share one database (\<open>internal/store/coordination*.go\<close>)
  and elect one scheduler (\<open>internal/app/scheduler.go\<close>).

  \<^bold>\<open>Conventions.\<close> A Go \<open>string\<close> or \<open>[]byte\<close> is a HOL \<open>string\<close>; a struct is a \<open>record\<close> whose field
  names carry a prefix of the type's name; a closed set of constants is a \<open>datatype\<close>; an error is a value,
  \<open>Inl\<close> of a sum or \<open>None\<close>; a Go map or a database table is an association list with distinct keys; an
  instant is a number of nanoseconds. State is passed explicitly. The clock, the random source and the
  answers of the database are arguments (\<open>Resolver\<close>, \<open>Ctx\<close>, \<open>attempt_env\<close>, \<open>SharedStore\<close>). What a property
  relies on of them is a named predicate of its hypotheses (\<open>resolver_errors\<close>, \<open>driver_errors\<close>,
  \<open>aead_round_trip\<close>, \<open>aead_authentic\<close>), which its witness discharges for concrete ones.

  \<^bold>\<open>Libraries.\<close>
  \<^item> \<open>Go_Prelude\<close>: the parts of \<open>strings\<close>, \<open>strconv\<close>, \<open>unicode/utf8\<close> and \<open>slices\<close> that the packages use,
    with the lemmas the components share.
  \<^item> \<open>Wire\<close>: varints and length prefixes, with the locale \<open>prefix_code\<close> (an encoding whose concatenation
    with arbitrary bytes is still uniquely readable), its closure under pairs, and its interpretation on
    each encoder.
  \<^item> \<open>Go_Hash\<close>: SHA-256, HMAC, CRC-32, hexadecimal and base 64, executable, with the injectivity of the
    textual encodings.

  \<^bold>\<open>Encodings and syntax.\<close>
  \<^item> \<open>Schema_Names\<close> (\<open>internal/schema/schema.go\<close>, \<open>presence.go\<close>): key names and presence rules.
  \<^item> \<open>Dotenv\<close> (\<open>internal/dotenv\<close>): the parser and the encoder; parsing what was encoded gives it back.
  \<^item> \<open>Delivery\<close> (\<open>internal/delivery\<close>): the bytes behind change tokens, cursors and occurrences determine
    what they encode; the acknowledgement of loader-control keys.
  \<^item> \<open>Envelope\<close> (\<open>internal/crypto\<close>): ciphertext records over an abstract AEAD; the associated data
    determines header and row context, and with an authentic cipher a record opens only where it was sealed.
  \<^item> \<open>Bearer\<close> (\<open>internal/crypto/bearer.go\<close>): accepted artifacts are exactly the minted ones.
  \<^item> \<open>Freetext\<close> (\<open>internal/freetext\<close>): sanitized text is bounded, valid and free of token shapes.

  \<^bold>\<open>Policy.\<close>
  \<^item> \<open>Domain\<close> (\<open>internal/domain\<close>): scopes, levels, capabilities and templates.
  \<^item> \<open>Audit_Schema\<close>, \<open>Audit_Registry\<close>, \<open>Audit_Events\<close> (\<open>internal/audit\<close>): payload schemas, the whole
    catalogue of event types, and the validation of an event against it.
  \<^item> \<open>Authz_Registry\<close>, \<open>Authz_Table\<close>, \<open>Authz_Policy\<close> (\<open>internal/authz/registry.go\<close>): the construction of
    the registry, which accepts exactly the well-formed tables, the installed table row by row, and that it
    passes the construction.
  \<^item> \<open>Authz\<close> (\<open>internal/authz\<close>): evaluation of formulas, \<open>Authorize\<close> with its denial capture, proofs,
    system sites, and \<open>Verify\<close> at the store boundary. The lemmas show what a proof certifies, that a refusal
    reveals nothing and is recorded, and that proofs die with their transaction.
  \<^item> This theory composes them over the installed table: tenant isolation, separation of the trails, and
    that mutations are audited.

  \<^bold>\<open>State and concurrency.\<close>
  \<^item> \<open>Admission\<close> (\<open>internal/admission\<close>): the limiter as a step relation over all interleavings of callers;
    memory budget, progress of waiters, sliding windows. Its locale \<open>account_counters\<close> is the contract
    of a shared backoff table.
  \<^item> \<open>Coordination\<close>: leases, node registry, counters and MCP claims as tables, each operation with every
    outcome of its transaction; it interprets \<open>account_counters\<close>, which gives the agreement of the two
    backoff implementations.
  \<^item> \<open>Scheduler\<close>: the leadership loop of every node cut at its database calls, and the cluster of nodes as a
    step relation; fencing, mutual exclusion, and takeover within one heartbeat of a lapsed lease.
  \<^item> \<open>Transactions\<close> (\<open>internal/store/tx/tx.go\<close>): attempts, settlement of captured denials and the retry
    loop; the locale \<open>retried_attempts\<close> carries the loop's lemmas for the write, serialized and read attempts.
  \<^item> \<open>Reveal_Gate\<close> (\<open>internal/service/keys.go\<close>): the gate of reveal-gated changes and the closure of
    \<open>Keys.UpdateDeclaration\<close> up to it, composed with \<open>Authz\<close> and \<open>Transactions\<close>; the part of the closure
    behind the gate is an argument.

  \<^bold>\<open>Definition bundles.\<close>
  \<^item> \<open>Definitions\<close> (\<open>internal/definitions\<close>): matching of a bundle against the stored definitions, the diff,
    drift and export; matching is a partial bijection, an export is classified equal to what it was taken
    from, an additive bundle only creates, and the preview names every reveal-gated key.
  \<^item> \<open>Definitions_Apply\<close> (\<open>internal/service/definitions_apply_exec.go\<close>): the execution of a resolution on the
    names, with the search for temporary names, which ends because the used names are finite.

  \<^bold>\<open>Bounds.\<close> No definition uses fuel: loops over data are structural recursions or have a termination
  proof; the retry loop recurses on the attempts left, which the code bounds by four; the long-running loops
  (limiter, scheduler) are step relations, so that every interleaving and every length is covered. Machine
  words are kept where they wrap: the hashes, the varints and the version counters of the envelopes.

  \<^bold>\<open>Not modelled.\<close> Generated code (\<open>api/apigen\<close>, the sqlc bindings), SQL text, migrations and the
  repositories behind it, HTTP, CLI and terminal input and output, the web console and the build scripts;
  cryptographic primitives other than the hashes (an AEAD is an argument of \<open>Envelope\<close> with its laws);
  protocol stacks that are calls into external libraries (OIDC, SAML, WebAuthn, Kubernetes, MCP, age).
  \<open>PROJECT.json\<close> lists each such part with the reason.
\<close>

section \<open>Tenant isolation under the installed policy\<close>

lemma covers_org: "covers g t \<Longrightarrow> Org g = [] \<or> Org g = Org t"
  by (auto simp: covers_def split: if_splits)

lemma truncate_org: "truncate_at s l = Some t \<Longrightarrow> Org t = [] \<or> Org t = Org s"
  by (auto simp: truncate_at_def split: if_splits)

lemma Authorize_grants:
  assumes "Authorize reg r ctx caller op scope a = (Inr p, a')"
  obtains spec grants where "authorization_spec reg op = Some spec" "Grants r (id_Principal caller) = Inr grants"
    "\<forall>b \<in> set (as_formula spec). holds_atom grants (pf_chain p) b"
    "as_class spec = ClassTenant \<and> pf_kind p = kindTenant \<or> as_class spec = ClassInstance \<and> pf_kind p = kindInstance"
    "pf_op p = op"
proof -
  obtain spec where spec: "authorization_spec reg op = Some spec"
    and minted: "as_class spec = ClassTenant \<and> authorizeTenant reg r ctx caller op spec scope a = (Inr p, a') \<or>
      as_class spec = ClassInstance \<and> authorizeInstance reg r ctx caller op spec a = (Inr p, a')"
    using assms by (auto simp: Authorize_def refuse_def split: option.splits if_splits Class.splits)
  from minted obtain grants where "Grants r (id_Principal caller) = Inr grants"
    "evaluate (as_formula spec) (pf_chain p) grants = Some True" "pf_op p = op"
    "as_class spec = ClassTenant \<and> pf_kind p = kindTenant \<or> as_class spec = ClassInstance \<and> pf_kind p = kindInstance"
    by (auto dest!: authorizeTenant_Inr tenantConjuncts_Inr authorizeInstance_Inr)
  then show thesis
    using that [OF spec] by (simp add: evaluate_True)
qed

lemma installed_spec:
  assumes "mustNewRegistry operationTable = Some reg" "authorization_spec reg op = Some spec"
  obtains row where "(op, row) \<in> set operationTable" "valid_row (op, row)" "reg_ops reg op = Some row"
    "as_class spec = os_class row" "as_formula spec = os_formula row"
  using assms(2) installed_row [OF assms(1)] by (auto simp: authorization_spec_def split: option.splits)

text \<open>
  C1: tenant isolation. Under the installed policy a proof over a chain of some organisation is minted only
  for a caller who holds a grant in that very organisation or at the instance; grants in other
  organisations never contribute.
\<close>

theorem tenant_isolation:
  assumes "mustNewRegistry operationTable = Some reg"
    and "Authorize reg r ctx caller op scope a = (Inr p, a')"
    and "Grants r (id_Principal caller) = Inr grants"
  shows "\<exists>g \<in> set grants. Org (grant_Scope g) = [] \<or> Org (grant_Scope g) = Org (pf_chain p)"
proof -
  obtain spec where spec: "authorization_spec reg op = Some spec"
    and held: "\<forall>b \<in> set (as_formula spec). holds_atom grants (pf_chain p) b"
    using Authorize_grants [OF assms(2)] assms(3) by (metis sum.inject(2))
  obtain b where "b \<in> set (as_formula spec)"
    using installed_spec [OF assms(1) spec] valid_row_atoms by (metis list.set_intros(1) neq_Nil_conv)
  with held show ?thesis
    unfolding holds_atom_def using covers_org truncate_org by metis
qed

text \<open>
  An instance operation is out of reach of tenant grants: under the installed policy a caller none of
  whose grants is at the instance never obtains an instance proof.
\<close>

theorem instance_operations_need_instance_grants:
  assumes "mustNewRegistry operationTable = Some reg"
    and "Authorize reg r ctx caller op scope a = (Inr p, a')" "pf_kind p = kindInstance"
    and "Grants r (id_Principal caller) = Inr grants"
  shows "\<exists>g \<in> set grants. Org (grant_Scope g) = []"
proof -
  obtain spec where spec: "authorization_spec reg op = Some spec" and inst: "as_class spec = ClassInstance"
    and held: "\<forall>b \<in> set (as_formula spec). holds_atom grants (pf_chain p) b"
    using Authorize_grants [OF assms(2)] assms(3,4)
    by (metis proofKind.distinct(1) sum.inject(2))
  obtain row where row: "valid_row (op, row)" "as_class spec = os_class row" "as_formula spec = os_formula row"
    using installed_spec [OF assms(1) spec] by metis
  then obtain b where b: "b \<in> set (as_formula spec)" "atom_At b = LevelNone"
    using valid_row_atoms [OF row(1)] inst
    by (cases "os_formula row") (auto simp: validLevel_def tenantLevel_def level_defs)
  from held b obtain g where "g \<in> set grants" "covers (grant_Scope g) no_scope"
    by (auto simp: holds_atom_def truncate_at_def)
  then show ?thesis using covers_org by fastforce
qed

text \<open>
  C9: the two audit trails are kept apart: no tenant proof can append to the instance trail and no instance
  proof to a tenant trail.
\<close>

theorem trails_separated:
  assumes "mustNewRegistry operationTable = Some reg"
    and "Authorize reg r ctx caller op scope a = (Inr p, a')"
  shows "\<exists>e. Verify reg dead (Some p)
     (if pf_kind p = kindTenant then ''audit.InsertInstance'' else ''audit.InsertTenant'') tok = Inl e"
proof -
  obtain spec where spec: "authorization_spec reg op = Some spec" and op: "pf_op p = op"
    and kind: "as_class spec = ClassTenant \<and> pf_kind p = kindTenant \<or>
      as_class spec = ClassInstance \<and> pf_kind p = kindInstance"
    using Authorize_grants [OF assms(2)] by metis
  obtain row where row: "(op, row) \<in> set operationTable" "reg_ops reg op = Some row" "as_class spec = os_class row"
    using installed_spec [OF assms(1) spec] by metis
  then have "trail_row (op, row)" using trail_rows by (simp add: list_all_iff)
  then have "\<not> permitsStoreOp reg op
      (if pf_kind p = kindTenant then ''audit.InsertInstance'' else ''audit.InsertTenant'')"
    using kind row(2,3) by (auto simp: trail_row_def permitsStoreOp_def list_ex_iff dest!: map_of_SomeD)
  then show ?thesis
    using kind Verify_Inr [of reg dead p _ tok] op
    by (cases "Verify reg dead (Some p)
       (if pf_kind p = kindTenant then ''audit.InsertInstance'' else ''audit.InsertTenant'') tok") auto
qed

text \<open>
  C8: what changes state leaves a trace: under the installed policy, a store operation outside the pinned
  read-only set that is reached with a proof of \<open>Authorize\<close> is reached through an operation that declares
  registered audit events. The only calls without an event are those of the two reviewed exemptions: the
  plan lookup of \<open>definitions.plan.get\<close>, and the lookup and touch of a binding by \<open>scim-discovery.read\<close>.
\<close>

theorem mutations_are_audited:
  assumes "mustNewRegistry operationTable = Some reg"
    and "Authorize reg r ctx caller op scope a = (Inr p, a')"
    and "Verify reg dead (Some p) so tok = Inr chain" "\<not> readOnlyOp so"
  shows "\<exists>row. reg_ops reg op = Some row \<and>
    (os_events row \<noteq> [] \<and> list_all registeredType (os_events row) \<or> (op, so) \<in> set exemptCalls)"
proof -
  obtain spec where spec: "authorization_spec reg op = Some spec" and op: "pf_op p = op"
    and kind: "pf_kind p \<noteq> kindSystem"
    using Authorize_grants [OF assms(2)] by (metis proofKind.distinct(3,5))
  obtain row where row: "(op, row) \<in> set operationTable" "valid_row (op, row)" "reg_ops reg op = Some row"
    using installed_spec [OF assms(1) spec] by metis
  have so: "(so, True) \<in> set (os_storeOps row)"
    using assms(3) kind op row(3) by (auto simp: Verify_Inr permitsStoreOp_def dest!: map_of_SomeD)
  have "well_formed registeredType readOnlyOp op row"
    using row(2) validateSpec_iff by (auto simp: valid_row_def)
  then have "os_events row \<noteq> [] \<and> list_all registeredType (os_events row) \<or> os_reviewExempt row"
    using so assms(4) by (auto simp: well_formed_def disposed_def list_all_iff)
  moreover have "(op, so) \<in> set exemptCalls" if "os_reviewExempt row"
    using exempt_rows row(1) so that by (fastforce simp: list_all_iff exempt_row_def)
  ultimately show ?thesis using row(3) by blast
qed

section \<open>The installed policy at work\<close>

definition installed_registry :: Registry where
  "installed_registry = \<lparr>reg_ops = map_of (rev operationTable)\<rparr>"

lemma installed_registry: "mustNewRegistry operationTable = Some installed_registry"
  by (simp add: mustNewRegistry_def installed installed_registry_def)

lemma lease_settle_row:
  "reg_ops installed_registry ''lease.settle'' = Some (op_row ClassTenant LevelEnv [atom CapRead LevelEnv]
     (licensed [''dynamic.GetLease'', ''dynamic.EnqueueTransition'', ''audit.InsertTenant''])
     [''dynamic.lease_settle_requested''])"
  by (simp add: installed_registry_def operationTable_def operationTable_part20_def)

lemma workspace_origin_row:
  "\<exists>sos evs. reg_ops installed_registry ''workspace-origin.remove'' =
     Some (op_row ClassInstance LevelNone [atom CapInstanceConfig LevelNone] (licensed sos) evs)"
  by (auto simp: installed_registry_def operationTable_def operationTable_part19_def operationTable_part20_def)

definition reader_grants :: "Grant list" where
  "reader_grants = [\<lparr>grant_Cap = CapRead, grant_Scope = \<lparr>Org = ''o'', Project = [], Env = []\<rparr>\<rparr>,
     \<lparr>grant_Cap = CapInstanceConfig, grant_Scope = no_scope\<rparr>]"

lemma settle_authorized:
  "Authorize installed_registry (sample_resolver reader_grants False) sample_ctx (sample_caller ClassHuman)
     ''lease.settle'' sample_scope sample_authorizer =
   (Inr ((blank_proof kindTenant ''lease.settle'' 7)\<lparr>pf_chain := sample_scope\<rparr>), sample_authorizer)"
  by (simp add: Authorize_def authorizeTenant_def tenantConjuncts_def authorization_spec_def lease_settle_row
      sample_resolver_def sample_ctx_def sample_caller_def sample_scope_def sample_authorizer_def
      reader_grants_def scope_Level_def truncate_at_def covers_def selfConfigProfile_def level_defs
      machineRevealWithdrawn_def IsServiceAccountKind_def assuranceInadequate_def OpSelfConfigApply_def
      OpSelfConfigTest_def cap_defs ClassHuman_def ClassWorkload_def ClassAutomation_def)

lemma remove_authorized:
  "\<exists>p. Authorize installed_registry (sample_resolver reader_grants False) sample_ctx (sample_caller ClassHuman)
     ''workspace-origin.remove'' no_scope sample_authorizer = (Inr p, sample_authorizer) \<and> pf_kind p = kindInstance"
proof -
  obtain sos evs where "reg_ops installed_registry ''workspace-origin.remove'' =
     Some (op_row ClassInstance LevelNone [atom CapInstanceConfig LevelNone] (licensed sos) evs)"
    using workspace_origin_row by blast
  then show ?thesis
    by (simp add: Authorize_def authorizeInstance_def authorization_spec_def
      sample_resolver_def sample_ctx_def sample_caller_def sample_authorizer_def
      reader_grants_def truncate_at_def covers_def level_defs assuranceInadequate_def
      OpSelfConfigStatus_def OpSelfConfigAdopt_def OpSelfConfigPreview_def cap_defs ClassHuman_def)
qed

theorem tenant_isolation_witness:
  "\<exists>g \<in> set reader_grants. Org (grant_Scope g) = [] \<or> Org (grant_Scope g) = ''o''"
  using tenant_isolation [OF installed_registry settle_authorized, of reader_grants]
  by (simp add: sample_resolver_def sample_scope_def)

theorem instance_operations_need_instance_grants_witness:
  "\<exists>g \<in> set reader_grants. Org (grant_Scope g) = []"
proof -
  obtain p where "Authorize installed_registry (sample_resolver reader_grants False) sample_ctx
     (sample_caller ClassHuman) ''workspace-origin.remove'' no_scope sample_authorizer = (Inr p, sample_authorizer)"
     "pf_kind p = kindInstance"
    using remove_authorized by blast
  from instance_operations_need_instance_grants [OF installed_registry this, of reader_grants]
  show ?thesis by (simp add: sample_resolver_def)
qed

theorem trails_separated_witness:
  "\<exists>e. Verify installed_registry {} (Some ((blank_proof kindTenant ''lease.settle'' 7)\<lparr>pf_chain := sample_scope\<rparr>))
     ''audit.InsertInstance'' (Some 7) = Inl e"
  using trails_separated [OF installed_registry settle_authorized, of "{}" "Some 7"] by simp

theorem mutations_are_audited_witness:
  "\<exists>row. reg_ops installed_registry ''lease.settle'' = Some row \<and> os_events row \<noteq> []"
proof -
  let ?p = "(blank_proof kindTenant ''lease.settle'' 7)\<lparr>pf_chain := sample_scope\<rparr>"
  have "Verify installed_registry {} (Some ?p) ''dynamic.EnqueueTransition'' (Some 7) = Inr sample_scope"
    by (simp add: Verify_Inr permitsStoreOp_def lease_settle_row licensed_def)
  moreover have "\<not> readOnlyOp ''dynamic.EnqueueTransition''"
    by (simp add: readOnlyOp_def readOnlyStoreOps_def)
  ultimately show ?thesis
    using mutations_are_audited [OF installed_registry settle_authorized]
    by (fastforce simp: exemptCalls_def OpDefinitionsPlanGet_def OpSCIMDiscovery_def)
qed

end
